(* ===== verification/Prelude.thy ===== *)
theory Prelude
  imports Main "HOL-Library.Word" "HOL-Library.List_Lexorder" "HOL-Library.Char_ord"
begin

text \<open>
  Shared vocabulary of the development: the machine integer types of the Rust
  sources with their saturating and checked operations, the three ways a Rust
  call can end (a value, an error value, a panic), durations, and the generic
  lemmas on lists, maps and words that the component theories use.

  Standard-library behaviour is modelled where the sources use it:
  \<^item> \<open>u8\<close>, \<open>u32\<close>, \<open>u64\<close> and \<open>uuid\<close> (128 bit) are words, whose order is the unsigned one;
  \<^item> \<open>usize\<close> values are lengths and counters and are modelled by \<open>nat\<close>;
  \<^item> strings are the lists of their UTF-8 bytes, and \<open>trim\<close> removes the white space of Unicode;
  \<^item> a \<open>std::time::Duration\<close> is its number of nanoseconds;
  \<^item> a \<open>HashMap\<close> is a partial function and a \<open>HashSet\<close> a set;
  \<^item> a \<open>BTreeMap\<close> is an association list with strictly ascending keys.
\<close>

section \<open>Collections of the development\<close>

named_theorems store_simps \<open>how the store operations act on single fields\<close>
named_theorems inv_intros \<open>preservation of the store invariants\<close>
named_theorems sat_simps \<open>saturating and checked arithmetic as natural numbers\<close>

section \<open>Machine integers\<close>

type_synonym u8 = "8 word"
type_synonym u32 = "32 word"
type_synonym u64 = "64 word"
type_synonym u128 = "128 word"
type_synonym uuid = "128 word"

definition u64_max :: u64 where
  "u64_max = - 1"

definition saturating_add :: "'a::len word \<Rightarrow> 'a word \<Rightarrow> 'a word" where
  "saturating_add a b = (if unat a + unat b < 2 ^ LENGTH('a) then a + b else - 1)"

definition saturating_sub :: "'a::len word \<Rightarrow> 'a word \<Rightarrow> 'a word" where
  "saturating_sub a b = (if b \<le> a then a - b else 0)"

definition saturating_mul :: "'a::len word \<Rightarrow> 'a word \<Rightarrow> 'a word" where
  "saturating_mul a b = (if unat a * unat b < 2 ^ LENGTH('a) then a * b else - 1)"

definition checked_add :: "'a::len word \<Rightarrow> 'a word \<Rightarrow> 'a word option" where
  "checked_add a b = (if unat a + unat b < 2 ^ LENGTH('a) then Some (a + b) else None)"

text \<open>\<open>1u64.checked_shl(n)\<close>: \<open>None\<close> when the shift is not below the width.\<close>

definition checked_shl_one :: "u32 \<Rightarrow> u64 option" where
  "checked_shl_one n = (if unat n < 64 then Some (push_bit (unat n) 1) else None)"

lemma unat_lt2p: "unat (a :: 'a::len word) < 2 ^ LENGTH('a)"
  by (rule unsigned_less)

lemma unat_minus_one_max [simp]: "unat (- 1 :: 'a::len word) = 2 ^ LENGTH('a) - 1"
  by (simp add: unsigned_minus_1_eq_mask mask_eq_exp_minus_1)

lemma unat_le_max: "unat (a :: 'a::len word) \<le> 2 ^ LENGTH('a) - 1"
  using unat_lt2p [of a] by linarith

lemma unat_saturating_add [sat_simps]:
  "unat (saturating_add a b) = min (unat a + unat b) (2 ^ LENGTH('a) - 1)"
  for a b :: "'a::len word"
  by (auto simp: saturating_add_def unat_word_ariths min_def)

lemma unat_saturating_sub [sat_simps]:
  "unat (saturating_sub a b) = unat a - unat b"
  by (auto simp add: saturating_sub_def unat_sub word_le_nat_alt)

lemma unat_saturating_mul [sat_simps]:
  "unat (saturating_mul a b) = min (unat a * unat b) (2 ^ LENGTH('a) - 1)"
  for a b :: "'a::len word"
proof (cases "unat a * unat b < 2 ^ LENGTH('a)")
  case True
  moreover from this have "unat a * unat b \<le> 2 ^ LENGTH('a) - 1" by linarith
  ultimately show ?thesis by (simp add: saturating_mul_def unat_word_ariths)
next
  case False
  then have "2 ^ LENGTH('a) - 1 \<le> unat a * unat b" by linarith
  with False show ?thesis by (simp add: saturating_mul_def min_def)
qed

lemma checked_add_Some_iff:
  "checked_add a b = Some c \<longleftrightarrow> unat c = unat a + unat b"
  for a b c :: "'a::len word"
proof
  assume "checked_add a b = Some c"
  then show "unat c = unat a + unat b"
    by (auto simp: checked_add_def unat_word_ariths split: if_splits)
next
  assume c: "unat c = unat a + unat b"
  have "unat c < 2 ^ LENGTH('a)" by (rule unat_lt2p)
  then have "unat a + unat b < 2 ^ LENGTH('a)" using c by simp
  moreover from this have "unat (a + b) = unat c"
    using c by (simp add: unat_word_ariths)
  then have "a + b = c" by (simp only: word_unat_eq_iff)
  ultimately show "checked_add a b = Some c"
    by (simp add: checked_add_def)
qed

lemma saturating_add_ge: "a \<le> saturating_add a b"
  using unat_le_max [of a] by (simp add: word_le_nat_alt sat_simps)

section \<open>White space\<close>

text \<open>
  \<open>trim().is_empty()\<close>: the string consists of characters with the Unicode property
  \<open>White_Space\<close>, which are encoded in one, two or three bytes.
\<close>

definition white_space1 :: "nat \<Rightarrow> bool" where
  "white_space1 a = (9 \<le> a \<and> a \<le> 13 \<or> a = 32)"

definition white_space2 :: "nat \<Rightarrow> nat \<Rightarrow> bool" where
  "white_space2 a b = (a = 0xC2 \<and> (b = 0x85 \<or> b = 0xA0))"

definition white_space3 :: "nat \<Rightarrow> nat \<Rightarrow> nat \<Rightarrow> bool" where
  "white_space3 a b c =
     (a = 0xE1 \<and> b = 0x9A \<and> c = 0x80
      \<or> a = 0xE2 \<and> b = 0x80 \<and> (0x80 \<le> c \<and> c \<le> 0x8A \<or> c = 0xA8 \<or> c = 0xA9 \<or> c = 0xAF)
      \<or> a = 0xE2 \<and> b = 0x81 \<and> c = 0x9F
      \<or> a = 0xE3 \<and> b = 0x80 \<and> c = 0x80)"

fun trim_is_empty :: "string \<Rightarrow> bool" where
  "trim_is_empty [] = True"
| "trim_is_empty [a] = white_space1 (of_char a)"
| "trim_is_empty [a, b] =
     (white_space1 (of_char a) \<and> trim_is_empty [b] \<or> white_space2 (of_char a) (of_char b))"
| "trim_is_empty (a # b # c # s) =
     (white_space1 (of_char a) \<and> trim_is_empty (b # c # s)
      \<or> white_space2 (of_char a) (of_char b) \<and> trim_is_empty (c # s)
      \<or> white_space3 (of_char a) (of_char b) (of_char c) \<and> trim_is_empty s)"

text \<open>\<open>value.trim() == value\<close>: no white space at the start and none at the end.\<close>

definition starts_white :: "string \<Rightarrow> bool" where
  "starts_white s =
     (1 \<le> length s \<and> white_space1 (of_char (s ! 0))
      \<or> 2 \<le> length s \<and> white_space2 (of_char (s ! 0)) (of_char (s ! 1))
      \<or> 3 \<le> length s \<and> white_space3 (of_char (s ! 0)) (of_char (s ! 1)) (of_char (s ! 2)))"

definition ends_white :: "string \<Rightarrow> bool" where
  "ends_white s =
     (let n = length s in
      1 \<le> n \<and> white_space1 (of_char (s ! (n - 1)))
      \<or> 2 \<le> n \<and> white_space2 (of_char (s ! (n - 2))) (of_char (s ! (n - 1)))
      \<or> 3 \<le> n \<and> white_space3 (of_char (s ! (n - 3))) (of_char (s ! (n - 2))) (of_char (s ! (n - 1))))"

lemma trim_is_empty_starts: "trim_is_empty s \<Longrightarrow> s = [] \<or> starts_white s"
  by (induction s rule: trim_is_empty.induct) (auto simp: starts_white_def)

section \<open>Durations\<close>

type_synonym duration = nat \<comment> \<open>nanoseconds\<close>

definition as_millis :: "duration \<Rightarrow> nat" where
  "as_millis d = d div 1000000"

definition from_millis :: "u64 \<Rightarrow> duration" where
  "from_millis ms = unat ms * 1000000"

definition from_secs :: "nat \<Rightarrow> duration" where
  "from_secs s = s * 1000000000"

text \<open>
  \<open>u64::try_from(d.as_millis().min(u128::from(u64::MAX))).unwrap_or(u64::MAX)\<close>: the
  milliseconds of a duration, capped at the largest \<open>u64\<close>.
\<close>

definition millis_u64 :: "duration \<Rightarrow> u64" where
  "millis_u64 d = of_nat (min (as_millis d) (2 ^ 64 - 1))"

lemma unat_millis_u64 [sat_simps]: "unat (millis_u64 d) = min (as_millis d) (2 ^ 64 - 1)"
  by (simp add: millis_u64_def unat_of_nat)

lemma as_millis_from_millis [simp]: "as_millis (from_millis ms) = unat ms"
  by (simp add: as_millis_def from_millis_def)

section \<open>How a call ends\<close>

text \<open>
  A Rust call returns a value, returns an error value, or panics
  (\<open>unreachable!\<close>, \<open>expect\<close>, an index out of range).
\<close>

datatype ('e, 'a) outcome = Ok 'a | Err 'e | Panic string

definition panics :: "('e, 'a) outcome \<Rightarrow> bool" where
  "panics r = (case r of Panic _ \<Rightarrow> True | _ \<Rightarrow> False)"

fun bind_outcome :: "('e, 'a) outcome \<Rightarrow> ('a \<Rightarrow> ('e, 'b) outcome) \<Rightarrow> ('e, 'b) outcome" where
  "bind_outcome (Ok x) f = f x"
| "bind_outcome (Err e) f = Err e"
| "bind_outcome (Panic p) f = Panic p"

lemma bind_outcome_Ok_iff:
  "bind_outcome r f = Ok y \<longleftrightarrow> (\<exists>x. r = Ok x \<and> f x = Ok y)"
  by (cases r) auto

definition ensure :: "bool \<Rightarrow> 'e \<Rightarrow> ('e, unit) outcome" where
  "ensure b e = (if b then Ok () else Err e)"

lemma ensure_Ok_iff [simp]: "ensure b e = Ok u \<longleftrightarrow> b"
  by (simp add: ensure_def)

section \<open>Lists and maps\<close>

text \<open>\<open>retain\<close> with a \<open>seen\<close> set: the first occurrence of every element, in order.\<close>

fun dedup_seen :: "'a set \<Rightarrow> 'a list \<Rightarrow> 'a list" where
  "dedup_seen seen [] = []"
| "dedup_seen seen (x # xs) =
     (if x \<in> seen then dedup_seen seen xs else x # dedup_seen (insert x seen) xs)"

lemma set_dedup_seen: "set (dedup_seen seen xs) = set xs - seen"
  by (induction seen xs rule: dedup_seen.induct) auto

lemma distinct_dedup_seen: "distinct (dedup_seen seen xs)"
  by (induction seen xs rule: dedup_seen.induct) (auto simp: set_dedup_seen)

lemma dedup_seen_id: "distinct xs \<Longrightarrow> set xs \<inter> seen = {} \<Longrightarrow> dedup_seen seen xs = xs"
  by (induction seen xs rule: dedup_seen.induct) auto

lemma filter_neq_idem [simp]: "filter (\<lambda>y. y \<noteq> x) (filter (\<lambda>y. y \<noteq> x) xs) = filter (\<lambda>y. y \<noteq> x) xs"
  by simp

lemma image_nth_lessThan: "(\<lambda>i. f (xs ! i)) ` {..<length xs} = f ` set xs"
  using nth_image [of "length xs" xs] by (simp add: lessThan_atLeast0 flip: image_image)

lemma map_le_upd_None: "m(k := None) \<subseteq>\<^sub>m m"
  by (simp add: map_le_def)

end
