(* ===== verification/Queue_Types.thy ===== *)
theory Queue_Types
  imports Prelude
begin

text \<open>
  The data of the \<open>raiko2-queue\<close> crate: task identities and owners, priorities, task
  states, execution graphs (\<open>crates/queue/src/types.rs\<close>,
  \<open>crates/queue/src/scheduler/types.rs\<close>), the execution policy
  (\<open>scheduler/config.rs\<close>) and the retry policy with its back-off computation
  (\<open>scheduler/retry.rs\<close>).

  The newtype \<open>TaskId<Id>(pub Id)\<close> is erased: a task id is its key. Payloads \<open>'p\<close>,
  outputs \<open>'o\<close> and keys \<open>'id\<close> stay type parameters as in the sources. The type
  arguments of a task id's binary codec (\<open>encode_task_id\<close>, \<open>decode_task_id\<close>) are
  third-party serializers and are left out.
\<close>

section \<open>Identities, priorities and states\<close>

record root_owner =
  owner_task_id :: string
  incarnation_id :: uuid

datatype priority = High | Medium | Low

fun priority_as_str :: "priority \<Rightarrow> string" where
  "priority_as_str High = ''high''"
| "priority_as_str Medium = ''medium''"
| "priority_as_str Low = ''low''"

definition priority_parse :: "string \<Rightarrow> priority option" where
  "priority_parse raw =
     (if raw = ''high'' then Some High
      else if raw = ''medium'' then Some Medium
      else if raw = ''low'' then Some Low
      else None)"

lemma priority_parse_Some_iff: "priority_parse raw = Some p \<longleftrightarrow> raw = priority_as_str p"
  by (cases p) (auto simp: priority_parse_def)

datatype ('o, 'id) task_state =
    Pending nat
  | Ready
  | Running string u32
  | Retrying string u32 u64
  | Succeeded 'o
  | Failed string "'id option"
  | Cancelled

datatype task_state_kind =
    KPending | KReady | KRunning | KRetrying | KSucceeded | KFailed | KCancelled

fun state_kind :: "('o, 'id) task_state \<Rightarrow> task_state_kind" where
  "state_kind (Pending _) = KPending"
| "state_kind Ready = KReady"
| "state_kind (Running _ _) = KRunning"
| "state_kind (Retrying _ _ _) = KRetrying"
| "state_kind (Succeeded _) = KSucceeded"
| "state_kind (Failed _ _) = KFailed"
| "state_kind Cancelled = KCancelled"

text \<open>
  The patterns the store matches states against: \<open>Cancelled | Succeeded | Failed\<close> ends a
  task, \<open>Failed | Cancelled\<close> is what an attach may reset.
\<close>

fun is_terminal :: "('o, 'id) task_state \<Rightarrow> bool" where
  "is_terminal Cancelled = True"
| "is_terminal (Succeeded _) = True"
| "is_terminal (Failed _ _) = True"
| "is_terminal _ = False"

fun is_resettable :: "('o, 'id) task_state \<Rightarrow> bool" where
  "is_resettable (Failed _ _) = True"
| "is_resettable Cancelled = True"
| "is_resettable _ = False"

fun is_pending :: "('o, 'id) task_state \<Rightarrow> bool" where
  "is_pending (Pending _) = True"
| "is_pending _ = False"

fun is_ready :: "('o, 'id) task_state \<Rightarrow> bool" where
  "is_ready Ready = True"
| "is_ready _ = False"

fun is_running :: "('o, 'id) task_state \<Rightarrow> bool" where
  "is_running (Running _ _) = True"
| "is_running _ = False"

fun is_retrying :: "('o, 'id) task_state \<Rightarrow> bool" where
  "is_retrying (Retrying _ _ _) = True"
| "is_retrying _ = False"

fun is_succeeded :: "('o, 'id) task_state \<Rightarrow> bool" where
  "is_succeeded (Succeeded _) = True"
| "is_succeeded _ = False"

lemma is_pending_iff: "is_pending s \<longleftrightarrow> (\<exists>n. s = Pending n)"
  by (cases s) auto

lemma is_ready_iff [simp]: "is_ready s \<longleftrightarrow> s = Ready"
  by (cases s) auto

lemma is_running_iff: "is_running s \<longleftrightarrow> (\<exists>tok a. s = Running tok a)"
  by (cases s) auto

lemma is_succeeded_iff: "is_succeeded s \<longleftrightarrow> (\<exists>x. s = Succeeded x)"
  by (cases s) auto

lemma is_terminal_iff: "is_terminal s \<longleftrightarrow> is_succeeded s \<or> is_resettable s"
  by (cases s) auto

lemma state_kind_cases:
  "is_pending s \<longleftrightarrow> state_kind s = KPending"
  "is_running s \<longleftrightarrow> state_kind s = KRunning"
  "is_retrying s \<longleftrightarrow> state_kind s = KRetrying"
  "is_succeeded s \<longleftrightarrow> state_kind s = KSucceeded"
  "is_terminal s \<longleftrightarrow> state_kind s \<in> {KSucceeded, KFailed, KCancelled}"
  "is_resettable s \<longleftrightarrow> state_kind s \<in> {KFailed, KCancelled}"
  by (cases s; simp)+

section \<open>Retry policy\<close>

datatype retry_policy =
    RetryNone
  | Fixed u32 duration
  | Exponential u32 duration duration

text \<open>
  \<open>RetryPolicy::retry_delay\<close>: the arithmetic is on \<open>u64\<close> milliseconds, with the shift
  checked and the product saturating.
\<close>

fun retry_delay :: "retry_policy \<Rightarrow> u32 \<Rightarrow> duration option" where
  "retry_delay RetryNone attempt = None"
| "retry_delay (Fixed max_attempts delay) attempt =
     (if max_attempts \<le> attempt then None else Some delay)"
| "retry_delay (Exponential max_attempts base_delay max_delay) attempt =
     (if max_attempts \<le> attempt then None
      else
        let exponent = saturating_sub attempt 1;
            base_ms = millis_u64 base_delay;
            max_ms = millis_u64 max_delay;
            factor = (case checked_shl_one exponent of Some f \<Rightarrow> f | None \<Rightarrow> u64_max);
            delay_ms = min (saturating_mul base_ms factor) max_ms
        in Some (from_millis delay_ms))"

record task_execution_policy =
  lease_duration :: duration
  retry :: retry_policy

definition failure_is_terminal :: "task_execution_policy \<Rightarrow> u32 \<Rightarrow> bool" where
  "failure_is_terminal pol attempt = (retry_delay (retry pol) attempt = None)"

record scheduler_config =
  config_lease_duration :: duration
  config_retry :: retry_policy

definition execution_policy :: "scheduler_config \<Rightarrow> task_execution_policy" where
  "execution_policy cfg =
     \<lparr>lease_duration = config_lease_duration cfg, retry = config_retry cfg\<rparr>"

definition default_scheduler_config :: scheduler_config where
  "default_scheduler_config =
     \<lparr>config_lease_duration = from_secs 60, config_retry = RetryNone\<rparr>"

section \<open>Execution graphs and views\<close>

record 'p new_task =
  new_priority :: priority
  new_payload :: 'p

record ('p, 'id) execution_node =
  node_id :: 'id
  node_task :: "'p new_task"
  node_dependencies :: "'id list"
  node_policy :: task_execution_policy

record ('p, 'id) task_lease =
  lease_id :: 'id
  lease_payload :: 'p
  lease_priority :: priority
  lease_attempt :: u32
  lease_token :: string
  lease_worker :: string
  lease_policy :: task_execution_policy

datatype attach_outcome = Attached | AlreadyAttached

datatype detach_mode = CancelMode | RemoveMode

record 'id detach_outcome =
  detached :: bool
  detach_mode_of :: detach_mode
  retired :: "'id list"
  retained :: "'id list"

definition not_attached :: "detach_mode \<Rightarrow> 'id detach_outcome" where
  "not_attached mode = \<lparr>detached = False, detach_mode_of = mode, retired = [], retained = []\<rparr>"

record 'id projection_task_view =
  pv_id :: 'id
  pv_state :: task_state_kind
  pv_owner_count :: nat

record 'id projection_view =
  view_owner :: root_owner
  view_tasks :: "'id projection_task_view list"

section \<open>Properties of the retry policy\<close>

lemma unat_two_power:
  assumes "n < 64"
  shows "unat (2 ^ n :: u64) = 2 ^ n"
proof -
  have "unat (push_bit n 1 :: u64) = take_bit 64 (push_bit n 1)"
    by (subst unsigned_push_bit_eq) simp
  with assms show ?thesis by (simp add: push_bit_eq_mult)
qed

lemma min_shift_saturation:
  fixes base cap :: nat
  assumes "cap < 2 ^ 64" and "64 \<le> e"
  shows "min (min (base * (2 ^ 64 - 1)) (2 ^ 64 - 1)) cap = min (base * 2 ^ e) cap"
proof (cases "base = 0")
  case False
  have "(2::nat) ^ 64 \<le> 2 ^ e" using assms(2) by (rule power_increasing) simp
  also have "\<dots> \<le> base * 2 ^ e" using False by simp
  finally have "cap \<le> base * 2 ^ e" using assms(1) by linarith
  moreover have "cap \<le> base * (2 ^ 64 - 1)"
  proof -
    have "cap \<le> 2 ^ 64 - 1" using assms(1) by linarith
    also have "\<dots> \<le> base * (2 ^ 64 - 1)" using False by simp
    finally show ?thesis .
  qed
  ultimately show ?thesis using assms(1) by simp
qed simp

text \<open>
  the exponential back-off never deviates from the textbook value. Whenever the policy
  grants another attempt, the delay in milliseconds is exactly
  \<open>min (base * 2 ^ (attempt - 1)) max\<close> over the unbounded naturals (with both durations
  capped at the largest \<open>u64\<close>), so neither the checked shift nor the saturating product of
  the implementation is ever visible; and an attempt is granted exactly below the limit.
\<close>

lemma exponential_retry_delay_exact:
  "retry_delay (Exponential max_attempts base_delay max_delay) attempt =
     (if max_attempts \<le> attempt then None
      else Some (1000000 *
        min (min (as_millis base_delay) (2 ^ 64 - 1) * 2 ^ (unat attempt - 1))
            (min (as_millis max_delay) (2 ^ 64 - 1))))"
proof (cases "max_attempts \<le> attempt")
  case False
  define e where "e = saturating_sub attempt 1"
  have e: "unat e = unat attempt - 1"
    by (simp add: e_def sat_simps)
  define b where "b = millis_u64 base_delay"
  define m where "m = millis_u64 max_delay"
  have m: "unat m < 2 ^ 64" using unat_lt2p [of m] by simp
  have "unat (min (saturating_mul b (case checked_shl_one e of Some f \<Rightarrow> f | None \<Rightarrow> u64_max)) m)
      = min (unat b * 2 ^ unat e) (unat m)"
  proof (cases "unat e < 64")
    case True
    then have "unat (min (saturating_mul b (push_bit (unat e) 1)) m)
        = min (min (unat b * 2 ^ unat e) (2 ^ 64 - 1)) (unat m)"
      by (simp add: min_def word_le_nat_alt sat_simps push_bit_eq_mult unat_two_power)
    with True m show ?thesis by (simp add: checked_shl_one_def)
  next
    case False
    then have "unat (min (saturating_mul b u64_max) m)
        = min (min (unat b * (2 ^ 64 - 1)) (2 ^ 64 - 1)) (unat m)"
      by (simp add: min_def word_le_nat_alt sat_simps u64_max_def)
    also have "\<dots> = min (unat b * 2 ^ unat e) (unat m)"
      using m False by (intro min_shift_saturation) auto
    finally show ?thesis using False by (simp add: checked_shl_one_def)
  qed
  with False show ?thesis
    by (simp add: Let_def from_millis_def e_def [symmetric] b_def [symmetric] m_def [symmetric] e)
       (simp add: b_def m_def sat_simps)
qed simp

lemma retry_delay_None_iff:
  "retry_delay pol attempt = None \<longleftrightarrow>
     (case pol of RetryNone \<Rightarrow> True
      | Fixed n _ \<Rightarrow> n \<le> attempt
      | Exponential n _ _ \<Rightarrow> n \<le> attempt)"
  by (cases pol) (auto simp: Let_def)

lemma retry_delay_antimono:
  "retry_delay pol a = None \<Longrightarrow> a \<le> b \<Longrightarrow> retry_delay pol b = None"
  by (cases pol) (auto simp: Let_def split: if_splits)

end
