(* ===== verification/Exec_Graph.thy ===== *)
theory Exec_Graph
  imports Queue_Types
begin

text \<open>
  Validation and ordering of execution graphs (\<open>crates/queue/src/store.rs\<close>):
  \<open>normalize_and_validate_graph\<close>, the depth-first cycle check \<open>validate_graph_is_acyclic\<close>,
  the depth-first topological order \<open>graph_topological_indices\<close>, and the set comparison
  \<open>graph_task_sets_match\<close>.

  The two recursive closures of the source (\<open>visit\<close> and \<open>append\<close>) thread their mutable sets
  through the recursion. They are modelled with a fuel argument that bounds the recursion
  depth; \<open>None\<close> stands for fuel running out or for an index out of range (a Rust panic). The
  depth is at most the number of nodes, because every nested call adds a new node to the
  \<open>visiting\<close> (or \<open>visited\<close>) set; the lemmas \<open>visit_spec\<close> and \<open>append_node_spec\<close> show that
  \<open>Suc (length nodes)\<close> is always enough, so the callers never see \<open>None\<close>.
\<close>

section \<open>Errors of the task store\<close>

datatype store_error =
    Backend string
  | CorruptData string
  | InvalidGraph string
  | Conflict string

type_synonym 'a store_result = "(store_error, 'a) outcome"

section \<open>Cycle check\<close>

type_synonym ('p, 'id) nodes = "('p, 'id) execution_node list"

definition graph_indices :: "('p, 'id) nodes \<Rightarrow> 'id \<rightharpoonup> nat" where
  "graph_indices nodes = map_of (rev (zip (map node_id nodes) [0..<length nodes]))"

fun visit_deps ::
  "(nat \<Rightarrow> 'id set \<Rightarrow> 'id set \<Rightarrow> (bool \<times> 'id set \<times> 'id set) option) \<Rightarrow> ('id \<rightharpoonup> nat) \<Rightarrow>
   'id list \<Rightarrow> 'id set \<Rightarrow> 'id set \<Rightarrow> (bool \<times> 'id set \<times> 'id set) option" where
  "visit_deps rec indices [] visiting visited = Some (True, visiting, visited)"
| "visit_deps rec indices (dependency # deps) visiting visited =
     (case indices dependency of
        None \<Rightarrow> Some (False, visiting, visited)
      | Some dependency_index \<Rightarrow>
          (case rec dependency_index visiting visited of
             None \<Rightarrow> None
           | Some (ok, visiting', visited') \<Rightarrow>
               if ok then visit_deps rec indices deps visiting' visited'
               else Some (False, visiting', visited')))"

primrec visit ::
  "nat \<Rightarrow> ('p, 'id) nodes \<Rightarrow> ('id \<rightharpoonup> nat) \<Rightarrow> nat \<Rightarrow> 'id set \<Rightarrow> 'id set \<Rightarrow>
   (bool \<times> 'id set \<times> 'id set) option" where
  "visit 0 nodes indices index visiting visited = None"
| "visit (Suc fuel) nodes indices index visiting visited =
     (if length nodes \<le> index then None
      else
        let tid = node_id (nodes ! index) in
        if tid \<in> visited then Some (True, visiting, visited)
        else if tid \<in> visiting then Some (False, visiting, visited)
        else
          (case visit_deps (visit fuel nodes indices) indices (node_dependencies (nodes ! index))
                  (insert tid visiting) visited of
             None \<Rightarrow> None
           | Some (ok, visiting', visited') \<Rightarrow>
               if ok then Some (True, visiting' - {tid}, insert tid visited')
               else Some (False, visiting', visited')))"

fun visit_all ::
  "nat \<Rightarrow> ('p, 'id) nodes \<Rightarrow> ('id \<rightharpoonup> nat) \<Rightarrow> nat list \<Rightarrow> 'id set \<Rightarrow> 'id set \<Rightarrow> bool option" where
  "visit_all fuel nodes indices [] visiting visited = Some True"
| "visit_all fuel nodes indices (index # rest) visiting visited =
     (case visit fuel nodes indices index visiting visited of
        None \<Rightarrow> None
      | Some (ok, visiting', visited') \<Rightarrow>
          if ok then visit_all fuel nodes indices rest visiting' visited' else Some False)"

definition validate_graph_is_acyclic :: "('p, 'id) nodes \<Rightarrow> unit store_result" where
  "validate_graph_is_acyclic nodes =
     (case visit_all (Suc (length nodes)) nodes (graph_indices nodes) [0..<length nodes] {} {} of
        None \<Rightarrow> Panic ''visit''
      | Some ok \<Rightarrow>
          if ok then Ok ()
          else Err (InvalidGraph ''an execution graph must not contain dependency cycles''))"

section \<open>Normalisation and validation\<close>

definition normalize_node :: "('p, 'id) execution_node \<Rightarrow> ('p, 'id) execution_node" where
  "normalize_node node = node\<lparr>node_dependencies := dedup_seen {} (node_dependencies node)\<rparr>"

text \<open>The nodes are mutated in place; the model returns the normalised list.\<close>

definition normalize_and_validate_graph ::
  "root_owner \<Rightarrow> ('p, 'id) nodes \<Rightarrow> ('p, 'id) nodes store_result" where
  "normalize_and_validate_graph owner nodes =
     (if trim_is_empty (owner_task_id owner) then
        Err (InvalidGraph ''root owner task id must not be empty'')
      else if incarnation_id owner = 0 then
        Err (InvalidGraph ''root owner incarnation must not be nil'')
      else if nodes = [] then
        Err (InvalidGraph ''an execution graph must contain at least one task'')
      else if \<not> distinct (map node_id nodes) then
        Err (InvalidGraph ''an execution graph contains duplicate task ids'')
      else
        let nodes' = map normalize_node nodes in
        if list_ex (\<lambda>node. list_ex (\<lambda>d. d \<notin> set (map node_id nodes)) (node_dependencies node)) nodes' then
          Err (InvalidGraph ''every dependency must be part of the attached execution graph'')
        else bind_outcome (validate_graph_is_acyclic nodes') (\<lambda>_. Ok nodes'))"

definition graph_task_sets_match :: "'id list \<Rightarrow> 'id list \<Rightarrow> bool" where
  "graph_task_sets_match left right = (length left = length right \<and> set left = set right)"

section \<open>Topological order\<close>

fun append_deps ::
  "(nat \<Rightarrow> 'id set \<Rightarrow> nat list \<Rightarrow> ('id set \<times> nat list) option) \<Rightarrow> ('id \<rightharpoonup> nat) \<Rightarrow> 'id list \<Rightarrow>
   'id set \<Rightarrow> nat list \<Rightarrow> ('id set \<times> nat list) option" where
  "append_deps rec indices [] visited ordered = Some (visited, ordered)"
| "append_deps rec indices (dependency # deps) visited ordered =
     (case indices dependency of
        None \<Rightarrow> None
      | Some dependency_index \<Rightarrow>
          (case rec dependency_index visited ordered of
             None \<Rightarrow> None
           | Some (visited', ordered') \<Rightarrow> append_deps rec indices deps visited' ordered'))"

primrec append_node ::
  "nat \<Rightarrow> ('p, 'id) nodes \<Rightarrow> ('id \<rightharpoonup> nat) \<Rightarrow> nat \<Rightarrow> 'id set \<Rightarrow> nat list \<Rightarrow>
   ('id set \<times> nat list) option" where
  "append_node 0 nodes indices index visited ordered = None"
| "append_node (Suc fuel) nodes indices index visited ordered =
     (if length nodes \<le> index then None
      else
        let tid = node_id (nodes ! index) in
        if tid \<in> visited then Some (visited, ordered)
        else
          (case append_deps (append_node fuel nodes indices) indices
                  (node_dependencies (nodes ! index)) (insert tid visited) ordered of
             None \<Rightarrow> None
           | Some (visited', ordered') \<Rightarrow> Some (visited', ordered' @ [index])))"

fun append_all ::
  "nat \<Rightarrow> ('p, 'id) nodes \<Rightarrow> ('id \<rightharpoonup> nat) \<Rightarrow> nat list \<Rightarrow> 'id set \<Rightarrow> nat list \<Rightarrow> nat list option" where
  "append_all fuel nodes indices [] visited ordered = Some ordered"
| "append_all fuel nodes indices (index # rest) visited ordered =
     (case append_node fuel nodes indices index visited ordered of
        None \<Rightarrow> None
      | Some (visited', ordered') \<Rightarrow> append_all fuel nodes indices rest visited' ordered')"

definition graph_topological_indices :: "('p, 'id) nodes \<Rightarrow> nat list option" where
  "graph_topological_indices nodes =
     append_all (Suc (length nodes)) nodes (graph_indices nodes) [0..<length nodes] {} []"

section \<open>Graphs as relations\<close>

text \<open>What the two searches are checked against: the dependency relation of the graph.\<close>

definition dep_rel :: "('p, 'id) nodes \<Rightarrow> ('id \<times> 'id) set" where
  "dep_rel nodes = {(a, b). \<exists>n \<in> set nodes. node_id n = a \<and> b \<in> set (node_dependencies n)}"

definition graph_ids :: "('p, 'id) nodes \<Rightarrow> 'id set" where
  "graph_ids nodes = node_id ` set nodes"

definition graph_wf :: "('p, 'id) nodes \<Rightarrow> bool" where
  "graph_wf nodes =
     (distinct (map node_id nodes) \<and>
      (\<forall>n \<in> set nodes. distinct (node_dependencies n) \<and>
                       set (node_dependencies n) \<subseteq> graph_ids nodes))"

text \<open>Every element comes after all its dependencies (those in \<open>seen\<close> count as done).\<close>

fun deps_before :: "('id \<Rightarrow> 'id set) \<Rightarrow> 'id set \<Rightarrow> 'id list \<Rightarrow> bool" where
  "deps_before D seen [] = True"
| "deps_before D seen (x # xs) = (D x \<subseteq> seen \<and> deps_before D (insert x seen) xs)"

lemma deps_before_append:
  "deps_before D seen (xs @ ys) \<longleftrightarrow> deps_before D seen xs \<and> deps_before D (seen \<union> set xs) ys"
  by (induction xs arbitrary: seen) auto

lemma deps_before_mono: "deps_before D seen xs \<Longrightarrow> seen \<subseteq> seen' \<Longrightarrow> deps_before D seen' xs"
  by (induction xs arbitrary: seen seen') (auto, blast+)

lemma graph_indices_Some_iff:
  assumes "distinct (map node_id nodes)"
  shows "graph_indices nodes d = Some j \<longleftrightarrow> j < length nodes \<and> node_id (nodes ! j) = d"
proof -
  have "distinct (map fst (rev (zip (map node_id nodes) [0..<length nodes])))"
    using assms by (simp flip: rev_map)
  then have "graph_indices nodes d = Some j \<longleftrightarrow>
      (d, j) \<in> set (zip (map node_id nodes) [0..<length nodes])"
    by (simp add: graph_indices_def map_of_eq_Some_iff)
  also have "\<dots> \<longleftrightarrow> j < length nodes \<and> node_id (nodes ! j) = d"
    by (auto simp: set_zip intro!: exI [of _ j])
  finally show ?thesis .
qed

lemma finite_graph_ids [simp]: "finite (graph_ids nodes)"
  by (simp add: graph_ids_def)

lemma nth_in_graph_ids [simp]: "i < length nodes \<Longrightarrow> node_id (nodes ! i) \<in> graph_ids nodes"
  by (simp add: graph_ids_def)

lemma graph_indices_dom:
  assumes "graph_wf nodes" "d \<in> graph_ids nodes"
  obtains j where "graph_indices nodes d = Some j" "j < length nodes" "node_id (nodes ! j) = d"
proof -
  from assms obtain j where "j < length nodes" "node_id (nodes ! j) = d"
    by (auto simp: graph_ids_def in_set_conv_nth)
  then show ?thesis using that assms by (simp add: graph_wf_def graph_indices_Some_iff)
qed

lemma dep_rel_nth:
  "i < length nodes \<Longrightarrow> d \<in> set (node_dependencies (nodes ! i)) \<Longrightarrow>
   (node_id (nodes ! i), d) \<in> dep_rel nodes"
  by (auto simp: dep_rel_def)

lemma dep_rel_nth_iff:
  assumes "graph_wf nodes" "i < length nodes"
  shows "(node_id (nodes ! i), d) \<in> dep_rel nodes \<longleftrightarrow> d \<in> set (node_dependencies (nodes ! i))"
proof
  assume "(node_id (nodes ! i), d) \<in> dep_rel nodes"
  then obtain n where "n \<in> set nodes" "node_id n = node_id (nodes ! i)"
    "d \<in> set (node_dependencies n)"
    by (auto simp: dep_rel_def)
  then obtain j where "j < length nodes" "node_id (nodes ! j) = node_id (nodes ! i)"
    "d \<in> set (node_dependencies (nodes ! j))"
    by (metis in_set_conv_nth)
  moreover from this have "j = i"
    using assms by (auto simp: graph_wf_def distinct_conv_nth)
  ultimately show "d \<in> set (node_dependencies (nodes ! i))" by simp
qed (rule dep_rel_nth [OF assms(2)])

lemma card_Diff_insert_less:
  "finite A \<Longrightarrow> x \<in> A \<Longrightarrow> x \<notin> V \<Longrightarrow> card (A - insert x V) < card (A - V)"
  by (rule psubset_card_mono) auto

section \<open>The cycle check is exact\<close>

abbreviation (input) dep_ancestors :: "('p, 'id) nodes \<Rightarrow> 'id set" where
  "dep_ancestors nodes \<equiv> Wellfounded.acc ((dep_rel nodes)\<inverse>)"

definition visit_pre :: "('p, 'id) nodes \<Rightarrow> 'id \<Rightarrow> 'id set \<Rightarrow> 'id set \<Rightarrow> bool" where
  "visit_pre nodes tid visiting visited =
     (visiting \<subseteq> graph_ids nodes \<and> visited \<subseteq> dep_ancestors nodes \<and>
      (\<forall>v \<in> visiting. (v, tid) \<in> (dep_rel nodes)\<^sup>+))"

definition visit_post ::
  "('p, 'id) nodes \<Rightarrow> 'id set \<Rightarrow> 'id set \<Rightarrow> 'id set \<Rightarrow> bool \<times> 'id set \<times> 'id set \<Rightarrow> bool" where
  "visit_post nodes goals visiting visited r =
     (case r of (ok, visiting', visited') \<Rightarrow>
        if ok then visiting' = visiting \<and> visited \<subseteq> visited' \<and> goals \<subseteq> visited' \<and>
                   visited' \<subseteq> dep_ancestors nodes
        else \<not> acyclic (dep_rel nodes))"

lemma visit_deps_spec:
  assumes rec: "\<And>j vd. j < length nodes \<Longrightarrow> node_id (nodes ! j) \<in> set deps \<Longrightarrow>
      vd \<subseteq> dep_ancestors nodes \<Longrightarrow>
      \<exists>r. rec j visiting vd = Some r \<and> visit_post nodes {node_id (nodes ! j)} visiting vd r"
    and wf: "graph_wf nodes" and deps: "set deps \<subseteq> graph_ids nodes"
    and vd: "visited \<subseteq> dep_ancestors nodes"
  shows "\<exists>r. visit_deps rec (graph_indices nodes) deps visiting visited = Some r \<and>
             visit_post nodes (set deps) visiting visited r"
  using rec deps vd
proof (induction deps arbitrary: visited)
  case Nil
  then show ?case by (simp add: visit_post_def)
next
  case (Cons d deps)
  from Cons.prems(2) have "d \<in> graph_ids nodes" by simp
  with wf obtain j where j: "graph_indices nodes d = Some j" "j < length nodes" "node_id (nodes ! j) = d"
    by (rule graph_indices_dom)
  then obtain ok vg' vd' where r: "rec j visiting visited = Some (ok, vg', vd')"
    and post: "visit_post nodes {d} visiting visited (ok, vg', vd')"
    using Cons.prems(1) [of j visited] Cons.prems(3) by auto
  show ?case
  proof (cases ok)
    case False
    then show ?thesis using j r post by (simp add: visit_post_def)
  next
    case True
    then have same: "vg' = visiting" and sub: "visited \<subseteq> vd'" "d \<in> vd'" "vd' \<subseteq> dep_ancestors nodes"
      using post by (auto simp: visit_post_def)
    have "\<exists>r. visit_deps rec (graph_indices nodes) deps visiting vd' = Some r \<and>
              visit_post nodes (set deps) visiting vd' r"
      using Cons.prems sub(3) by (intro Cons.IH) auto
    then obtain r2 where r2: "visit_deps rec (graph_indices nodes) deps visiting vd' = Some r2"
      and post2: "visit_post nodes (set deps) visiting vd' r2" by blast
    have "visit_post nodes (set (d # deps)) visiting visited r2"
      using post2 sub by (auto simp: visit_post_def split: prod.splits if_splits)
    then show ?thesis using j r r2 True same by simp
  qed
qed

lemma visit_spec:
  assumes "graph_wf nodes" "index < length nodes"
    and "visit_pre nodes (node_id (nodes ! index)) visiting visited"
    and "card (graph_ids nodes - visiting) < fuel"
  shows "\<exists>r. visit fuel nodes (graph_indices nodes) index visiting visited = Some r \<and>
             visit_post nodes {node_id (nodes ! index)} visiting visited r"
  using assms
proof (induction fuel arbitrary: index visiting visited)
  case (Suc fuel)
  let ?t = "node_id (nodes ! index)"
  let ?deps = "node_dependencies (nodes ! index)"
  have t: "?t \<in> graph_ids nodes" using Suc.prems(2) by simp
  have vd: "visited \<subseteq> dep_ancestors nodes" using Suc.prems(3) by (simp add: visit_pre_def)
  consider "?t \<in> visited" | "?t \<notin> visited" "?t \<in> visiting" | "?t \<notin> visited" "?t \<notin> visiting" by blast
  then show ?case
  proof cases
    case 1
    with Suc.prems show ?thesis by (simp add: visit_post_def visit_pre_def)
  next
    case 2
    then have "(?t, ?t) \<in> (dep_rel nodes)\<^sup>+" using Suc.prems(3) by (simp add: visit_pre_def)
    then have "\<not> acyclic (dep_rel nodes)" by (auto simp: acyclic_def)
    with 2 Suc.prems(2) show ?thesis by (simp add: visit_post_def)
  next
    case 3
    have deps: "set ?deps \<subseteq> graph_ids nodes" using Suc.prems(1,2) by (simp add: graph_wf_def)
    have fuel: "card (graph_ids nodes - insert ?t visiting) < fuel"
      using card_Diff_insert_less [OF finite_graph_ids t 3(2)] Suc.prems(4) by linarith
    let ?rec = "visit fuel nodes (graph_indices nodes)"
    have rec: "\<exists>r. visit fuel nodes (graph_indices nodes) j (insert ?t visiting) vd = Some r \<and>
        visit_post nodes {node_id (nodes ! j)} (insert ?t visiting) vd r"
      if "j < length nodes" "node_id (nodes ! j) \<in> set ?deps" "vd \<subseteq> dep_ancestors nodes" for j vd
    proof -
      have "(?t, node_id (nodes ! j)) \<in> dep_rel nodes"
        using Suc.prems(2) that(2) by (rule dep_rel_nth)
      then have "\<forall>v \<in> insert ?t visiting. (v, node_id (nodes ! j)) \<in> (dep_rel nodes)\<^sup>+"
        using Suc.prems(3) unfolding visit_pre_def
        by (intro ballI) (elim insertE; simp add: r_into_trancl trancl_into_trancl [where b = ?t])
      then have "visit_pre nodes (node_id (nodes ! j)) (insert ?t visiting) vd"
        using Suc.prems(3) t that(3) by (simp add: visit_pre_def)
      with Suc.prems(1) that(1) show ?thesis using fuel by (rule Suc.IH)
    qed
    have "\<exists>r. visit_deps ?rec (graph_indices nodes) ?deps (insert ?t visiting) visited = Some r \<and>
        visit_post nodes (set ?deps) (insert ?t visiting) visited r"
      by (rule visit_deps_spec [OF _ Suc.prems(1) deps vd]) (rule rec)
    then obtain ok vg' vd' where
      r: "visit_deps ?rec (graph_indices nodes) ?deps (insert ?t visiting) visited = Some (ok, vg', vd')"
      and post: "visit_post nodes (set ?deps) (insert ?t visiting) visited (ok, vg', vd')"
      by (auto simp del: visit_deps.simps)
    have "?t \<in> dep_ancestors nodes" if ok
    proof (rule acc.accI)
      fix y
      assume "(y, ?t) \<in> (dep_rel nodes)\<inverse>"
      then have "y \<in> set ?deps" using dep_rel_nth_iff [OF Suc.prems(1,2)] by simp
      moreover have "set ?deps \<subseteq> vd'" "vd' \<subseteq> dep_ancestors nodes"
        using post that by (simp_all add: visit_post_def)
      ultimately show "y \<in> dep_ancestors nodes" by blast
    qed
    then show ?thesis
      using r post 3 Suc.prems(2) unfolding visit_post_def by (cases ok) (simp_all, blast)
  qed
qed simp

lemma visit_all_spec:
  assumes "graph_wf nodes" "set is \<subseteq> {..<length nodes}" "visited \<subseteq> dep_ancestors nodes"
    and "length nodes < fuel"
  shows "\<exists>ok. visit_all fuel nodes (graph_indices nodes) is {} visited = Some ok \<and>
     (if ok then (\<lambda>i. node_id (nodes ! i)) ` set is \<subseteq> dep_ancestors nodes
      else \<not> acyclic (dep_rel nodes))"
  using assms(2,3)
proof (induction "is" arbitrary: visited)
  case (Cons i "is")
  have "card (graph_ids nodes - {}) < fuel"
    using assms(4) card_image_le [of "set nodes" node_id] card_length [of nodes]
    by (simp add: graph_ids_def)
  moreover have "visit_pre nodes (node_id (nodes ! i)) {} visited"
    using Cons.prems by (simp add: visit_pre_def)
  ultimately obtain ok vg' vd' where
    r: "visit fuel nodes (graph_indices nodes) i {} visited = Some (ok, vg', vd')"
    and post: "visit_post nodes {node_id (nodes ! i)} {} visited (ok, vg', vd')"
    using visit_spec [OF assms(1), of i "{}" visited fuel] Cons.prems(1) by auto
  show ?case
  proof (cases ok)
    case True
    then have "vd' \<subseteq> dep_ancestors nodes" "node_id (nodes ! i) \<in> vd'" "vg' = {}"
      using post by (auto simp: visit_post_def)
    moreover from this(1) obtain ok' where
      "visit_all fuel nodes (graph_indices nodes) is {} vd' = Some ok'"
      "if ok' then (\<lambda>i. node_id (nodes ! i)) ` set is \<subseteq> dep_ancestors nodes
       else \<not> acyclic (dep_rel nodes)"
      using Cons.IH [of vd'] Cons.prems(1) by (meson insert_subset list.set(2) order_trans set_subset_Cons)
    ultimately show ?thesis using True r by (auto split: if_splits)
  next
    case False
    then show ?thesis using r post by (auto simp: visit_post_def)
  qed
qed auto

lemma acyclic_if_all_ancestors:
  assumes "graph_ids nodes \<subseteq> dep_ancestors nodes"
  shows "acyclic (dep_rel nodes)"
proof -
  have "x \<in> dep_ancestors nodes" for x
  proof (cases "x \<in> graph_ids nodes")
    case False
    then have "\<And>y. (y, x) \<notin> (dep_rel nodes)\<inverse>" by (auto simp: dep_rel_def graph_ids_def)
    then show ?thesis by (blast intro: acc.accI)
  qed (use assms in blast)
  then have "wf ((dep_rel nodes)\<inverse>)" by (auto intro: acc_wfI)
  then show ?thesis by (auto dest: wf_acyclic)
qed

lemma visit_all_decides:
  assumes "graph_wf nodes" "length nodes < fuel"
  shows "visit_all fuel nodes (graph_indices nodes) [0..<length nodes] {} {} = Some (acyclic (dep_rel nodes))"
proof -
  have "set [0..<length nodes] \<subseteq> {..<length nodes}" by auto
  then obtain ok where
    r: "visit_all fuel nodes (graph_indices nodes) [0..<length nodes] {} {} = Some ok"
    and post: "if ok then (\<lambda>i. node_id (nodes ! i)) ` set [0..<length nodes] \<subseteq> dep_ancestors nodes
               else \<not> acyclic (dep_rel nodes)"
    using visit_all_spec [OF assms(1), of "[0..<length nodes]" "{}" fuel] assms(2) by auto
  have "(\<lambda>i. node_id (nodes ! i)) ` set [0..<length nodes] = graph_ids nodes"
    by (force simp: graph_ids_def set_conv_nth)
  with post have "ok \<longleftrightarrow> acyclic (dep_rel nodes)"
    using acyclic_if_all_ancestors [of nodes] by (auto split: if_splits)
  with r show ?thesis by simp
qed

lemma validate_graph_is_acyclic_spec:
  assumes "graph_wf nodes"
  shows "validate_graph_is_acyclic nodes =
    (if acyclic (dep_rel nodes) then Ok ()
     else Err (InvalidGraph ''an execution graph must not contain dependency cycles''))"
  using visit_all_decides [OF assms, of "Suc (length nodes)"] by (simp add: validate_graph_is_acyclic_def)

section \<open>The topological order\<close>

text \<open>
  The state of \<open>append_node\<close>: the visited ids are those already ordered and those on the
  recursion stack, and the ordered prefix lists dependencies first.
\<close>

abbreviation (input) idx_id :: "('p, 'id) nodes \<Rightarrow> nat \<Rightarrow> 'id" where
  "idx_id nodes \<equiv> \<lambda>i. node_id (nodes ! i)"

definition append_inv :: "('p, 'id) nodes \<Rightarrow> 'id set \<Rightarrow> 'id set \<Rightarrow> nat list \<Rightarrow> bool" where
  "append_inv nodes stack visited ordered =
     (visited = stack \<union> idx_id nodes ` set ordered \<and> stack \<inter> idx_id nodes ` set ordered = {} \<and>
      stack \<subseteq> graph_ids nodes \<and> set ordered \<subseteq> {..<length nodes} \<and>
      distinct (map (idx_id nodes) ordered) \<and>
      deps_before (\<lambda>t. {d. (t, d) \<in> dep_rel nodes}) {} (map (idx_id nodes) ordered))"

definition append_post ::
  "('p, 'id) nodes \<Rightarrow> 'id set \<Rightarrow> 'id set \<Rightarrow> nat list \<Rightarrow> 'id set \<Rightarrow> 'id set \<times> nat list \<Rightarrow> bool" where
  "append_post nodes stack visited ordered goals r =
     (append_inv nodes stack (fst r) (snd r) \<and> visited \<subseteq> fst r \<and>
      set ordered \<subseteq> set (snd r) \<and> goals \<subseteq> idx_id nodes ` set (snd r))"

lemma append_deps_spec:
  assumes rec: "\<And>j v ord. j < length nodes \<Longrightarrow> node_id (nodes ! j) \<in> set deps \<Longrightarrow>
      append_inv nodes stack v ord \<Longrightarrow> V \<subseteq> v \<Longrightarrow>
      \<exists>r. rec j v ord = Some r \<and> append_post nodes stack v ord {node_id (nodes ! j)} r"
    and wf: "graph_wf nodes" and deps: "set deps \<subseteq> graph_ids nodes"
    and inv: "append_inv nodes stack visited ordered" and V: "V \<subseteq> visited"
  shows "\<exists>r. append_deps rec (graph_indices nodes) deps visited ordered = Some r \<and>
             append_post nodes stack visited ordered (set deps) r"
  using rec deps inv V
proof (induction deps arbitrary: visited ordered)
  case Nil
  then show ?case by (simp add: append_post_def)
next
  case (Cons d deps)
  from Cons.prems(2) have "d \<in> graph_ids nodes" by simp
  with wf obtain j where j: "graph_indices nodes d = Some j" "j < length nodes" "node_id (nodes ! j) = d"
    by (rule graph_indices_dom)
  then obtain v1 o1 where r1: "rec j visited ordered = Some (v1, o1)"
    and post1: "append_post nodes stack visited ordered {d} (v1, o1)"
    using Cons.prems(1) [of j visited ordered] Cons.prems(3,4) by auto
  then have "append_inv nodes stack v1 o1" "V \<subseteq> v1"
    using Cons.prems(4) by (auto simp: append_post_def)
  then have "\<exists>r. append_deps rec (graph_indices nodes) deps v1 o1 = Some r \<and>
                 append_post nodes stack v1 o1 (set deps) r"
    using Cons.prems(1,2) by (intro Cons.IH) auto
  then obtain r2 where r2: "append_deps rec (graph_indices nodes) deps v1 o1 = Some r2"
    and post2: "append_post nodes stack v1 o1 (set deps) r2" by blast
  have "append_post nodes stack visited ordered (set (d # deps)) r2"
    using post1 post2 by (auto simp: append_post_def)
  then show ?case using j r1 r2 by auto
qed

lemma append_inv_finish:
  assumes "append_inv nodes (insert (node_id (nodes ! index)) stack) v ord"
    and "index < length nodes" "node_id (nodes ! index) \<notin> stack" "graph_wf nodes"
    and "set (node_dependencies (nodes ! index)) \<subseteq> idx_id nodes ` set ord"
  shows "append_inv nodes stack v (ord @ [index])"
  using assms by (auto simp: append_inv_def deps_before_append dep_rel_nth_iff)

lemma append_node_spec:
  assumes "graph_wf nodes" "acyclic (dep_rel nodes)" "index < length nodes"
    and "append_inv nodes stack visited ordered"
    and "\<forall>s \<in> stack. (s, node_id (nodes ! index)) \<in> (dep_rel nodes)\<^sup>+"
    and "card (graph_ids nodes - visited) < fuel"
  shows "\<exists>r. append_node fuel nodes (graph_indices nodes) index visited ordered = Some r \<and>
             append_post nodes stack visited ordered {node_id (nodes ! index)} r"
  using assms(3-6)
proof (induction fuel arbitrary: index stack visited ordered)
  case (Suc fuel)
  let ?t = "node_id (nodes ! index)"
  let ?deps = "node_dependencies (nodes ! index)"
  let ?rec = "append_node fuel nodes (graph_indices nodes)"
  have fresh: "?t \<notin> stack" using Suc.prems(3) assms(2) by (auto simp: acyclic_def)
  show ?case
  proof (cases "?t \<in> visited")
    case True
    then have "?t \<in> idx_id nodes ` set ordered"
      using fresh Suc.prems(2) by (simp add: append_inv_def)
    with True show ?thesis using Suc.prems(1,2) by (simp add: append_post_def)
  next
    case False
    have t: "?t \<in> graph_ids nodes" using Suc.prems(1) by simp
    have deps: "set ?deps \<subseteq> graph_ids nodes" using Suc.prems(1) assms(1) by (simp add: graph_wf_def)
    have inv: "append_inv nodes (insert ?t stack) (insert ?t visited) ordered"
      using Suc.prems(2) False t by (auto simp: append_inv_def)
    have rec: "\<exists>r. ?rec j v ord = Some r \<and> append_post nodes (insert ?t stack) v ord {node_id (nodes ! j)} r"
      if "j < length nodes" "node_id (nodes ! j) \<in> set ?deps"
        "append_inv nodes (insert ?t stack) v ord" "insert ?t visited \<subseteq> v" for j v ord
    proof -
      have "(?t, node_id (nodes ! j)) \<in> dep_rel nodes"
        using Suc.prems(1) that(2) by (rule dep_rel_nth)
      then have reach: "\<forall>s \<in> insert ?t stack. (s, node_id (nodes ! j)) \<in> (dep_rel nodes)\<^sup>+"
        using Suc.prems(3)
        by (intro ballI) (elim insertE; simp add: r_into_trancl trancl_into_trancl [where b = ?t])
      have "card (graph_ids nodes - v) \<le> card (graph_ids nodes - insert ?t visited)"
        using that(4) by (intro card_mono) auto
      then have "card (graph_ids nodes - v) < fuel"
        using card_Diff_insert_less [OF finite_graph_ids t False] Suc.prems(4) by linarith
      with that(1,3) reach show ?thesis by (intro Suc.IH)
    qed
    have "\<exists>r. append_deps ?rec (graph_indices nodes) ?deps (insert ?t visited) ordered = Some r \<and>
        append_post nodes (insert ?t stack) (insert ?t visited) ordered (set ?deps) r"
      by (rule append_deps_spec [OF _ assms(1) deps inv subset_refl]) (rule rec)
    then obtain v' o' where
      r: "append_deps ?rec (graph_indices nodes) ?deps (insert ?t visited) ordered = Some (v', o')"
      and post: "append_post nodes (insert ?t stack) (insert ?t visited) ordered (set ?deps) (v', o')"
      by (auto simp del: append_deps.simps)
    then have "append_inv nodes stack v' (o' @ [index])"
      using Suc.prems(1) fresh assms(1) by (intro append_inv_finish) (auto simp: append_post_def)
    then show ?thesis using r post False Suc.prems(1) by (auto simp: append_post_def)
  qed
qed simp

lemma append_all_spec:
  assumes "graph_wf nodes" "acyclic (dep_rel nodes)" "set is \<subseteq> {..<length nodes}"
    and "append_inv nodes {} visited ordered" "length nodes < fuel"
  shows "\<exists>ord. append_all fuel nodes (graph_indices nodes) is visited ordered = Some ord \<and>
     append_inv nodes {} (idx_id nodes ` set ord) ord \<and> set ordered \<subseteq> set ord \<and>
     idx_id nodes ` set is \<subseteq> idx_id nodes ` set ord"
  using assms(3,4)
proof (induction "is" arbitrary: visited ordered)
  case Nil
  then show ?case by (simp add: append_inv_def)
next
  case (Cons i "is")
  have "card (graph_ids nodes - visited) \<le> card (graph_ids nodes)" by (intro card_mono) auto
  also have "\<dots> \<le> length nodes"
    using card_image_le [of "set nodes" node_id] card_length [of nodes] by (simp add: graph_ids_def)
  finally have "card (graph_ids nodes - visited) < fuel" using assms(5) by linarith
  then obtain v1 o1 where
    r1: "append_node fuel nodes (graph_indices nodes) i visited ordered = Some (v1, o1)"
    and post1: "append_post nodes {} visited ordered {node_id (nodes ! i)} (v1, o1)"
    using append_node_spec [OF assms(1,2), of i "{}" visited ordered fuel] Cons.prems by auto
  have "\<exists>ord. append_all fuel nodes (graph_indices nodes) is v1 o1 = Some ord \<and>
     append_inv nodes {} (idx_id nodes ` set ord) ord \<and> set o1 \<subseteq> set ord \<and>
     idx_id nodes ` set is \<subseteq> idx_id nodes ` set ord"
    using Cons.prems(1) post1 by (intro Cons.IH) (auto simp: append_post_def)
  then obtain ord where "append_all fuel nodes (graph_indices nodes) is v1 o1 = Some ord"
    "append_inv nodes {} (idx_id nodes ` set ord) ord" and o1: "set o1 \<subseteq> set ord"
    "idx_id nodes ` set is \<subseteq> idx_id nodes ` set ord" by blast
  moreover have "set ordered \<subseteq> set ord" "node_id (nodes ! i) \<in> idx_id nodes ` set ord"
    using post1 o1(1) by (auto simp: append_post_def)
  ultimately show ?case using r1 by simp
qed

lemma graph_topological_indices_spec:
  assumes "graph_wf nodes" "acyclic (dep_rel nodes)"
  shows "\<exists>ord. graph_topological_indices nodes = Some ord \<and> distinct ord \<and>
     set ord = {..<length nodes} \<and>
     deps_before (\<lambda>t. {d. (t, d) \<in> dep_rel nodes}) {} (map (idx_id nodes) ord)"
proof -
  have start: "append_inv nodes {} {} []" by (simp add: append_inv_def)
  have sub: "set [0..<length nodes] \<subseteq> {..<length nodes}" by auto
  obtain ord where ord: "graph_topological_indices nodes = Some ord"
    and inv: "append_inv nodes {} (idx_id nodes ` set ord) ord"
    and all: "idx_id nodes ` set [0..<length nodes] \<subseteq> idx_id nodes ` set ord"
    using append_all_spec [OF assms sub start, of "Suc (length nodes)"]
    unfolding graph_topological_indices_def by blast
  have inj: "inj_on (idx_id nodes) {..<length nodes}"
    using assms(1) by (auto simp: graph_wf_def distinct_conv_nth inj_on_def)
  have "set ord \<subseteq> {..<length nodes}" using inv by (simp add: append_inv_def)
  moreover have "{..<length nodes} \<subseteq> set ord"
  proof
    fix i
    assume i: "i \<in> {..<length nodes}"
    then have "node_id (nodes ! i) \<in> idx_id nodes ` set ord" using all by auto
    then show "i \<in> set ord" using inj_on_image_mem_iff [OF inj i calculation] by simp
  qed
  ultimately have "set ord = {..<length nodes}" by blast
  then show ?thesis using ord inv by (auto simp: append_inv_def distinct_map)
qed

section \<open>What validation promises\<close>

lemma dep_rel_normalize [simp]: "dep_rel (map normalize_node nodes) = dep_rel nodes"
  by (auto simp: dep_rel_def normalize_node_def set_dedup_seen)

lemma graph_ids_normalize [simp]: "graph_ids (map normalize_node nodes) = graph_ids nodes"
  by (simp add: graph_ids_def normalize_node_def image_image)

lemma map_node_id_normalize [simp]: "map node_id (map normalize_node nodes) = map node_id nodes"
  by (simp add: normalize_node_def)

lemma graph_wf_normalize:
  "distinct (map node_id nodes) \<Longrightarrow>
   (\<Union>n \<in> set nodes. set (node_dependencies n)) \<subseteq> graph_ids nodes \<Longrightarrow>
   graph_wf (map normalize_node nodes)"
  unfolding graph_wf_def graph_ids_normalize map_node_id_normalize
  by (auto simp: normalize_node_def set_dedup_seen distinct_dedup_seen)

definition graph_accepted :: "root_owner \<Rightarrow> ('p, 'id) nodes \<Rightarrow> bool" where
  "graph_accepted owner nodes =
     (\<not> trim_is_empty (owner_task_id owner) \<and> incarnation_id owner \<noteq> 0 \<and> nodes \<noteq> [] \<and>
      distinct (map node_id nodes) \<and>
      (\<Union>n \<in> set nodes. set (node_dependencies n)) \<subseteq> graph_ids nodes \<and> acyclic (dep_rel nodes))"

lemma normalize_and_validate_graph_cases:
  obtains "graph_accepted owner nodes" "graph_wf (map normalize_node nodes)"
      "normalize_and_validate_graph owner nodes = Ok (map normalize_node nodes)"
  | msg where "\<not> graph_accepted owner nodes"
      "normalize_and_validate_graph owner nodes = Err (InvalidGraph msg)"
proof -
  have closed: "list_ex (\<lambda>node. list_ex (\<lambda>d. d \<notin> set (map node_id nodes)) (node_dependencies node))
      (map normalize_node nodes) \<longleftrightarrow>
    \<not> (\<Union>n \<in> set nodes. set (node_dependencies n)) \<subseteq> graph_ids nodes"
    by (auto simp: list_ex_iff normalize_node_def set_dedup_seen graph_ids_def)
  show thesis
  proof (cases "graph_accepted owner nodes")
    case True
    then have wf: "graph_wf (map normalize_node nodes)"
      by (intro graph_wf_normalize) (simp_all add: graph_accepted_def)
    with True have "normalize_and_validate_graph owner nodes = Ok (map normalize_node nodes)"
      unfolding normalize_and_validate_graph_def Let_def closed
      by (simp add: graph_accepted_def validate_graph_is_acyclic_spec)
    with True wf that(1) show thesis by blast
  next
    case False
    then have "\<exists>msg. normalize_and_validate_graph owner nodes = Err (InvalidGraph msg)"
      unfolding normalize_and_validate_graph_def Let_def closed graph_accepted_def
      using validate_graph_is_acyclic_spec [OF graph_wf_normalize, of nodes] by auto
    with False that(2) show thesis by blast
  qed
qed

text \<open>
  C19: \<open>normalize_and_validate_graph\<close> accepts a graph exactly when the owner is well formed, the
  graph is not empty, its ids are distinct, every dependency is a node of it, and the
  dependency relation has no cycle. It then returns the same nodes with repeated dependencies
  dropped. Otherwise it returns \<open>InvalidGraph\<close>, and it never panics.
\<close>

theorem normalize_and_validate_graph_correct:
  "\<exists>msg. normalize_and_validate_graph owner nodes =
     (if \<not> trim_is_empty (owner_task_id owner) \<and> incarnation_id owner \<noteq> 0 \<and> nodes \<noteq> [] \<and>
         distinct (map node_id nodes) \<and>
         (\<Union>n \<in> set nodes. set (node_dependencies n)) \<subseteq> node_id ` set nodes \<and>
         acyclic {(a, b). \<exists>n. n \<in> set nodes \<and> node_id n = a \<and> b \<in> set (node_dependencies n)}
      then Ok (map (\<lambda>n. n\<lparr>node_dependencies := dedup_seen {} (node_dependencies n)\<rparr>) nodes)
      else Err (InvalidGraph msg))"
proof -
  have rel: "{(a, b). \<exists>n. n \<in> set nodes \<and> node_id n = a \<and> b \<in> set (node_dependencies n)} = dep_rel nodes"
    by (auto simp: dep_rel_def)
  have norm: "map (\<lambda>n. n\<lparr>node_dependencies := dedup_seen {} (node_dependencies n)\<rparr>) nodes =
      map normalize_node nodes"
    by (simp add: normalize_node_def)
  show ?thesis
    unfolding rel norm
    by (rule normalize_and_validate_graph_cases [of owner nodes])
      (simp_all add: graph_accepted_def graph_ids_def)
qed

text \<open>
  C20: for a graph that validation accepted, \<open>graph_topological_indices\<close> returns (the recursion
  stays within the number of nodes) a list of all node indices without repetition in which
  every node comes after all the nodes it depends on.
\<close>

theorem graph_topological_indices_correct:
  assumes "normalize_and_validate_graph owner nodes0 = Ok nodes"
  shows "\<exists>ord. graph_topological_indices nodes = Some ord \<and> distinct ord \<and>
    set ord = {..<length nodes} \<and>
    deps_before (\<lambda>t. {d. (t, d) \<in> dep_rel nodes}) {} (map (\<lambda>i. node_id (nodes ! i)) ord)"
proof (rule normalize_and_validate_graph_cases [of owner nodes0])
  assume *: "graph_accepted owner nodes0" "graph_wf (map normalize_node nodes0)"
    "normalize_and_validate_graph owner nodes0 = Ok (map normalize_node nodes0)"
  then have "nodes = map normalize_node nodes0" using assms by simp
  with * show ?thesis by (intro graph_topological_indices_spec) (simp_all add: graph_accepted_def)
qed (use assms in simp)

lemma graph_topological_ids:
  assumes "normalize_and_validate_graph owner nodes0 = Ok nodes" "graph_topological_indices nodes = Some ord"
  shows "distinct (map (\<lambda>i. node_id (nodes ! i)) ord)" "set ord = {..<length nodes}"
    "deps_before (\<lambda>t. {d. (t, d) \<in> dep_rel nodes}) {} (map (\<lambda>i. node_id (nodes ! i)) ord)"
    "graph_wf nodes" "nodes \<noteq> []" "acyclic (dep_rel nodes)"
    "map node_id nodes = map node_id nodes0"
proof -
  have *: "graph_accepted owner nodes0" "graph_wf (map normalize_node nodes0)"
    "nodes = map normalize_node nodes0"
    by (rule normalize_and_validate_graph_cases [of owner nodes0]; use assms(1) in simp)+
  then show wf: "graph_wf nodes" "nodes \<noteq> []" "acyclic (dep_rel nodes)"
    and "map node_id nodes = map node_id nodes0"
    by (simp_all add: graph_accepted_def normalize_node_def)
  obtain ord' where ord': "graph_topological_indices nodes = Some ord'" "distinct ord'"
    "set ord' = {..<length nodes}"
    "deps_before (\<lambda>t. {d. (t, d) \<in> dep_rel nodes}) {} (map (\<lambda>i. node_id (nodes ! i)) ord')"
    using graph_topological_indices_spec [OF wf(1,3)] by blast
  moreover have "inj_on (\<lambda>i. node_id (nodes ! i)) {..<length nodes}"
    using wf(1) by (auto simp: graph_wf_def distinct_conv_nth inj_on_def)
  ultimately show "distinct (map (\<lambda>i. node_id (nodes ! i)) ord)" "set ord = {..<length nodes}"
    "deps_before (\<lambda>t. {d. (t, d) \<in> dep_rel nodes}) {} (map (\<lambda>i. node_id (nodes ! i)) ord)"
    using assms(2) by (simp_all add: distinct_map)
qed

text \<open>A small graph for the examples: task 3 waits for 1 and 2, task 2 waits for 1.\<close>

definition example_node :: "nat \<Rightarrow> nat list \<Rightarrow> (unit, nat) execution_node" where
  "example_node t deps =
     \<lparr>node_id = t, node_task = \<lparr>new_priority = High, new_payload = ()\<rparr>, node_dependencies = deps,
      node_policy = \<lparr>lease_duration = 30, retry = RetryNone\<rparr>\<rparr>"

definition example_graph :: "(unit, nat) nodes" where
  "example_graph = [example_node 3 [1, 2], example_node 2 [1], example_node 1 []]"

definition example_owner :: root_owner where
  "example_owner = \<lparr>owner_task_id = ''root'', incarnation_id = 7\<rparr>"

lemma example_graph_valid: "normalize_and_validate_graph example_owner example_graph = Ok example_graph"
  by code_simp

theorem graph_topological_indices_correct_witness:
  "\<exists>ord. graph_topological_indices example_graph = Some ord \<and> distinct ord \<and>
     set ord = {..<length example_graph} \<and>
     deps_before (\<lambda>t. {d. (t, d) \<in> dep_rel example_graph}) {} (map (\<lambda>i. node_id (example_graph ! i)) ord)"
  by (rule graph_topological_indices_correct [OF example_graph_valid])

end
