(* ===== verification/Ready_Sort.thy ===== *)
theory Ready_Sort
  imports Queue_Types "HOL-Library.Multiset"
begin

text \<open>
  The order of the ready queues (\<open>crates/queue/src/ready_sort.rs\<close>) and its instance for the
  engine's task keys (\<open>crates/engine/src/tasks.rs\<close>).

  The trait \<open>ReadyQueueSort\<close> is a function \<open>pfx\<close> from a key to its 16-byte sort prefix,
  passed as an argument to every operation that uses it; \<open>cmp_for_ready_queue\<close> compares the
  prefixes lexicographically, which is the order of byte lists. The locale
  \<open>ready_queue_sort\<close> states the one law of the trait (the prefix has 16 bytes) and derives
  the facts about sort-ordered members; it is interpreted for the \<open>u64\<close>, unit and engine keys.
\<close>

section \<open>Fixed-width positional notation\<close>

fun be_digits :: "nat \<Rightarrow> nat \<Rightarrow> nat \<Rightarrow> nat list" where
  "be_digits B 0 n = []"
| "be_digits B (Suc w) n = (n div B ^ w) mod B # be_digits B w n"

fun be_val :: "nat \<Rightarrow> nat list \<Rightarrow> nat" where
  "be_val B [] = 0"
| "be_val B (d # ds) = d * B ^ length ds + be_val B ds"

lemma length_be_digits [simp]: "length (be_digits B w n) = w"
  by (induction w) auto

lemma be_digits_less: "0 < B \<Longrightarrow> d \<in> set (be_digits B w n) \<Longrightarrow> d < B"
  by (induction w) auto

lemma be_val_be_digits: "be_val B (be_digits B w n) = n mod B ^ w"
proof (induction w)
  case (Suc w)
  have "n mod (B ^ w * B) = B ^ w * (n div B ^ w mod B) + n mod B ^ w"
    by (rule mod_mult2_eq)
  with Suc show ?case by (simp add: mult.commute)
qed simp

lemma be_val_less: "(\<And>d. d \<in> set ds \<Longrightarrow> d < B) \<Longrightarrow> be_val B ds < B ^ length ds"
proof (induction ds)
  case (Cons d ds)
  then have "d < B" and "be_val B ds < B ^ length ds" by auto
  then have "Suc d \<le> B" by simp
  with \<open>be_val B ds < B ^ length ds\<close>
  have "d * B ^ length ds + be_val B ds < Suc d * B ^ length ds" by simp
  also have "\<dots> \<le> B * B ^ length ds" using \<open>Suc d \<le> B\<close> by (rule mult_le_mono1)
  finally show ?case by simp
qed simp

lemma lex_iff_be_val_less:
  assumes "length xs = length ys"
    and "\<And>d. d \<in> set xs \<Longrightarrow> d < B" and "\<And>d. d \<in> set ys \<Longrightarrow> d < B"
  shows "xs < ys \<longleftrightarrow> be_val B xs < be_val B ys"
  using assms
proof (induction xs ys rule: list_induct2)
  case (Cons x xs y ys)
  let ?P = "B ^ length xs"
  have bx: "be_val B xs < ?P" and bys: "be_val B ys < ?P"
    using Cons.prems Cons.hyps be_val_less [of xs B] be_val_less [of ys B] by auto
  have step: "a * ?P + p < b * ?P + q" if "a < b" "p < ?P" for a b p q :: nat
  proof -
    have "a * ?P + p < Suc a * ?P" using that(2) by simp
    also have "\<dots> \<le> b * ?P" using that(1) by (intro mult_le_mono1) simp
    finally show ?thesis by simp
  qed
  consider "x < y" | "x = y" | "y < x" by linarith
  then show ?case
  proof cases
    case 1
    then show ?thesis using step [OF 1 bx] Cons.hyps by simp
  next
    case 2
    then show ?thesis using Cons by simp
  next
    case 3
    then show ?thesis using step [OF 3 bys, of "be_val B xs"] Cons.hyps by simp
  qed
qed simp

lemma be_digits_mono_iff:
  assumes "0 < B" "m < B ^ w" "n < B ^ w"
  shows "be_digits B w m < be_digits B w n \<longleftrightarrow> m < n"
  using assms
  by (subst lex_iff_be_val_less [where B = B])
     (auto simp: be_val_be_digits dest: be_digits_less)

lemma be_digits_inject:
  assumes "m < B ^ w" "n < B ^ w" "be_digits B w m = be_digits B w n"
  shows "m = n"
  using assms by (metis be_val_be_digits mod_less)

lemma map_strict_mono_lex:
  assumes "length xs = length ys"
    and "\<And>x y. x \<in> set xs \<Longrightarrow> y \<in> set ys \<Longrightarrow> (f x < f y \<longleftrightarrow> x < y)"
    and "\<And>x y. x \<in> set xs \<Longrightarrow> y \<in> set ys \<Longrightarrow> (f x = f y \<longleftrightarrow> x = y)"
  shows "map f xs < map f ys \<longleftrightarrow> xs < ys"
  using assms by (induction xs ys rule: list_induct2) auto

lemma append_lex:
  assumes "length xs = length ys"
  shows "xs @ us < ys @ vs \<longleftrightarrow> xs < ys \<or> xs = ys \<and> us < (vs :: 'a::linorder list)"
  using assms by (induction xs ys rule: list_induct2) auto

section \<open>Encodings of the sort prefix\<close>

definition to_be_bytes :: "u64 \<Rightarrow> u8 list" where
  "to_be_bytes w = map of_nat (be_digits 256 8 (unat w))"

definition hex_digit :: "nat \<Rightarrow> char" where
  "hex_digit d = char_of (if d < 10 then 48 + d else 87 + d)"

definition dec_digit :: "nat \<Rightarrow> char" where
  "dec_digit d = char_of (48 + d)"

text \<open>\<open>write!(s, "{b:02x}")\<close> for every byte.\<close>

definition hex_byte :: "u8 \<Rightarrow> string" where
  "hex_byte b = map hex_digit (be_digits 16 2 (unat b))"

definition sort_prefix_hex :: "u8 list \<Rightarrow> string" where
  "sort_prefix_hex prefix = concat (map hex_byte prefix)"

text \<open>\<open>format!("{sequence:020}")\<close>: a \<open>u64\<close> never needs more than 20 digits.\<close>

definition dec_sequence :: "u64 \<Rightarrow> string" where
  "dec_sequence seq = map dec_digit (be_digits 10 20 (unat seq))"

definition READY_SORT_PREFIX_HEX_LEN :: nat where
  "READY_SORT_PREFIX_HEX_LEN = 32"

definition READY_ZSET_MEMBER_PREFIX_LEN :: nat where
  "READY_ZSET_MEMBER_PREFIX_LEN = READY_SORT_PREFIX_HEX_LEN + 20"

definition zset_member_from_encoded :: "('id \<Rightarrow> u8 list) \<Rightarrow> 'id \<Rightarrow> string \<Rightarrow> u64 \<Rightarrow> string" where
  "zset_member_from_encoded pfx tid encoded_task_id seq =
     sort_prefix_hex (pfx tid) @ dec_sequence seq @ encoded_task_id"

text \<open>
  \<open>str::get(n..)\<close> on the UTF-8 bytes of a string: \<open>None\<close> past the end or inside a multi-byte
  character.
\<close>

definition is_char_boundary :: "string \<Rightarrow> nat \<Rightarrow> bool" where
  "is_char_boundary s n =
     (n = length s \<or> n < length s \<and> (of_char (s ! n) < (128::nat) \<or> 192 \<le> (of_char (s ! n) :: nat)))"

definition encoded_from_zset_member :: "string \<Rightarrow> string option" where
  "encoded_from_zset_member member =
     (if is_char_boundary member READY_ZSET_MEMBER_PREFIX_LEN
      then Some (drop READY_ZSET_MEMBER_PREFIX_LEN member) else None)"

section \<open>Sorted insertion into a ready queue\<close>

text \<open>
  \<open>partition_point\<close> is documented for a partitioned deque only: the number of leading
  elements that satisfy the predicate. The invariant \<open>sorted (map pfx q)\<close> below is what makes
  the deques partitioned.
\<close>

definition partition_point :: "('a \<Rightarrow> bool) \<Rightarrow> 'a list \<Rightarrow> nat" where
  "partition_point P xs = length (takeWhile P xs)"

definition insert_ready_sorted :: "('id \<Rightarrow> u8 list) \<Rightarrow> 'id list \<Rightarrow> 'id \<Rightarrow> 'id list" where
  "insert_ready_sorted pfx deque tid =
     (let pos = partition_point (\<lambda>existing. pfx existing \<le> pfx tid) deque
      in take pos deque @ tid # drop pos deque)"

lemma insert_ready_sorted_alt:
  "insert_ready_sorted pfx q t =
     takeWhile (\<lambda>e. pfx e \<le> pfx t) q @ t # dropWhile (\<lambda>e. pfx e \<le> pfx t) q"
  by (simp add: insert_ready_sorted_def partition_point_def takeWhile_eq_take [symmetric]
      dropWhile_eq_drop [symmetric])

lemma insert_ready_sorted_Nil [simp]: "insert_ready_sorted pfx [] t = [t]"
  by (simp add: insert_ready_sorted_def partition_point_def)

lemma set_insert_ready_sorted [simp]: "set (insert_ready_sorted pfx q t) = insert t (set q)"
  by (simp add: insert_ready_sorted_alt)
     (metis Un_insert_right set_append takeWhile_dropWhile_id)

lemma mset_insert_ready_sorted: "mset (insert_ready_sorted pfx q t) = add_mset t (mset q)"
  by (simp add: insert_ready_sorted_alt)
     (metis mset_append takeWhile_dropWhile_id)

lemma dropWhile_sorted_greater:
  assumes "sorted (map pfx q)" and "x \<in> set (dropWhile (\<lambda>e. pfx e \<le> k) q)"
  shows "(k :: 'k::linorder) < pfx x"
  using assms by (induction q) (auto split: if_splits intro: less_le_trans)

lemma insert_ready_sorted_sorted:
  assumes "sorted (map pfx q)"
  shows "sorted (map pfx (insert_ready_sorted pfx q t))"
proof -
  let ?P = "\<lambda>e. pfx e \<le> pfx t"
  have "sorted (map pfx (takeWhile ?P q))" "sorted (map pfx (dropWhile ?P q))"
    using assms by (metis map_append sorted_append takeWhile_dropWhile_id)+
  moreover have "pfx x \<le> pfx t" if "x \<in> set (takeWhile ?P q)" for x
    using that by (auto dest: set_takeWhileD)
  moreover have "pfx t \<le> pfx x" if "x \<in> set (dropWhile ?P q)" for x
    using dropWhile_sorted_greater [OF assms that] by simp
  ultimately show ?thesis
    by (fastforce simp: insert_ready_sorted_alt sorted_append intro: order_trans)
qed

lemma insert_ready_sorted_fifo:
  assumes "sorted (map pfx q)"
  shows "filter (\<lambda>e. pfx e = pfx t) (insert_ready_sorted pfx q t) =
         filter (\<lambda>e. pfx e = pfx t) q @ [t]"
proof -
  let ?P = "\<lambda>e. pfx e \<le> pfx t"
  have nil: "filter (\<lambda>e. pfx e = pfx t) (dropWhile ?P q) = []"
    using dropWhile_sorted_greater [OF assms] by (force simp: filter_empty_conv)
  have "filter (\<lambda>e. pfx e = pfx t) q =
      filter (\<lambda>e. pfx e = pfx t) (takeWhile ?P q @ dropWhile ?P q)" by simp
  then show ?thesis
    by (simp only: insert_ready_sorted_alt filter_append nil) (simp add: nil)
qed

lemma sorted_map_filter: "sorted (map f xs) \<Longrightarrow> sorted (map f (filter P xs))"
  by (rule sorted_filter)


section \<open>Sort keys\<close>

definition u64_sort_prefix :: "u64 \<Rightarrow> u8 list" where
  "u64_sort_prefix w = to_be_bytes w @ replicate 8 0"

definition unit_sort_prefix :: "unit \<Rightarrow> u8 list" where
  "unit_sort_prefix _ = replicate 16 0"

datatype pipeline_key = ShastaRisc0 | ShastaSp1 | ShastaNative | ShastaSgx | ShastaSgxGeth

text \<open>
  The requests of the engine; the prover configuration (\<open>ProverTaskConfig\<close>, options handed to
  the SP1 prover) is a type parameter.
\<close>

record 'cfg proposal_task_request =
  proposal_id :: u64
  l2_block_range :: "(u64 \<times> u64) option"
  l1_inclusion_block_number :: u64
  last_anchor_block_number :: u64
  request_checkpoint :: "(u64 \<times> 256 word \<times> 256 word) option"
  blob_proof_type :: "string option"
  prover_address :: "string option"
  graffiti :: "string option"
  prover_config :: 'cfg

record 'cfg aggregation_task_request =
  agg_request_id :: string
  agg_proposal_ids :: "u64 list"
  agg_prover_config :: 'cfg

datatype 'cfg engine_task_key =
    ProposalKey pipeline_key "'cfg proposal_task_request"
  | AggregateKey pipeline_key "'cfg aggregation_task_request"

definition proposal_ready_sort_prefix :: "u64 \<Rightarrow> u8 list" where
  "proposal_ready_sort_prefix pid = to_be_bytes pid @ replicate 8 0"

definition aggregate_ready_sort_prefix :: "u64 list \<Rightarrow> u8 list" where
  "aggregate_ready_sort_prefix proposal_ids =
     (let pid = (case proposal_ids of [] \<Rightarrow> u64_max | p # ps \<Rightarrow> fold min ps p)
      in to_be_bytes pid @ replicate 8 0)"

fun engine_sort_prefix :: "'cfg engine_task_key \<Rightarrow> u8 list" where
  "engine_sort_prefix (ProposalKey _ request) = proposal_ready_sort_prefix (proposal_id request)"
| "engine_sort_prefix (AggregateKey _ request) =
     aggregate_ready_sort_prefix (agg_proposal_ids request)"

section \<open>Order lemmas\<close>

lemma of_nat_u8_less_iff: "m < 256 \<Longrightarrow> n < 256 \<Longrightarrow> (of_nat m :: u8) < of_nat n \<longleftrightarrow> m < n"
  by (simp add: word_less_nat_alt unat_of_nat)

lemma of_nat_u8_eq_iff: "m < 256 \<Longrightarrow> n < 256 \<Longrightarrow> (of_nat m :: u8) = of_nat n \<longleftrightarrow> m = n"
  by (simp add: word_unat_eq_iff unat_of_nat)

lemma length_to_be_bytes [simp]: "length (to_be_bytes w) = 8"
  by (simp add: to_be_bytes_def)

lemma unat_u64_bound: "unat (w :: u64) < 256 ^ 8"
  using unat_lt2p [of w] by simp

lemma to_be_bytes_less_iff: "to_be_bytes v < to_be_bytes w \<longleftrightarrow> v < w"
proof -
  have "to_be_bytes v < to_be_bytes w \<longleftrightarrow> be_digits 256 8 (unat v) < be_digits 256 8 (unat w)"
    unfolding to_be_bytes_def
    by (rule map_strict_mono_lex)
       (auto dest!: be_digits_less [rotated] simp: of_nat_u8_less_iff of_nat_u8_eq_iff)
  also have "\<dots> \<longleftrightarrow> unat v < unat w"
    using unat_u64_bound by (intro be_digits_mono_iff) auto
  finally show ?thesis by (simp add: word_less_nat_alt)
qed

lemma to_be_bytes_inject: "to_be_bytes v = to_be_bytes w \<longleftrightarrow> v = w"
  using to_be_bytes_less_iff [of v w] to_be_bytes_less_iff [of w v] by auto

lemma be_prefix_le_iff:
  "to_be_bytes v @ replicate 8 0 \<le> to_be_bytes w @ replicate 8 0 \<longleftrightarrow> v \<le> w"
  by (auto simp: le_less append_lex to_be_bytes_less_iff to_be_bytes_inject)

lemma fold_min_eq_Min: "fold min ps p = Min (set (p # ps))"
  by (metis Min.set_eq_fold)

lemma char_of_less_iff: "m < 256 \<Longrightarrow> n < 256 \<Longrightarrow> (char_of m :: char) < char_of n \<longleftrightarrow> m < (n::nat)"
  by (simp add: less_char_def)

lemma char_of_eq_iff256: "m < 256 \<Longrightarrow> n < 256 \<Longrightarrow> (char_of m :: char) = char_of n \<longleftrightarrow> m = (n::nat)"
  by (metis char_of_less_iff less_irrefl nat_neq_iff)

lemma hex_digit_less_iff: "m < 16 \<Longrightarrow> n < 16 \<Longrightarrow> hex_digit m < hex_digit n \<longleftrightarrow> m < n"
  by (auto simp: hex_digit_def char_of_less_iff)

lemma hex_digit_eq_iff: "m < 16 \<Longrightarrow> n < 16 \<Longrightarrow> hex_digit m = hex_digit n \<longleftrightarrow> m = n"
  by (metis hex_digit_less_iff less_irrefl nat_neq_iff)

lemma dec_digit_less_iff: "m < 10 \<Longrightarrow> n < 10 \<Longrightarrow> dec_digit m < dec_digit n \<longleftrightarrow> m < n"
  by (simp add: dec_digit_def char_of_less_iff)

lemma dec_digit_eq_iff: "m < 10 \<Longrightarrow> n < 10 \<Longrightarrow> dec_digit m = dec_digit n \<longleftrightarrow> m = n"
  by (metis dec_digit_less_iff less_irrefl nat_neq_iff)

lemma length_hex_byte [simp]: "length (hex_byte b) = 2"
  by (simp add: hex_byte_def)

lemma hex_byte_less_iff: "hex_byte a < hex_byte b \<longleftrightarrow> a < b"
proof -
  have "hex_byte a < hex_byte b \<longleftrightarrow> be_digits 16 2 (unat a) < be_digits 16 2 (unat b)"
    unfolding hex_byte_def
    by (rule map_strict_mono_lex)
       (auto dest!: be_digits_less [rotated] simp: hex_digit_less_iff hex_digit_eq_iff)
  also have "\<dots> \<longleftrightarrow> unat a < unat b"
    using unat_lt2p [of a] unat_lt2p [of b] by (intro be_digits_mono_iff) auto
  finally show ?thesis by (simp add: word_less_nat_alt)
qed

lemma hex_byte_inject: "hex_byte a = hex_byte b \<longleftrightarrow> a = b"
  using hex_byte_less_iff [of a b] hex_byte_less_iff [of b a] by auto

lemma length_sort_prefix_hex: "length (sort_prefix_hex p) = 2 * length p"
  by (induction p) (auto simp: sort_prefix_hex_def)

lemma sort_prefix_hex_less_iff:
  "length p = length q \<Longrightarrow> sort_prefix_hex p < sort_prefix_hex q \<longleftrightarrow> p < q"
  by (induction p q rule: list_induct2)
     (auto simp: sort_prefix_hex_def append_lex hex_byte_less_iff hex_byte_inject)

lemma sort_prefix_hex_inject:
  "length p = length q \<Longrightarrow> sort_prefix_hex p = sort_prefix_hex q \<longleftrightarrow> p = q"
  using sort_prefix_hex_less_iff [of p q] sort_prefix_hex_less_iff [of q p] by auto

lemma length_dec_sequence [simp]: "length (dec_sequence s) = 20"
  by (simp add: dec_sequence_def)

lemma dec_sequence_less_iff: "dec_sequence a < dec_sequence b \<longleftrightarrow> a < b"
proof -
  have bound: "unat (w :: u64) < 10 ^ 20" for w
    using unat_lt2p [of w] by simp
  have "dec_sequence a < dec_sequence b \<longleftrightarrow>
      be_digits 10 20 (unat a) < be_digits 10 20 (unat b)"
    unfolding dec_sequence_def
    by (rule map_strict_mono_lex)
       (auto dest!: be_digits_less [rotated] simp: dec_digit_less_iff dec_digit_eq_iff)
  also have "\<dots> \<longleftrightarrow> unat a < unat b"
    using bound by (intro be_digits_mono_iff) auto
  finally show ?thesis by (simp add: word_less_nat_alt)
qed

lemma dec_sequence_inject: "dec_sequence a = dec_sequence b \<longleftrightarrow> a = b"
  using dec_sequence_less_iff [of a b] dec_sequence_less_iff [of b a] by auto

section \<open>The trait as an interface\<close>

locale ready_queue_sort =
  fixes ready_queue_sort_prefix :: "'id \<Rightarrow> u8 list"
  assumes prefix_length: "length (ready_queue_sort_prefix x) = 16"
begin

lemma length_member_prefix:
  "length (sort_prefix_hex (ready_queue_sort_prefix x) @ dec_sequence s) =
   READY_ZSET_MEMBER_PREFIX_LEN"
  by (simp add: length_sort_prefix_hex prefix_length READY_ZSET_MEMBER_PREFIX_LEN_def
      READY_SORT_PREFIX_HEX_LEN_def)

lemma member_split:
  "take READY_ZSET_MEMBER_PREFIX_LEN (zset_member_from_encoded ready_queue_sort_prefix x e s) =
     sort_prefix_hex (ready_queue_sort_prefix x) @ dec_sequence s"
  "drop READY_ZSET_MEMBER_PREFIX_LEN (zset_member_from_encoded ready_queue_sort_prefix x e s) = e"
  using length_member_prefix [of x s]
  by (simp_all add: zset_member_from_encoded_def flip: append_assoc)

lemma member_less_iff:
  "zset_member_from_encoded ready_queue_sort_prefix x e s
     < zset_member_from_encoded ready_queue_sort_prefix y f t \<longleftrightarrow>
   (ready_queue_sort_prefix x < ready_queue_sort_prefix y \<or>
    ready_queue_sort_prefix x = ready_queue_sort_prefix y \<and> (s < t \<or> s = t \<and> e < f))"
  by (simp add: zset_member_from_encoded_def append_lex length_sort_prefix_hex prefix_length
      sort_prefix_hex_less_iff sort_prefix_hex_inject dec_sequence_less_iff dec_sequence_inject)

lemma member_roundtrip:
  assumes "e = [] \<or> of_char (hd e) < (128::nat)"
  shows "encoded_from_zset_member (zset_member_from_encoded ready_queue_sort_prefix x e s) = Some e"
proof -
  let ?p = "sort_prefix_hex (ready_queue_sort_prefix x) @ dec_sequence s"
  let ?n = "READY_ZSET_MEMBER_PREFIX_LEN"
  have m: "zset_member_from_encoded ready_queue_sort_prefix x e s = ?p @ e"
    by (simp add: zset_member_from_encoded_def)
  have len: "length ?p = ?n" by (rule length_member_prefix)
  have "is_char_boundary (?p @ e) ?n"
  proof (cases e)
    case Nil
    then show ?thesis using len by (simp add: is_char_boundary_def)
  next
    case (Cons c cs)
    then have "(?p @ e) ! ?n = c" using len by (metis nth_append_length)
    then show ?thesis using assms Cons len
      by (simp add: is_char_boundary_def flip: len)
  qed
  then show ?thesis
    using member_split(2) [of x e s] m by (simp add: encoded_from_zset_member_def)
qed

end

interpretation u64_key: ready_queue_sort u64_sort_prefix
  by unfold_locales (simp add: u64_sort_prefix_def)

interpretation unit_key: ready_queue_sort unit_sort_prefix
  by unfold_locales (simp add: unit_sort_prefix_def)

interpretation engine_key: ready_queue_sort engine_sort_prefix
proof
  fix k :: "'a engine_task_key"
  show "length (engine_sort_prefix k) = 16"
    by (cases k) (simp_all add: proposal_ready_sort_prefix_def aggregate_ready_sort_prefix_def Let_def)
qed

section \<open>Properties\<close>

text \<open>
  C27: pushing a task into a ready queue keeps the queue sorted by the sort prefix, adds exactly
  that task, and is first-in first-out among tasks with the same prefix (the new task comes
  after every queued task with an equal key).
\<close>

theorem insert_ready_sorted_correct:
  assumes "sorted (map pfx q)"
  shows "sorted (map pfx (insert_ready_sorted pfx q t)) \<and>
         mset (insert_ready_sorted pfx q t) = add_mset t (mset q) \<and>
         filter (\<lambda>e. pfx e = pfx t) (insert_ready_sorted pfx q t) =
           filter (\<lambda>e. pfx e = pfx t) q @ [t]"
  using assms
  by (simp add: insert_ready_sorted_sorted mset_insert_ready_sorted insert_ready_sorted_fifo)

theorem insert_ready_sorted_correct_witness:
  "insert_ready_sorted (\<lambda>n. u64_sort_prefix n) [5, 42, 42] 42 = [5, 42, 42, 42] \<and>
   sorted (map u64_sort_prefix (insert_ready_sorted u64_sort_prefix [5, 42, 100] 42))"
proof -
  have s: "sorted (map u64_sort_prefix [5, 42, 100])"
    by (simp add: u64_sort_prefix_def be_prefix_le_iff)
  show ?thesis
    using insert_ready_sorted_correct [OF s, of 42]
    by (simp add: insert_ready_sorted_alt u64_sort_prefix_def be_prefix_le_iff)
qed

text \<open>
  the engine's sort prefix orders tasks by proposal number. A proposal task runs no later than
  another exactly when its proposal id is not larger, and a non-empty aggregation is ordered
  like its smallest proposal.
\<close>

lemma engine_sort_prefix_order:
  "(engine_sort_prefix (ProposalKey k r) \<le> engine_sort_prefix (ProposalKey k' r')
      \<longleftrightarrow> proposal_id r \<le> proposal_id r') \<and>
   (agg_proposal_ids a \<noteq> [] \<longrightarrow>
      (engine_sort_prefix (ProposalKey k r) \<le> engine_sort_prefix (AggregateKey k' a)
         \<longleftrightarrow> proposal_id r \<le> Min (set (agg_proposal_ids a))))"
proof (cases "agg_proposal_ids a")
  case (Cons p ps)
  then show ?thesis
    by (simp add: proposal_ready_sort_prefix_def aggregate_ready_sort_prefix_def be_prefix_le_iff
        Let_def fold_min_eq_Min del: Min_insert)
qed (simp add: proposal_ready_sort_prefix_def be_prefix_le_iff)

text \<open>
  sorted-set members of engine tasks are ordered by (sort prefix, FIFO sequence, encoded id) when compared
  as strings, so the zero-padded decimal and hexadecimal fields never disturb the order; and stripping the
  prefix of a member gives back the encoded task id.
\<close>

lemma zset_member_order_and_roundtrip:
  fixes x y :: "'cfg engine_task_key"
  shows "(zset_member_from_encoded engine_sort_prefix x e s < zset_member_from_encoded engine_sort_prefix y f t
      \<longleftrightarrow> engine_sort_prefix x < engine_sort_prefix y \<or>
          engine_sort_prefix x = engine_sort_prefix y \<and> (s < t \<or> s = t \<and> e < f)) \<and>
   (e = [] \<or> of_char (hd e) < (128::nat) \<longrightarrow>
      encoded_from_zset_member (zset_member_from_encoded engine_sort_prefix x e s) = Some e)"
  using engine_key.member_less_iff [of x e s y f t] engine_key.member_roundtrip [of e x s]
  by simp

end
