(* ===== verification/Store.thy ===== *)
theory Store
  imports Exec_Graph Ready_Sort "HOL-Library.Finite_Map" "HOL-Library.Product_Lexorder"
begin

text \<open>
  The in-memory task store (\<open>crates/queue/src/store.rs\<close>): its state \<open>Inner\<close>, the helper
  functions that run under the store's mutex, and every operation of
  \<open>impl TaskStore for MemoryStore\<close>, with the default method \<open>pop_ready_and_take\<close>.

  Every operation holds the mutex for its whole body, so it is a function from the state to a
  result and the new state; the state is returned on errors as well. A \<open>HashMap\<close> is a finite
  map, a \<open>HashSet\<close> a set, a \<open>VecDeque\<close> a list with the front first, and the \<open>BTreeMap\<close> of
  scheduled retries an association list with ascending keys. The clock (\<open>now_millis\<close>) and the
  iteration order of a \<open>HashMap\<close> are arguments; \<open>pfx\<close> is the sort prefix of the key type's
  \<open>ReadyQueueSort\<close> implementation; \<open>lease\<close> is the store's minimum lease duration.

  The operations are those of a release build. The only \<open>debug_assert_eq!\<close> of the store, in
  \<open>retry_now_if_running\<close>, is modelled by a variant of the operation for debug builds.
\<close>

section \<open>State\<close>

record ('p, 'o, 'id) task_record =
  definition_payload :: 'p
  definition_execution_policy :: task_execution_policy
  r_payload :: "'p option"
  r_state :: "('o, 'id) task_state"
  r_priority :: priority
  r_attempt :: u32
  lease_until_ms :: "u64 option"
  lease_sequence :: u64
  r_execution_policy :: task_execution_policy
  r_dependencies :: "'id list"

record 'id owner_graph =
  og_task_ids :: "'id list"
  og_attached :: bool

record ('p, 'o, 'id) inner =
  tasks :: "('id, ('p, 'o, 'id) task_record) fmap"
  dependents :: "('id, 'id list) fmap"
  remaining :: "('id, nat) fmap"
  ready_high :: "'id list"
  ready_med :: "'id list"
  ready_low :: "'id list"
  scheduled :: "(u64 \<times> 'id list) list"
  owner_graphs :: "(root_owner, 'id owner_graph) fmap"
  task_owners :: "('id, root_owner set) fmap"
  inner_next_sequence :: u64

definition with_lease :: "('p, 'o, 'id) inner" where
  "with_lease =
     \<lparr>tasks = fmempty, dependents = fmempty, remaining = fmempty,
      ready_high = [], ready_med = [], ready_low = [], scheduled = [],
      owner_graphs = fmempty, task_owners = fmempty, inner_next_sequence = 0\<rparr>"

text \<open>\<open>get_mut(id)\<close> followed by an update of the record, when the task exists.\<close>

definition modify_task ::
  "'id \<Rightarrow> (('p, 'o, 'id) task_record \<Rightarrow> ('p, 'o, 'id) task_record) \<Rightarrow>
   ('p, 'o, 'id) inner \<Rightarrow> ('p, 'o, 'id) inner" where
  "modify_task tid f inner =
     (case fmlookup (tasks inner) tid of
        None \<Rightarrow> inner
      | Some record \<Rightarrow> inner\<lparr>tasks := fmupd tid (f record) (tasks inner)\<rparr>)"

section \<open>Dependency resolution and definitions\<close>

datatype 'id dependency_insert_state =
    DepPending nat "'id list"
  | DepFailed
  | DepCancelled

fun resolve_deps ::
  "('id, ('p, 'o, 'id) task_record) fmap \<Rightarrow> 'id list \<Rightarrow> 'id list \<Rightarrow> 'id dependency_insert_state" where
  "resolve_deps ts [] unresolved = DepPending (length unresolved) unresolved"
| "resolve_deps ts (dep # deps) unresolved =
     (case map_option r_state (fmlookup ts dep) of
        Some (Succeeded _) \<Rightarrow> resolve_deps ts deps unresolved
      | Some (Failed _ _) \<Rightarrow> DepFailed
      | Some Cancelled \<Rightarrow> DepCancelled
      | _ \<Rightarrow> resolve_deps ts deps (unresolved @ [dep]))"

definition resolve_dependency_insert_state ::
  "('id, ('p, 'o, 'id) task_record) fmap \<Rightarrow> 'id list \<Rightarrow> 'id dependency_insert_state" where
  "resolve_dependency_insert_state ts deps = resolve_deps ts deps []"

definition task_definition_matches ::
  "('p, 'o, 'id) task_record \<Rightarrow> ('p, 'id) execution_node \<Rightarrow> bool" where
  "task_definition_matches record node =
     (definition_payload record = new_payload (node_task node) \<and>
      r_priority record = new_priority (node_task node) \<and>
      definition_execution_policy record = node_policy node \<and>
      graph_task_sets_match (r_dependencies record) (node_dependencies node))"

section \<open>Helpers under the lock\<close>

definition retain_task_id :: "'id list \<Rightarrow> 'id \<Rightarrow> 'id list" where
  "retain_task_id queue target = filter (\<lambda>queued. queued \<noteq> target) queue"

definition next_sequence :: "('p, 'o, 'id) inner \<Rightarrow> u64 \<times> ('p, 'o, 'id) inner" where
  "next_sequence inner =
     (inner_next_sequence inner,
      inner\<lparr>inner_next_sequence := saturating_add (inner_next_sequence inner) 1\<rparr>)"

definition remove_queue_memberships :: "'id \<Rightarrow> ('p, 'o, 'id) inner \<Rightarrow> ('p, 'o, 'id) inner" where
  "remove_queue_memberships tid inner =
     inner\<lparr>ready_high := retain_task_id (ready_high inner) tid,
           ready_med := retain_task_id (ready_med inner) tid,
           ready_low := retain_task_id (ready_low inner) tid,
           scheduled := filter (\<lambda>(key, queue). queue \<noteq> [])
             (map (\<lambda>(key, queue). (key, retain_task_id queue tid)) (scheduled inner))\<rparr>"

fun push_ready_locked ::
  "('id \<Rightarrow> u8 list) \<Rightarrow> priority \<Rightarrow> 'id \<Rightarrow> ('p, 'o, 'id) inner \<Rightarrow> ('p, 'o, 'id) inner" where
  "push_ready_locked pfx High tid inner =
     inner\<lparr>ready_high := insert_ready_sorted pfx (ready_high inner) tid\<rparr>"
| "push_ready_locked pfx Medium tid inner =
     inner\<lparr>ready_med := insert_ready_sorted pfx (ready_med inner) tid\<rparr>"
| "push_ready_locked pfx Low tid inner =
     inner\<lparr>ready_low := insert_ready_sorted pfx (ready_low inner) tid\<rparr>"

text \<open>\<open>record.execution_policy.lease_duration.max(lease)\<close> from now on, in milliseconds.\<close>

definition lease_deadline :: "duration \<Rightarrow> task_execution_policy \<Rightarrow> u64 \<Rightarrow> u64" where
  "lease_deadline lease pol now_ms = saturating_add now_ms (millis_u64 (max (lease_duration pol) lease))"

definition take_ready_locked ::
  "duration \<Rightarrow> u64 \<Rightarrow> 'id \<Rightarrow> string \<Rightarrow> ('p, 'o, 'id) inner \<Rightarrow>
   ('p \<times> priority \<times> u32 \<times> task_execution_policy) option store_result \<times> ('p, 'o, 'id) inner" where
  "take_ready_locked lease now_ms tid token inner =
     (case fmlookup (tasks inner) tid of
        None \<Rightarrow> (Ok None, inner)
      | Some record \<Rightarrow>
          if \<not> is_ready (r_state record) then (Ok None, inner)
          else
            (case r_payload record of
               None \<Rightarrow> (Ok None, inner)
             | Some payload \<Rightarrow>
                 let (sq, inner1) = next_sequence inner in
                 (case fmlookup (tasks inner1) tid of
                    None \<Rightarrow> (Err (CorruptData ''ready task disappeared''), inner1)
                  | Some rec1 \<Rightarrow>
                      let attempt = saturating_add (r_attempt rec1) 1;
                          rec2 = rec1\<lparr>r_attempt := attempt, r_state := Running token attempt,
                                      lease_sequence := sq,
                                      lease_until_ms :=
                                        Some (lease_deadline lease (r_execution_policy rec1) now_ms)\<rparr>
                      in (Ok (Some (payload, r_priority rec2, attempt, r_execution_policy rec2)),
                          inner1\<lparr>tasks := fmupd tid rec2 (tasks inner1)\<rparr>))))"

definition remove_dependent_edges :: "'id \<Rightarrow> ('id, 'id list) fmap \<Rightarrow> ('id, 'id list) fmap" where
  "remove_dependent_edges target deps =
     (let kept = fmmap (filter (\<lambda>dependent. dependent \<noteq> target)) deps
      in fmfilter (\<lambda>k. fmlookup kept k \<noteq> Some []) kept)"

text \<open>\<open>dependents.entry(dep).or_default().push(id)\<close>, for each unresolved dependency.\<close>

definition push_dependent :: "'id \<Rightarrow> 'id \<Rightarrow> ('id, 'id list) fmap \<Rightarrow> ('id, 'id list) fmap" where
  "push_dependent tid dep deps =
     fmupd dep ((case fmlookup deps dep of Some ids \<Rightarrow> ids | None \<Rightarrow> []) @ [tid]) deps"

definition push_dependents :: "'id \<Rightarrow> 'id list \<Rightarrow> ('id, 'id list) fmap \<Rightarrow> ('id, 'id list) fmap" where
  "push_dependents tid unresolved deps = fold (push_dependent tid) unresolved deps"

definition running_lease_matches :: "('p, 'o, 'id) inner \<Rightarrow> 'id \<Rightarrow> string \<Rightarrow> u32 \<Rightarrow> bool" where
  "running_lease_matches inner tid token attempt =
     (case map_option r_state (fmlookup (tasks inner) tid) of
        Some (Running current_token current_attempt) \<Rightarrow>
          current_token = token \<and> current_attempt = attempt
      | _ \<Rightarrow> False)"

section \<open>Recovery reset of an attached graph\<close>

definition reset_node ::
  "('id \<Rightarrow> u8 list) \<Rightarrow> ('p, 'id) execution_node \<Rightarrow> ('p, 'o, 'id) inner \<Rightarrow>
   unit store_result \<times> ('p, 'o, 'id) inner" where
  "reset_node pfx node inner =
     (case resolve_dependency_insert_state (tasks inner) (node_dependencies node) of
        DepPending rem unresolved \<Rightarrow>
          let state = (if rem = 0 then Ready else Pending rem);
              inner1 = inner\<lparr>dependents := push_dependents (node_id node) unresolved (dependents inner)\<rparr>
          in (case fmlookup (tasks inner1) (node_id node) of
                None \<Rightarrow> (Panic ''attached graph task was checked before recovery reset'', inner1)
              | Some record \<Rightarrow>
                  let record' = record\<lparr>r_payload := Some (new_payload (node_task node)),
                                       r_state := state, r_attempt := 0, lease_until_ms := None,
                                       r_execution_policy := node_policy node,
                                       r_dependencies := node_dependencies node\<rparr>;
                      inner2 = inner1\<lparr>tasks := fmupd (node_id node) record' (tasks inner1),
                                      remaining := fmupd (node_id node) rem (remaining inner1)\<rparr>
                  in (Ok (), if is_ready state
                             then push_ready_locked pfx (r_priority record') (node_id node) inner2
                             else inner2))
      | _ \<Rightarrow> (Panic ''all terminal dependencies in the attached graph are reset together'', inner))"

fun reset_nodes ::
  "('id \<Rightarrow> u8 list) \<Rightarrow> 'id set \<Rightarrow> ('p, 'id) nodes \<Rightarrow> ('p, 'o, 'id) inner \<Rightarrow>
   unit store_result \<times> ('p, 'o, 'id) inner" where
  "reset_nodes pfx reset_ids [] inner = (Ok (), inner)"
| "reset_nodes pfx reset_ids (node # rest) inner =
     (if node_id node \<notin> reset_ids then reset_nodes pfx reset_ids rest inner
      else
        (case reset_node pfx node inner of
           (Ok _, inner') \<Rightarrow> reset_nodes pfx reset_ids rest inner'
         | (r, inner') \<Rightarrow> (r, inner')))"

text \<open>
  The first loop of the source visits the set \<open>reset_ids\<close> in hash order; it removes queue
  entries and edges of each id, which commute, and the model visits the ids in graph order.
\<close>

definition reset_attached_terminal_nodes ::
  "('id \<Rightarrow> u8 list) \<Rightarrow> ('p, 'id) nodes \<Rightarrow> nat list \<Rightarrow> ('p, 'o, 'id) inner \<Rightarrow>
   bool store_result \<times> ('p, 'o, 'id) inner" where
  "reset_attached_terminal_nodes pfx nodes topological_indices inner =
     (let ordered = map (\<lambda>index. nodes ! index) topological_indices;
          reset_ids = filter (\<lambda>tid. case fmlookup (tasks inner) tid of
                                       Some record \<Rightarrow> is_resettable (r_state record)
                                     | None \<Rightarrow> False) (map node_id ordered)
      in if reset_ids = [] then (Ok False, inner)
         else
           let cleared = fold (\<lambda>tid i. (remove_queue_memberships tid i)
                                 \<lparr>dependents := remove_dependent_edges tid (dependents i)\<rparr>)
                           reset_ids inner
           in (case reset_nodes pfx (set reset_ids) ordered cleared of
                 (Ok _, inner') \<Rightarrow> (Ok True, inner')
               | (Err e, inner') \<Rightarrow> (Err e, inner')
               | (Panic p, inner') \<Rightarrow> (Panic p, inner')))"

section \<open>Propagation to dependents\<close>

definition release_dependent ::
  "('id \<Rightarrow> u8 list) \<Rightarrow> 'id \<Rightarrow> ('p, 'o, 'id) inner \<Rightarrow> ('p, 'o, 'id) inner" where
  "release_dependent pfx dependent inner =
     (case fmlookup (tasks inner) dependent of
        None \<Rightarrow> inner
      | Some record \<Rightarrow>
          if \<not> is_pending (r_state record) then inner
          else
            let rem = (case fmlookup (remaining inner) dependent of Some n \<Rightarrow> n | None \<Rightarrow> 0) - 1;
                inner1 = inner\<lparr>remaining := fmupd dependent rem (remaining inner),
                               tasks := fmupd dependent
                                 (record\<lparr>r_state := (if rem = 0 then Ready else Pending rem)\<rparr>)
                                 (tasks inner)\<rparr>
            in if rem = 0 then push_ready_locked pfx (r_priority record) dependent inner1 else inner1)"

definition dependents_list :: "('p, 'o, 'id) inner \<Rightarrow> 'id \<Rightarrow> 'id list" where
  "dependents_list inner tid = (case fmlookup (dependents inner) tid of Some ids \<Rightarrow> ids | None \<Rightarrow> [])"

definition release_dependents_locked ::
  "('id \<Rightarrow> u8 list) \<Rightarrow> 'id \<Rightarrow> ('p, 'o, 'id) inner \<Rightarrow> ('p, 'o, 'id) inner" where
  "release_dependents_locked pfx root inner =
     fold (release_dependent pfx) (dependents_list inner root) inner"

definition fail_dependent :: "'id \<Rightarrow> string \<Rightarrow> 'id \<Rightarrow> ('p, 'o, 'id) inner \<Rightarrow> ('p, 'o, 'id) inner" where
  "fail_dependent root err tid inner =
     (if (case fmlookup (tasks inner) tid of Some record \<Rightarrow> is_terminal (r_state record) | None \<Rightarrow> False)
      then inner
      else modify_task tid
             (\<lambda>record. record\<lparr>r_state := Failed err (Some root), lease_until_ms := None\<rparr>)
             (remove_queue_memberships tid inner))"

lemma dependents_modify_task [simp]: "dependents (modify_task tid f inner) = dependents inner"
  by (simp add: modify_task_def split: option.splits)

lemma dependents_remove_queue_memberships [simp]:
  "dependents (remove_queue_memberships tid inner) = dependents inner"
  by (simp add: remove_queue_memberships_def)

lemma dependents_fail_dependent [simp]: "dependents (fail_dependent root err tid inner) = dependents inner"
  by (simp add: fail_dependent_def)

text \<open>The work list loop; it ends because every id with dependents is expanded once.\<close>

function fail_loop ::
  "'id \<Rightarrow> string \<Rightarrow> 'id list \<Rightarrow> 'id set \<Rightarrow> ('p, 'o, 'id) inner \<Rightarrow> ('p, 'o, 'id) inner" where
  "fail_loop root err [] visited inner = inner"
| "fail_loop root err (tid # queue) visited inner =
     (if tid \<in> visited then fail_loop root err queue visited inner
      else
        let inner' = fail_dependent root err tid inner
        in fail_loop root err (queue @ dependents_list inner' tid) (insert tid visited) inner')"
  by pat_completeness auto

termination
proof (relation "measures
    [\<lambda>(root, err, queue, visited, inner). card (fmdom' (dependents inner) - visited),
     \<lambda>(root, err, queue, visited, inner). length queue]", goal_cases)
  case (3 root err tid queue visited inner inner')
  let ?dom = "fmdom' (dependents inner)"
  have same: "dependents inner' = dependents inner" using 3(2) by simp
  show ?case
  proof (cases "tid \<in> ?dom")
    case True
    then have "card (?dom - insert tid visited) < card (?dom - visited)"
      using 3(1) by (intro card_Diff_insert_less) simp_all
    then show ?thesis by (simp add: same)
  next
    case False
    then have "dependents_list inner' tid = []"
      by (simp add: dependents_list_def same fmlookup_dom'_iff split: option.splits)
    moreover have "?dom - insert tid visited = ?dom - visited" using False by blast
    ultimately show ?thesis by (simp add: same)
  qed
qed simp_all

definition fail_dependents_locked ::
  "'id \<Rightarrow> string \<Rightarrow> ('p, 'o, 'id) inner \<Rightarrow> ('p, 'o, 'id) inner" where
  "fail_dependents_locked root err inner = fail_loop root err (dependents_list inner root) {} inner"

definition cancel_task_locked ::
  "'id \<Rightarrow> string \<Rightarrow> ('p, 'o, 'id) inner \<Rightarrow> bool store_result \<times> ('p, 'o, 'id) inner" where
  "cancel_task_locked tid dependent_error inner =
     (case fmlookup (tasks inner) tid of
        None \<Rightarrow> (Ok False, inner)
      | Some record \<Rightarrow>
          if is_terminal (r_state record) then (Ok False, inner)
          else
            let inner1 = remove_queue_memberships tid inner in
            (case fmlookup (tasks inner1) tid of
               None \<Rightarrow> (Err (CorruptData ''task disappeared during cancellation''), inner1)
             | Some rec1 \<Rightarrow>
                 let inner2 = inner1\<lparr>tasks := fmupd tid
                                (rec1\<lparr>r_state := Cancelled, lease_until_ms := None\<rparr>) (tasks inner1)\<rparr>
                 in (Ok True, fail_dependents_locked tid dependent_error inner2)))"

section \<open>Projection operations\<close>

definition owned_by :: "('p, 'o, 'id) inner \<Rightarrow> 'id \<Rightarrow> root_owner \<Rightarrow> bool" where
  "owned_by inner tid owner =
     (case fmlookup (task_owners inner) tid of Some owners \<Rightarrow> owner \<in> owners | None \<Rightarrow> False)"

definition has_owners :: "('p, 'o, 'id) inner \<Rightarrow> 'id \<Rightarrow> bool" where
  "has_owners inner tid =
     (case fmlookup (task_owners inner) tid of Some owners \<Rightarrow> owners \<noteq> {} | None \<Rightarrow> False)"

text \<open>The loop that re-checks an attached graph: the first problem found, if any.\<close>

fun check_attached ::
  "root_owner \<Rightarrow> ('p, 'id) nodes \<Rightarrow> ('p, 'o, 'id) inner \<Rightarrow> store_error option" where
  "check_attached owner [] inner = None"
| "check_attached owner (node # rest) inner =
     (case fmlookup (tasks inner) (node_id node) of
        None \<Rightarrow> Some (CorruptData ''an attached root owner references a missing task'')
      | Some record \<Rightarrow>
          if \<not> task_definition_matches record node then
            Some (Conflict ''an attached task id has a different execution definition'')
          else if \<not> owned_by inner (node_id node) owner then
            Some (CorruptData ''owner and task ownership indexes disagree'')
          else check_attached owner rest inner)"

definition fresh_record ::
  "('p, 'id) execution_node \<Rightarrow> ('o, 'id) task_state \<Rightarrow> ('p, 'o, 'id) task_record" where
  "fresh_record node state =
     \<lparr>definition_payload = new_payload (node_task node),
      definition_execution_policy = node_policy node,
      r_payload = Some (new_payload (node_task node)),
      r_state = state, r_priority = new_priority (node_task node), r_attempt = 0,
      lease_until_ms = None, lease_sequence = 0,
      r_execution_policy = node_policy node, r_dependencies = node_dependencies node\<rparr>"

definition add_owner :: "root_owner \<Rightarrow> 'id \<Rightarrow> ('p, 'o, 'id) inner \<Rightarrow> ('p, 'o, 'id) inner" where
  "add_owner owner tid inner =
     inner\<lparr>task_owners := fmupd tid
       (insert owner (case fmlookup (task_owners inner) tid of Some owners \<Rightarrow> owners | None \<Rightarrow> {}))
       (task_owners inner)\<rparr>"

definition attach_node ::
  "('id \<Rightarrow> u8 list) \<Rightarrow> root_owner \<Rightarrow> ('p, 'id) execution_node \<Rightarrow>
   ('p, 'o, 'id) inner \<Rightarrow> ('p, 'o, 'id) inner" where
  "attach_node pfx owner node inner =
     (let tid = node_id node;
          reset_unowned_terminal =
            (case fmlookup (tasks inner) tid of
               Some record \<Rightarrow> is_resettable (r_state record) \<and> \<not> has_owners inner tid
             | None \<Rightarrow> False);
          inner' =
            (if fmlookup (tasks inner) tid = None \<or> reset_unowned_terminal then
               let (rem, state, unresolved) =
                     (case resolve_dependency_insert_state (tasks inner) (node_dependencies node) of
                        DepPending rem unresolved \<Rightarrow>
                          (rem, if rem = 0 then Ready else Pending rem, unresolved)
                      | DepFailed \<Rightarrow> (0, Failed ''dependency failed'' None, [])
                      | DepCancelled \<Rightarrow> (0, Cancelled, []));
                   inner1 =
                     (if reset_unowned_terminal
                      then remove_queue_memberships tid
                             (inner\<lparr>dependents := remove_dependent_edges tid (dependents inner)\<rparr>)
                      else inner);
                   inner2 =
                     inner1\<lparr>dependents := push_dependents tid unresolved (dependents inner1),
                            remaining := fmupd tid rem (remaining inner1),
                            tasks := fmupd tid (fresh_record node state) (tasks inner1)\<rparr>
               in if is_ready state then push_ready_locked pfx (new_priority (node_task node)) tid inner2
                  else inner2
             else inner)
      in add_owner owner tid inner')"

definition attach_graph ::
  "('id \<Rightarrow> u8 list) \<Rightarrow> root_owner \<Rightarrow> ('p, 'id) nodes \<Rightarrow> ('p, 'o, 'id) inner \<Rightarrow>
   attach_outcome store_result \<times> ('p, 'o, 'id) inner" where
  "attach_graph pfx owner nodes0 inner =
     (case normalize_and_validate_graph owner nodes0 of
        Err e \<Rightarrow> (Err e, inner)
      | Panic p \<Rightarrow> (Panic p, inner)
      | Ok nodes \<Rightarrow>
          (case graph_topological_indices nodes of
             None \<Rightarrow> (Panic ''graph_topological_indices'', inner)
           | Some topological_indices \<Rightarrow>
               let graph_ids = map (\<lambda>index. node_id (nodes ! index)) topological_indices in
               (case fmlookup (owner_graphs inner) owner of
                  Some existing_graph \<Rightarrow>
                    if \<not> og_attached existing_graph then
                      (Err (Conflict ''a retired root owner cannot be attached again''), inner)
                    else if \<not> graph_task_sets_match (og_task_ids existing_graph) graph_ids then
                      (Err (Conflict ''the same root owner is already attached to a different graph''), inner)
                    else
                      (case check_attached owner nodes inner of
                         Some e \<Rightarrow> (Err e, inner)
                       | None \<Rightarrow>
                           (case reset_attached_terminal_nodes pfx nodes topological_indices inner of
                              (Ok reset, inner') \<Rightarrow> (Ok (if reset then Attached else AlreadyAttached), inner')
                            | (Err e, inner') \<Rightarrow> (Err e, inner')
                            | (Panic p, inner') \<Rightarrow> (Panic p, inner')))
                | None \<Rightarrow>
                    if list_ex (\<lambda>node. case fmlookup (tasks inner) (node_id node) of
                                         Some record \<Rightarrow> \<not> task_definition_matches record node
                                       | None \<Rightarrow> False) nodes then
                      (Err (Conflict ''a task id is already attached with a different execution definition''),
                       inner)
                    else
                      let inner' = fold (attach_node pfx owner)
                                     (map (\<lambda>index. nodes ! index) topological_indices) inner
                      in (Ok Attached,
                          inner'\<lparr>owner_graphs := fmupd owner \<lparr>og_task_ids = graph_ids, og_attached = True\<rparr>
                                   (owner_graphs inner')\<rparr>))))"

text \<open>\<open>owners.remove(owner)\<close> for every task of the graph.\<close>

definition drop_owner :: "root_owner \<Rightarrow> 'id \<Rightarrow> ('p, 'o, 'id) inner \<Rightarrow> ('p, 'o, 'id) inner" where
  "drop_owner owner tid inner =
     (case fmlookup (task_owners inner) tid of
        Some owners \<Rightarrow> inner\<lparr>task_owners := fmupd tid (owners - {owner}) (task_owners inner)\<rparr>
      | None \<Rightarrow> inner)"

text \<open>The loop that sorts the task ids into \<open>(retired, retained)\<close>.\<close>

fun split_retired ::
  "'id list \<Rightarrow> 'id list \<times> 'id list \<times> ('p, 'o, 'id) inner \<Rightarrow> 'id list \<times> 'id list \<times> ('p, 'o, 'id) inner" where
  "split_retired [] acc = acc"
| "split_retired (tid # rest) (ret, kept, inner) =
     (if has_owners inner tid then split_retired rest (ret, kept @ [tid], inner)
      else split_retired rest
             (ret @ [tid], kept, inner\<lparr>task_owners := fmdrop tid (task_owners inner)\<rparr>))"

fun cancel_all ::
  "'id list \<Rightarrow> ('p, 'o, 'id) inner \<Rightarrow> unit store_result \<times> ('p, 'o, 'id) inner" where
  "cancel_all [] inner = (Ok (), inner)"
| "cancel_all (tid # rest) inner =
     (case cancel_task_locked tid ''dependency cancelled'' inner of
        (Ok _, inner') \<Rightarrow> cancel_all rest inner'
      | (Err e, inner') \<Rightarrow> (Err e, inner')
      | (Panic p, inner') \<Rightarrow> (Panic p, inner'))"

text \<open>The five removals that \<open>detach_owner\<close> and \<open>remove_task\<close> do for a task.\<close>

definition erase_task :: "'id \<Rightarrow> ('p, 'o, 'id) inner \<Rightarrow> ('p, 'o, 'id) inner" where
  "erase_task tid inner =
     remove_queue_memberships tid
       (inner\<lparr>tasks := fmdrop tid (tasks inner), remaining := fmdrop tid (remaining inner),
              dependents := remove_dependent_edges tid (fmdrop tid (dependents inner))\<rparr>)"

definition detach_owner ::
  "root_owner \<Rightarrow> detach_mode \<Rightarrow> ('p, 'o, 'id) inner \<Rightarrow>
   'id detach_outcome store_result \<times> ('p, 'o, 'id) inner" where
  "detach_owner owner mode inner =
     (case fmlookup (owner_graphs inner) owner of
        None \<Rightarrow> (Ok (not_attached mode), inner)
      | Some graph \<Rightarrow>
          let task_ids = og_task_ids graph; was_attached = og_attached graph in
          if \<not> was_attached \<and> mode = CancelMode then (Ok (not_attached mode), inner)
          else if was_attached \<and>
            list_ex (\<lambda>tid. fmlookup (tasks inner) tid = None \<or> \<not> owned_by inner tid owner) task_ids
          then (Err (CorruptData ''owner and task ownership indexes disagree''), inner)
          else
            let inner1 = (if was_attached then fold (drop_owner owner) task_ids inner else inner);
                (ret, kept, inner2) = split_retired task_ids ([], [], inner1)
            in (case mode of
                  CancelMode \<Rightarrow>
                    (case cancel_all ret inner2 of
                       (Err e, inner3) \<Rightarrow> (Err e, inner3)
                     | (Panic p, inner3) \<Rightarrow> (Panic p, inner3)
                     | (Ok _, inner3) \<Rightarrow>
                         (Ok \<lparr>detached = True, detach_mode_of = mode, retired = ret, retained = kept\<rparr>,
                          (case fmlookup (owner_graphs inner3) owner of
                             Some g \<Rightarrow> inner3\<lparr>owner_graphs :=
                                 fmupd owner (g\<lparr>og_attached := False\<rparr>) (owner_graphs inner3)\<rparr>
                           | None \<Rightarrow> inner3)))
                | RemoveMode \<Rightarrow>
                    let inner3 = fold erase_task ret inner2
                    in (Ok \<lparr>detached = True, detach_mode_of = mode, retired = ret, retained = kept\<rparr>,
                        inner3\<lparr>owner_graphs := fmdrop owner (owner_graphs inner3)\<rparr>)))"

fun inspect_tasks ::
  "'id list \<Rightarrow> ('p, 'o, 'id) inner \<Rightarrow> 'id projection_task_view list store_result" where
  "inspect_tasks [] inner = Ok []"
| "inspect_tasks (tid # rest) inner =
     (case fmlookup (tasks inner) tid of
        None \<Rightarrow> Err (CorruptData ''an attached root owner references a missing task'')
      | Some record \<Rightarrow>
          (case fmlookup (task_owners inner) tid of
             None \<Rightarrow> Err (CorruptData ''owner and task ownership indexes disagree'')
           | Some owners \<Rightarrow>
               bind_outcome (inspect_tasks rest inner) (\<lambda>views.
                 Ok (\<lparr>pv_id = tid, pv_state = state_kind (r_state record),
                      pv_owner_count = card owners\<rparr> # views))))"

definition inspect_owner ::
  "root_owner \<Rightarrow> ('p, 'o, 'id) inner \<Rightarrow> 'id projection_view option store_result" where
  "inspect_owner owner inner =
     (case fmlookup (owner_graphs inner) owner of
        None \<Rightarrow> Ok None
      | Some graph \<Rightarrow>
          if \<not> og_attached graph then Ok None
          else bind_outcome (inspect_tasks (og_task_ids graph) inner) (\<lambda>views.
                 Ok (Some \<lparr>view_owner = owner, view_tasks = views\<rparr>)))"

section \<open>Single-task operations\<close>

definition insert_state :: "'id dependency_insert_state \<Rightarrow> nat \<times> ('o, 'id) task_state \<times> 'id list" where
  "insert_state dependency_state =
     (case dependency_state of
        DepPending rem unresolved \<Rightarrow> (rem, Pending rem, unresolved)
      | DepFailed \<Rightarrow> (0, Failed ''dependency failed'' None, [])
      | DepCancelled \<Rightarrow> (0, Cancelled, []))"

definition insert_task ::
  "'id \<Rightarrow> 'p \<Rightarrow> priority \<Rightarrow> 'id list \<Rightarrow> task_execution_policy \<Rightarrow> ('p, 'o, 'id) inner \<Rightarrow>
   bool store_result \<times> ('p, 'o, 'id) inner" where
  "insert_task tid payload prio deps pol g =
     (let (rem, next_state, unresolved) =
            insert_state (resolve_dependency_insert_state (tasks g) deps);
          record = \<lparr>definition_payload = payload, definition_execution_policy = pol,
                    r_payload = Some payload, r_state = next_state, r_priority = prio,
                    r_attempt = 0, lease_until_ms = None, lease_sequence = 0,
                    r_execution_policy = pol, r_dependencies = deps\<rparr>;
          should_reset =
            (case fmlookup (tasks g) tid of
               Some existing \<Rightarrow> is_resettable (r_state existing)
             | None \<Rightarrow> False) \<and> \<not> has_owners g tid
      in if should_reset then
           let g1 = g\<lparr>dependents := push_dependents tid unresolved
                        (remove_dependent_edges tid (dependents g)),
                      remaining := fmupd tid rem (remaining g)\<rparr>
           in (Ok True, modify_task tid (\<lambda>existing. record) (remove_queue_memberships tid g1))
         else if fmlookup (tasks g) tid \<noteq> None then (Ok False, g)
         else (Ok True,
               g\<lparr>dependents := push_dependents tid unresolved (dependents g),
                 remaining := fmupd tid rem (remaining g),
                 tasks := fmupd tid record (tasks g)\<rparr>))"

definition get_state :: "'id \<Rightarrow> ('p, 'o, 'id) inner \<Rightarrow> ('o, 'id) task_state option store_result" where
  "get_state tid g = Ok (map_option r_state (fmlookup (tasks g) tid))"

definition set_state_if_running ::
  "'id \<Rightarrow> string \<Rightarrow> u32 \<Rightarrow> ('o, 'id) task_state \<Rightarrow> 'p option \<Rightarrow> ('p, 'o, 'id) inner \<Rightarrow>
   bool store_result \<times> ('p, 'o, 'id) inner" where
  "set_state_if_running tid token attempt state payload g =
     (case fmlookup (tasks g) tid of
        None \<Rightarrow> (Ok False, g)
      | Some record \<Rightarrow>
          (case r_state record of
             Running current_token current_attempt \<Rightarrow>
               if current_token \<noteq> token \<or> current_attempt \<noteq> attempt then (Ok False, g)
               else
                 let rec1 = (case payload of Some p \<Rightarrow> record\<lparr>r_payload := Some p\<rparr> | None \<Rightarrow> record);
                     rec2 = rec1\<lparr>r_state := state\<rparr>;
                     rec3 = (if is_running state then rec2 else rec2\<lparr>lease_until_ms := None\<rparr>)
                 in (Ok True, g\<lparr>tasks := fmupd tid rec3 (tasks g)\<rparr>)
           | _ \<Rightarrow> (Ok False, g)))"

definition complete_success_and_release_dependents_if_running ::
  "('id \<Rightarrow> u8 list) \<Rightarrow> 'id \<Rightarrow> string \<Rightarrow> u32 \<Rightarrow> 'o \<Rightarrow> ('p, 'o, 'id) inner \<Rightarrow>
   bool store_result \<times> ('p, 'o, 'id) inner" where
  "complete_success_and_release_dependents_if_running pfx tid token attempt output g =
     (if \<not> running_lease_matches g tid token attempt then (Ok False, g)
      else
        let g1 = remove_queue_memberships tid g in
        (case fmlookup (tasks g1) tid of
           None \<Rightarrow> (Err (CorruptData ''running task disappeared''), g1)
         | Some record \<Rightarrow>
             let g2 = g1\<lparr>tasks := fmupd tid
                        (record\<lparr>r_state := Succeeded output, lease_until_ms := None\<rparr>) (tasks g1)\<rparr>
             in (Ok True, release_dependents_locked pfx tid g2)))"

definition complete_failure_and_fail_dependents_if_running ::
  "'id \<Rightarrow> string \<Rightarrow> u32 \<Rightarrow> string \<Rightarrow> string \<Rightarrow> ('p, 'o, 'id) inner \<Rightarrow>
   bool store_result \<times> ('p, 'o, 'id) inner" where
  "complete_failure_and_fail_dependents_if_running tid token attempt err dependent_error g =
     (if \<not> running_lease_matches g tid token attempt then (Ok False, g)
      else
        let g1 = remove_queue_memberships tid g in
        (case fmlookup (tasks g1) tid of
           None \<Rightarrow> (Err (CorruptData ''running task disappeared''), g1)
         | Some record \<Rightarrow>
             let g2 = g1\<lparr>tasks := fmupd tid
                        (record\<lparr>r_state := Failed err None, lease_until_ms := None\<rparr>) (tasks g1)\<rparr>
             in (Ok True, fail_dependents_locked tid dependent_error g2)))"

definition cancel_and_fail_dependents ::
  "'id \<Rightarrow> string \<Rightarrow> ('p, 'o, 'id) inner \<Rightarrow> bool store_result \<times> ('p, 'o, 'id) inner" where
  "cancel_and_fail_dependents tid dependent_error g =
     (if has_owners g tid then
        (Err (Conflict ''an owned task must be cancelled by detaching its root owner''), g)
      else cancel_task_locked tid dependent_error g)"

definition retry_now_if_running ::
  "('id \<Rightarrow> u8 list) \<Rightarrow> 'id \<Rightarrow> string \<Rightarrow> u32 \<Rightarrow> priority \<Rightarrow> 'p \<Rightarrow> ('p, 'o, 'id) inner \<Rightarrow>
   bool store_result \<times> ('p, 'o, 'id) inner" where
  "retry_now_if_running pfx tid token attempt prio payload g =
     (case fmlookup (tasks g) tid of
        None \<Rightarrow> (Ok False, g)
      | Some record \<Rightarrow>
          (case r_state record of
             Running current_token current_attempt \<Rightarrow>
               if current_token \<noteq> token \<or> current_attempt \<noteq> attempt then (Ok False, g)
               else
                 (Ok True, push_ready_locked pfx prio tid
                    (g\<lparr>tasks := fmupd tid
                         (record\<lparr>r_payload := Some payload, r_state := Ready, lease_until_ms := None\<rparr>)
                         (tasks g)\<rparr>))
           | _ \<Rightarrow> (Ok False, g)))"

text \<open>
  The operation in a build with debug assertions: when the lease is current, the priority of the record is
  compared with the argument first. The panic unlocks the store as it was.
\<close>

definition retry_priority_asserted :: "'id \<Rightarrow> string \<Rightarrow> u32 \<Rightarrow> priority \<Rightarrow> ('p, 'o, 'id) inner \<Rightarrow> bool" where
  "retry_priority_asserted tid token attempt prio g =
     (case fmlookup (tasks g) tid of
        None \<Rightarrow> True
      | Some record \<Rightarrow> r_state record = Running token attempt \<longrightarrow> r_priority record = prio)"

definition retry_now_if_running_debug ::
  "('id \<Rightarrow> u8 list) \<Rightarrow> 'id \<Rightarrow> string \<Rightarrow> u32 \<Rightarrow> priority \<Rightarrow> 'p \<Rightarrow> ('p, 'o, 'id) inner \<Rightarrow>
   bool store_result \<times> ('p, 'o, 'id) inner" where
  "retry_now_if_running_debug pfx tid token attempt prio payload g =
     (if retry_priority_asserted tid token attempt prio g
      then retry_now_if_running pfx tid token attempt prio payload g
      else (Panic ''assertion failed: record.priority == priority'', g))"

text \<open>\<open>scheduled.entry(key).or_default().push_back(id)\<close> in key order.\<close>

fun schedule_at :: "u64 \<Rightarrow> 'id \<Rightarrow> (u64 \<times> 'id list) list \<Rightarrow> (u64 \<times> 'id list) list" where
  "schedule_at key tid [] = [(key, [tid])]"
| "schedule_at key tid ((k, ids) # rest) =
     (if key < k then (key, [tid]) # (k, ids) # rest
      else if key = k then (k, ids @ [tid]) # rest
      else (k, ids) # schedule_at key tid rest)"

definition retry_later_if_running ::
  "'id \<Rightarrow> string \<Rightarrow> u32 \<Rightarrow> string \<Rightarrow> 'p \<Rightarrow> u64 \<Rightarrow> ('p, 'o, 'id) inner \<Rightarrow>
   bool store_result \<times> ('p, 'o, 'id) inner" where
  "retry_later_if_running tid token attempt err payload next_ready_at_ms g =
     (case fmlookup (tasks g) tid of
        None \<Rightarrow> (Ok False, g)
      | Some record \<Rightarrow>
          (case r_state record of
             Running current_token current_attempt \<Rightarrow>
               if current_token \<noteq> token \<or> current_attempt \<noteq> attempt then (Ok False, g)
               else
                 (Ok True,
                  g\<lparr>tasks := fmupd tid
                       (record\<lparr>r_payload := Some payload,
                               r_state := Retrying err attempt next_ready_at_ms,
                               lease_until_ms := None\<rparr>) (tasks g),
                    scheduled := schedule_at next_ready_at_ms tid (scheduled g)\<rparr>)
           | _ \<Rightarrow> (Ok False, g)))"

definition get_view ::
  "'id \<Rightarrow> ('p, 'o, 'id) inner \<Rightarrow> (('o, 'id) task_state \<times> priority) option store_result" where
  "get_view tid g = Ok (map_option (\<lambda>r. (r_state r, r_priority r)) (fmlookup (tasks g) tid))"

definition get_view_state ::
  "'id \<Rightarrow> ('p, 'o, 'id) inner \<Rightarrow> (task_state_kind \<times> priority) option store_result" where
  "get_view_state tid g =
     Ok (map_option (\<lambda>r. (state_kind (r_state r), r_priority r)) (fmlookup (tasks g) tid))"

text \<open>\<open>order\<close> lists the keys of \<open>tasks\<close> in the iteration order of the hash map.\<close>

definition list_view_states ::
  "'id list \<Rightarrow> ('p, 'o, 'id) inner \<Rightarrow> ('id \<times> task_state_kind \<times> priority) list store_result" where
  "list_view_states order g =
     Ok (List.map_filter (\<lambda>tid. map_option (\<lambda>r. (tid, state_kind (r_state r), r_priority r))
                                 (fmlookup (tasks g) tid)) order)"

definition dependents_of :: "'id \<Rightarrow> ('p, 'o, 'id) inner \<Rightarrow> 'id list store_result" where
  "dependents_of dep g = Ok (dependents_list g dep)"

definition try_mark_ready ::
  "'id \<Rightarrow> ('p, 'o, 'id) inner \<Rightarrow> priority option store_result \<times> ('p, 'o, 'id) inner" where
  "try_mark_ready tid g =
     (if (case fmlookup (remaining g) tid of Some n \<Rightarrow> n | None \<Rightarrow> 0) \<noteq> 0 then (Ok None, g)
      else
        (case fmlookup (tasks g) tid of
           None \<Rightarrow> (Ok None, g)
         | Some record \<Rightarrow>
             if is_pending (r_state record)
             then (Ok (Some (r_priority record)),
                   g\<lparr>tasks := fmupd tid (record\<lparr>r_state := Ready\<rparr>) (tasks g)\<rparr>)
             else (Ok None, g)))"

definition push_ready ::
  "('id \<Rightarrow> u8 list) \<Rightarrow> priority \<Rightarrow> 'id \<Rightarrow> ('p, 'o, 'id) inner \<Rightarrow>
   unit store_result \<times> ('p, 'o, 'id) inner" where
  "push_ready pfx prio tid g = (Ok (), push_ready_locked pfx prio tid g)"

fun ready_queue :: "priority \<Rightarrow> ('p, 'o, 'id) inner \<Rightarrow> 'id list" where
  "ready_queue High g = ready_high g"
| "ready_queue Medium g = ready_med g"
| "ready_queue Low g = ready_low g"

fun set_ready_queue :: "priority \<Rightarrow> 'id list \<Rightarrow> ('p, 'o, 'id) inner \<Rightarrow> ('p, 'o, 'id) inner" where
  "set_ready_queue High q g = g\<lparr>ready_high := q\<rparr>"
| "set_ready_queue Medium q g = g\<lparr>ready_med := q\<rparr>"
| "set_ready_queue Low q g = g\<lparr>ready_low := q\<rparr>"

definition pop_ready ::
  "priority \<Rightarrow> ('p, 'o, 'id) inner \<Rightarrow> 'id option store_result \<times> ('p, 'o, 'id) inner" where
  "pop_ready prio g =
     (case ready_queue prio g of
        [] \<Rightarrow> (Ok None, g)
      | tid # rest \<Rightarrow> (Ok (Some tid), set_ready_queue prio rest g))"

definition take_ready ::
  "duration \<Rightarrow> u64 \<Rightarrow> 'id \<Rightarrow> string \<Rightarrow> ('p, 'o, 'id) inner \<Rightarrow>
   ('p \<times> priority \<times> u32 \<times> task_execution_policy) option store_result \<times> ('p, 'o, 'id) inner" where
  "take_ready lease now_ms tid token g = take_ready_locked lease now_ms tid token g"

definition put_payload ::
  "'id \<Rightarrow> 'p \<Rightarrow> ('p, 'o, 'id) inner \<Rightarrow> unit store_result \<times> ('p, 'o, 'id) inner" where
  "put_payload tid payload g = (Ok (), modify_task tid (\<lambda>r. r\<lparr>r_payload := Some payload\<rparr>) g)"

definition get_payload :: "'id \<Rightarrow> ('p, 'o, 'id) inner \<Rightarrow> 'p option store_result" where
  "get_payload tid g = Ok (Option.bind (fmlookup (tasks g) tid) r_payload)"

definition checkpoint_payload_if_running ::
  "'id \<Rightarrow> string \<Rightarrow> u32 \<Rightarrow> 'p \<Rightarrow> task_execution_policy \<Rightarrow> ('p, 'o, 'id) inner \<Rightarrow>
   bool store_result \<times> ('p, 'o, 'id) inner" where
  "checkpoint_payload_if_running tid token attempt payload pol g =
     (case fmlookup (tasks g) tid of
        None \<Rightarrow> (Ok False, g)
      | Some record \<Rightarrow>
          (case r_state record of
             Running current_token current_attempt \<Rightarrow>
               if current_token = token \<and> current_attempt = attempt
               then (Ok True, g\<lparr>tasks := fmupd tid
                       (record\<lparr>r_payload := Some payload, r_execution_policy := pol\<rparr>) (tasks g)\<rparr>)
               else (Ok False, g)
           | _ \<Rightarrow> (Ok False, g)))"

definition renew_lease ::
  "duration \<Rightarrow> u64 \<Rightarrow> 'id \<Rightarrow> string \<Rightarrow> u32 \<Rightarrow> ('p, 'o, 'id) inner \<Rightarrow>
   bool store_result \<times> ('p, 'o, 'id) inner" where
  "renew_lease lease now_ms tid token attempt g =
     (case fmlookup (tasks g) tid of
        None \<Rightarrow> (Ok False, g)
      | Some record \<Rightarrow>
          (case r_state record of
             Running current_token current_attempt \<Rightarrow>
               if current_token \<noteq> token \<or> current_attempt \<noteq> attempt then (Ok False, g)
               else (Ok True, g\<lparr>tasks := fmupd tid
                       (record\<lparr>lease_until_ms :=
                          Some (lease_deadline lease (r_execution_policy record) now_ms)\<rparr>) (tasks g)\<rparr>)
           | _ \<Rightarrow> (Ok False, g)))"

definition schedule ::
  "'id \<Rightarrow> u64 \<Rightarrow> ('p, 'o, 'id) inner \<Rightarrow> unit store_result \<times> ('p, 'o, 'id) inner" where
  "schedule tid not_before_ms g =
     (Ok (), g\<lparr>scheduled := schedule_at not_before_ms tid (scheduled g)\<rparr>)"

definition remove_task ::
  "'id \<Rightarrow> ('p, 'o, 'id) inner \<Rightarrow> bool store_result \<times> ('p, 'o, 'id) inner" where
  "remove_task tid g =
     (if has_owners g tid then
        (Err (Conflict ''an owned task must be removed by detaching its root owner''), g)
      else if fmlookup (tasks g) tid = None then (Ok False, g)
      else (Ok True, erase_task tid g))"

section \<open>Maintenance\<close>

fun promote_ids ::
  "('id \<Rightarrow> u8 list) \<Rightarrow> u64 \<Rightarrow> nat \<Rightarrow> 'id list \<Rightarrow> nat \<Rightarrow> ('p, 'o, 'id) inner \<Rightarrow>
   'id list \<times> nat \<times> ('p, 'o, 'id) inner" where
  "promote_ids pfx now_ms limit [] moved g = ([], moved, g)"
| "promote_ids pfx now_ms limit (tid # ids) moved g =
     (if limit \<le> moved then (tid # ids, moved, g)
      else
        (case fmlookup (tasks g) tid of
           None \<Rightarrow> promote_ids pfx now_ms limit ids moved g
         | Some record \<Rightarrow>
             (case r_state record of
                Retrying _ _ next_ready_at_ms \<Rightarrow>
                  if now_ms < next_ready_at_ms then
                    promote_ids pfx now_ms limit ids moved
                      (g\<lparr>scheduled := schedule_at next_ready_at_ms tid (scheduled g)\<rparr>)
                  else
                    promote_ids pfx now_ms limit ids (moved + 1)
                      (push_ready_locked pfx (r_priority record) tid
                        (g\<lparr>tasks := fmupd tid (record\<lparr>r_state := Ready, lease_until_ms := None\<rparr>)
                                     (tasks g)\<rparr>))
              | _ \<Rightarrow> promote_ids pfx now_ms limit ids moved g)))"

text \<open>\<open>scheduled.insert(ts, ids)\<close> in key order.\<close>

fun scheduled_insert :: "u64 \<Rightarrow> 'id list \<Rightarrow> (u64 \<times> 'id list) list \<Rightarrow> (u64 \<times> 'id list) list" where
  "scheduled_insert ts ids [] = [(ts, ids)]"
| "scheduled_insert ts ids ((k, old) # rest) =
     (if ts < k then (ts, ids) # (k, old) # rest
      else if ts = k then (ts, ids) # rest
      else (k, old) # scheduled_insert ts ids rest)"

abbreviation (input) due :: "u64 \<Rightarrow> (u64 \<times> 'id list) list \<Rightarrow> (u64 \<times> 'id list) list" where
  "due now_ms sch \<equiv> filter (\<lambda>(k, _). k \<le> now_ms) sch"

lemma scheduled_push_ready_locked [simp]: "scheduled (push_ready_locked pfx prio tid g) = scheduled g"
  by (cases prio) simp_all

lemma due_schedule_at: "now_ms < key \<Longrightarrow> due now_ms (schedule_at key tid sch) = due now_ms sch"
  by (induction key tid sch rule: schedule_at.induct) auto

lemma due_promote_ids:
  "promote_ids pfx now_ms limit ids moved g = (ids', moved', g') \<Longrightarrow>
   due now_ms (scheduled g') = due now_ms (scheduled g)"
proof (induction pfx now_ms limit ids moved g rule: promote_ids.induct)
  case (2 pfx now_ms limit tid ids moved g)
  then show ?case
    by (auto simp: due_schedule_at split: if_splits option.splits task_state.splits)
qed simp

lemma promote_ids_rest:
  "promote_ids pfx now_ms limit ids moved g = (ids', moved', g') \<Longrightarrow> ids' = [] \<or> limit \<le> moved'"
  by (induction pfx now_ms limit ids moved g rule: promote_ids.induct)
     (auto split: if_splits option.splits task_state.splits)

text \<open>The outer loop ends: each round takes a due key away or reaches the limit.\<close>

function promote_loop ::
  "('id \<Rightarrow> u8 list) \<Rightarrow> u64 \<Rightarrow> nat \<Rightarrow> nat \<Rightarrow> ('p, 'o, 'id) inner \<Rightarrow> nat \<times> ('p, 'o, 'id) inner" where
  "promote_loop pfx now_ms limit moved g =
     (if limit \<le> moved then (moved, g)
      else
        (case scheduled g of
           [] \<Rightarrow> (moved, g)
         | (ts, ids) # rest \<Rightarrow>
             if now_ms < ts then (moved, g)
             else
               let (ids', moved', g') = promote_ids pfx now_ms limit ids moved (g\<lparr>scheduled := rest\<rparr>)
               in promote_loop pfx now_ms limit moved'
                    (if ids' = [] then g'
                     else g'\<lparr>scheduled := scheduled_insert ts ids' (scheduled g')\<rparr>)))"
  by pat_completeness auto

termination
proof (relation "measure (\<lambda>(pfx, now_ms, limit, moved, g).
    if limit \<le> moved then 0 else Suc (length (due now_ms (scheduled g))))", goal_cases)
  case (2 pfx now_ms limit moved g kv rest ts ids r ids' r' moved' g')
  then have p: "promote_ids pfx now_ms limit ids moved (g\<lparr>scheduled := rest\<rparr>) = (ids', moved', g')"
    by simp
  from due_promote_ids [OF p] promote_ids_rest [OF p] 2 show ?case by auto
qed simp

definition promote_scheduled ::
  "('id \<Rightarrow> u8 list) \<Rightarrow> u64 \<Rightarrow> nat \<Rightarrow> ('p, 'o, 'id) inner \<Rightarrow>
   nat store_result \<times> ('p, 'o, 'id) inner" where
  "promote_scheduled pfx now_ms limit g =
     (let (moved, g') = promote_loop pfx now_ms limit 0 g in (Ok moved, g'))"

definition expired_entry ::
  "u64 \<Rightarrow> ('p, 'o, 'id) inner \<Rightarrow> 'id \<Rightarrow> (u64 \<times> u64 \<times> 'id) option" where
  "expired_entry now_ms g tid =
     (case fmlookup (tasks g) tid of
        None \<Rightarrow> None
      | Some record \<Rightarrow>
          if \<not> is_running (r_state record) then None
          else
            (case lease_until_ms record of
               None \<Rightarrow> None
             | Some until \<Rightarrow> if now_ms < until then None else Some (until, lease_sequence record, tid)))"

definition requeue_one :: "('id \<Rightarrow> u8 list) \<Rightarrow> 'id \<Rightarrow> ('p, 'o, 'id) inner \<Rightarrow> ('p, 'o, 'id) inner" where
  "requeue_one pfx tid g =
     (case fmlookup (tasks g) tid of
        None \<Rightarrow> g
      | Some record \<Rightarrow>
          push_ready_locked pfx (r_priority record) tid
            (g\<lparr>tasks := fmupd tid (record\<lparr>r_state := Ready, lease_until_ms := None\<rparr>) (tasks g)\<rparr>))"

text \<open>
  \<open>sort_by\<close> is a stable sort by the lease deadline, then the lease sequence number; \<open>order\<close>
  lists the keys of \<open>tasks\<close> in the iteration order of the hash map.
\<close>

definition expired_leases :: "u64 \<Rightarrow> 'id list \<Rightarrow> ('p, 'o, 'id) inner \<Rightarrow> (u64 \<times> u64 \<times> 'id) list" where
  "expired_leases now_ms order g =
     sort_key (\<lambda>(until, sq, tid). (until, sq)) (List.map_filter (expired_entry now_ms g) order)"

definition requeue_expired_leases ::
  "('id \<Rightarrow> u8 list) \<Rightarrow> 'id list \<Rightarrow> u64 \<Rightarrow> nat \<Rightarrow> ('p, 'o, 'id) inner \<Rightarrow>
   nat store_result \<times> ('p, 'o, 'id) inner" where
  "requeue_expired_leases pfx order now_ms limit g =
     (let expired = expired_leases now_ms order g
      in (Ok (min (length expired) limit),
          fold (\<lambda>(until, sq, tid). requeue_one pfx tid) (take limit expired) g))"

section \<open>The default method \<open>pop_ready_and_take\<close>\<close>

lemma ready_queue_set_ready_queue [simp]:
  "ready_queue p (set_ready_queue q xs g) = (if p = q then xs else ready_queue p g)"
  by (cases p; cases q) simp_all

lemma tasks_set_ready_queue [simp]: "tasks (set_ready_queue p xs g) = tasks g"
  by (cases p) simp_all

lemma take_ready_locked_None:
  "take_ready_locked lease now_ms tid token g = (Ok None, g') \<Longrightarrow> g' = g"
  by (auto simp: take_ready_locked_def next_sequence_def Let_def split: option.splits if_splits)

text \<open>
  The loop of the source makes two separately locked calls per round. This definition runs it
  with no other operation in between; the step relation of the theory \<open>Scheduler\<close> keeps the two
  calls apart.
\<close>

function pop_ready_and_take ::
  "duration \<Rightarrow> u64 \<Rightarrow> priority \<Rightarrow> string \<Rightarrow> ('p, 'o, 'id) inner \<Rightarrow>
   ('id \<times> 'p \<times> priority \<times> u32 \<times> task_execution_policy) option store_result \<times> ('p, 'o, 'id) inner" where
  "pop_ready_and_take lease now_ms prio token g =
     (case pop_ready prio g of
        (Ok None, g1) \<Rightarrow> (Ok None, g1)
      | (Ok (Some tid), g1) \<Rightarrow>
          (case take_ready lease now_ms tid token g1 of
             (Ok (Some (payload, priority, attempt, pol)), g2) \<Rightarrow>
               (Ok (Some (tid, payload, priority, attempt, pol)), g2)
           | (Ok None, g2) \<Rightarrow> pop_ready_and_take lease now_ms prio token g2
           | (Err e, g2) \<Rightarrow> (Err e, g2)
           | (Panic p, g2) \<Rightarrow> (Panic p, g2))
      | (Err e, g1) \<Rightarrow> (Err e, g1)
      | (Panic p, g1) \<Rightarrow> (Panic p, g1))"
  by pat_completeness auto

termination
  by (relation "measure (\<lambda>(lease, now_ms, prio, token, g). length (ready_queue prio g))")
     (auto simp: pop_ready_def take_ready_def dest!: take_ready_locked_None [OF sym] split: list.splits)

declare promote_loop.simps [simp del] pop_ready_and_take.simps [simp del]

end
