(* ===== verification/Store_Facts.thy ===== *)
theory Store_Facts
  imports Store
begin

text \<open>
  How the operations of the theory \<open>Store\<close> act on the single fields of the state: the lemmas
  that the invariant proofs of the following theories rewrite with. The collection
  \<open>store_simps\<close> holds the unfoldings that a proof asks for explicitly; facts that say a field is
  left alone are simplification rules.
\<close>

section \<open>Selectors after updates\<close>

lemma ready_queue_update [simp]:
  "ready_queue p (g\<lparr>tasks := x1\<rparr>) = ready_queue p g"
  "ready_queue p (g\<lparr>dependents := x2\<rparr>) = ready_queue p g"
  "ready_queue p (g\<lparr>remaining := x3\<rparr>) = ready_queue p g"
  "ready_queue p (g\<lparr>scheduled := x4\<rparr>) = ready_queue p g"
  "ready_queue p (g\<lparr>owner_graphs := x5\<rparr>) = ready_queue p g"
  "ready_queue p (g\<lparr>task_owners := x6\<rparr>) = ready_queue p g"
  "ready_queue p (g\<lparr>inner_next_sequence := x7\<rparr>) = ready_queue p g"
  by (cases p; simp)+

lemma push_ready_locked_fields [simp]:
  "tasks (push_ready_locked pfx prio tid g) = tasks g"
  "dependents (push_ready_locked pfx prio tid g) = dependents g"
  "remaining (push_ready_locked pfx prio tid g) = remaining g"
  "owner_graphs (push_ready_locked pfx prio tid g) = owner_graphs g"
  "task_owners (push_ready_locked pfx prio tid g) = task_owners g"
  "inner_next_sequence (push_ready_locked pfx prio tid g) = inner_next_sequence g"
  by (cases prio; simp)+

lemma ready_queue_push_ready_locked [simp]:
  "ready_queue p (push_ready_locked pfx prio tid g) =
     (if p = prio then insert_ready_sorted pfx (ready_queue p g) tid else ready_queue p g)"
  by (cases p; cases prio; simp)

lemma set_ready_queue_fields [simp]:
  "dependents (set_ready_queue p xs g) = dependents g"
  "remaining (set_ready_queue p xs g) = remaining g"
  "scheduled (set_ready_queue p xs g) = scheduled g"
  "owner_graphs (set_ready_queue p xs g) = owner_graphs g"
  "task_owners (set_ready_queue p xs g) = task_owners g"
  "inner_next_sequence (set_ready_queue p xs g) = inner_next_sequence g"
  by (cases p; simp)+

definition unschedule :: "'id \<Rightarrow> (u64 \<times> 'id list) list \<Rightarrow> (u64 \<times> 'id list) list" where
  "unschedule tid sch = filter (\<lambda>(key, queue). queue \<noteq> [])
     (map (\<lambda>(key, queue). (key, retain_task_id queue tid)) sch)"

lemma remove_queue_memberships_fields [simp]:
  "tasks (remove_queue_memberships tid g) = tasks g"
  "remaining (remove_queue_memberships tid g) = remaining g"
  "owner_graphs (remove_queue_memberships tid g) = owner_graphs g"
  "task_owners (remove_queue_memberships tid g) = task_owners g"
  "inner_next_sequence (remove_queue_memberships tid g) = inner_next_sequence g"
  "scheduled (remove_queue_memberships tid g) = unschedule tid (scheduled g)"
  by (simp_all add: remove_queue_memberships_def unschedule_def)

lemma ready_queue_remove_queue_memberships [simp]:
  "ready_queue p (remove_queue_memberships tid g) = retain_task_id (ready_queue p g) tid"
  by (cases p) (simp_all add: remove_queue_memberships_def)

lemma modify_task_fields [simp]:
  "remaining (modify_task tid f g) = remaining g"
  "scheduled (modify_task tid f g) = scheduled g"
  "owner_graphs (modify_task tid f g) = owner_graphs g"
  "task_owners (modify_task tid f g) = task_owners g"
  "inner_next_sequence (modify_task tid f g) = inner_next_sequence g"
  "ready_queue p (modify_task tid f g) = ready_queue p g"
  by (simp_all add: modify_task_def split: option.splits)

lemma lookup_modify_task [simp]:
  "fmlookup (tasks (modify_task tid f g)) t =
     (if t = tid then map_option f (fmlookup (tasks g) t) else fmlookup (tasks g) t)"
  by (simp add: modify_task_def split: option.splits)

lemma add_owner_fields [simp]:
  "tasks (add_owner owner tid g) = tasks g"
  "dependents (add_owner owner tid g) = dependents g"
  "remaining (add_owner owner tid g) = remaining g"
  "scheduled (add_owner owner tid g) = scheduled g"
  "owner_graphs (add_owner owner tid g) = owner_graphs g"
  "inner_next_sequence (add_owner owner tid g) = inner_next_sequence g"
  "ready_queue p (add_owner owner tid g) = ready_queue p g"
  by (simp_all add: add_owner_def)

lemma drop_owner_fields [simp]:
  "tasks (drop_owner owner tid g) = tasks g"
  "dependents (drop_owner owner tid g) = dependents g"
  "remaining (drop_owner owner tid g) = remaining g"
  "scheduled (drop_owner owner tid g) = scheduled g"
  "owner_graphs (drop_owner owner tid g) = owner_graphs g"
  "inner_next_sequence (drop_owner owner tid g) = inner_next_sequence g"
  "ready_queue p (drop_owner owner tid g) = ready_queue p g"
  by (simp_all add: drop_owner_def split: option.splits)

lemma fail_dependent_fields [simp]:
  "remaining (fail_dependent root err tid g) = remaining g"
  "owner_graphs (fail_dependent root err tid g) = owner_graphs g"
  "task_owners (fail_dependent root err tid g) = task_owners g"
  "inner_next_sequence (fail_dependent root err tid g) = inner_next_sequence g"
  by (simp_all add: fail_dependent_def)

lemma erase_task_fields [simp]:
  "tasks (erase_task tid g) = fmdrop tid (tasks g)"
  "remaining (erase_task tid g) = fmdrop tid (remaining g)"
  "dependents (erase_task tid g) = remove_dependent_edges tid (fmdrop tid (dependents g))"
  "scheduled (erase_task tid g) = unschedule tid (scheduled g)"
  "owner_graphs (erase_task tid g) = owner_graphs g"
  "task_owners (erase_task tid g) = task_owners g"
  "inner_next_sequence (erase_task tid g) = inner_next_sequence g"
  "ready_queue p (erase_task tid g) = retain_task_id (ready_queue p g) tid"
  by (simp_all add: erase_task_def)

section \<open>Folds and loops keep a property\<close>

lemma fold_invariant:
  "P s \<Longrightarrow> (\<And>x s. x \<in> set xs \<Longrightarrow> P s \<Longrightarrow> P (f x s)) \<Longrightarrow> P (fold f xs s)"
  by (induction xs arbitrary: s) simp_all

lemma fold_field:
  "(\<And>x s. sel (f x s) = sel s) \<Longrightarrow> sel (fold f xs s) = sel s"
  by (induction xs arbitrary: s) simp_all

lemma fail_loop_invariant:
  "P g \<Longrightarrow> (\<And>t g. P g \<Longrightarrow> P (fail_dependent root err t g)) \<Longrightarrow> P (fail_loop root err queue visited g)"
  by (induction root err queue visited g rule: fail_loop.induct) (simp_all add: Let_def)

lemma fail_loop_field:
  "(\<And>t g. sel (fail_dependent root err t g) = sel g) \<Longrightarrow>
   sel (fail_loop root err queue visited g) = sel g"
  by (induction root err queue visited g rule: fail_loop.induct) (simp_all add: Let_def)

lemma fail_dependents_locked_invariant:
  "P g \<Longrightarrow> (\<And>t g. P g \<Longrightarrow> P (fail_dependent root err t g)) \<Longrightarrow> P (fail_dependents_locked root err g)"
  unfolding fail_dependents_locked_def by (rule fail_loop_invariant)

lemma fail_dependents_locked_fields [simp]:
  "dependents (fail_dependents_locked root err g) = dependents g"
  "remaining (fail_dependents_locked root err g) = remaining g"
  "owner_graphs (fail_dependents_locked root err g) = owner_graphs g"
  "task_owners (fail_dependents_locked root err g) = task_owners g"
  "inner_next_sequence (fail_dependents_locked root err g) = inner_next_sequence g"
  by (simp_all add: fail_dependents_locked_def fail_loop_field)

lemma release_dependent_fields [simp]:
  "dependents (release_dependent pfx t g) = dependents g"
  "scheduled (release_dependent pfx t g) = scheduled g"
  "owner_graphs (release_dependent pfx t g) = owner_graphs g"
  "task_owners (release_dependent pfx t g) = task_owners g"
  "inner_next_sequence (release_dependent pfx t g) = inner_next_sequence g"
  by (simp_all add: release_dependent_def Let_def split: option.splits)

lemma release_dependents_locked_fields [simp]:
  "dependents (release_dependents_locked pfx root g) = dependents g"
  "scheduled (release_dependents_locked pfx root g) = scheduled g"
  "owner_graphs (release_dependents_locked pfx root g) = owner_graphs g"
  "task_owners (release_dependents_locked pfx root g) = task_owners g"
  "inner_next_sequence (release_dependents_locked pfx root g) = inner_next_sequence g"
  by (simp_all add: release_dependents_locked_def fold_field)

lemma promote_ids_Cons:
  "promote_ids pfx now_ms limit (t # ids) moved g =
     (if limit \<le> moved then (t # ids, moved, g)
      else
        (case map_option r_state (fmlookup (tasks g) t) of
           Some (Retrying _ _ n) \<Rightarrow>
             if now_ms < n
             then promote_ids pfx now_ms limit ids moved (g\<lparr>scheduled := schedule_at n t (scheduled g)\<rparr>)
             else promote_ids pfx now_ms limit ids (Suc moved) (requeue_one pfx t g)
         | _ \<Rightarrow> promote_ids pfx now_ms limit ids moved g))"
  by (auto simp: requeue_one_def split: option.splits task_state.splits)

lemma promote_ids_invariant:
  assumes later: "\<And>t r e a n g. P g \<Longrightarrow> fmlookup (tasks g) t = Some r \<Longrightarrow> r_state r = Retrying e a n \<Longrightarrow>
       now_ms < n \<Longrightarrow> P (g\<lparr>scheduled := schedule_at n t (scheduled g)\<rparr>)"
    and now: "\<And>t r e a n g. P g \<Longrightarrow> fmlookup (tasks g) t = Some r \<Longrightarrow> r_state r = Retrying e a n \<Longrightarrow>
       n \<le> now_ms \<Longrightarrow> P (requeue_one pfx t g)"
    and "promote_ids pfx now_ms limit ids moved g = (ids', moved', g')" "P g"
  shows "P g'"
  using assms(3,4)
proof (induction ids arbitrary: moved g)
  case (Cons t ids)
  show ?case
  proof (cases "map_option r_state (fmlookup (tasks g) t)")
    case None
    then show ?thesis using Cons by (auto simp: promote_ids_Cons split: if_splits)
  next
    case (Some st)
    then obtain r where r: "fmlookup (tasks g) t = Some r" "r_state r = st" by auto
    show ?thesis
      using Cons r later [OF Cons.prems(2) r(1)] now [OF Cons.prems(2) r(1)]
      by (cases st) (auto simp: promote_ids_Cons simp del: promote_ids.simps split: if_splits)
  qed
qed simp

lemma promote_loop_invariant:
  assumes later: "\<And>t r e a n g. P g \<Longrightarrow> fmlookup (tasks g) t = Some r \<Longrightarrow> r_state r = Retrying e a n \<Longrightarrow>
       now_ms < n \<Longrightarrow> P (g\<lparr>scheduled := schedule_at n t (scheduled g)\<rparr>)"
    and now: "\<And>t r e a n g. P g \<Longrightarrow> fmlookup (tasks g) t = Some r \<Longrightarrow> r_state r = Retrying e a n \<Longrightarrow>
       n \<le> now_ms \<Longrightarrow> P (requeue_one pfx t g)"
    and pop: "\<And>g kv rest. P g \<Longrightarrow> scheduled g = kv # rest \<Longrightarrow> P (g\<lparr>scheduled := rest\<rparr>)"
    and put: "\<And>g ts ids. P g \<Longrightarrow> ids \<noteq> [] \<Longrightarrow> P (g\<lparr>scheduled := scheduled_insert ts ids (scheduled g)\<rparr>)"
    and "P g"
  shows "P (snd (promote_loop pfx now_ms limit moved g))"
  using \<open>P g\<close>
proof (induction "length (filter (\<lambda>(k, _). k \<le> now_ms) (scheduled g))" arbitrary: moved g rule: less_induct)
  case less
  show ?case
  proof (cases "limit \<le> moved \<or> scheduled g = [] \<or> now_ms < fst (hd (scheduled g))")
    case True
    then show ?thesis using less.prems
      by (subst promote_loop.simps) (auto split: list.splits)
  next
    case False
    then obtain ts ids rest where sch: "scheduled g = (ts, ids) # rest" and ts: "\<not> now_ms < ts"
      and lim: "\<not> limit \<le> moved" by (cases "scheduled g") auto
    obtain ids' moved' g' where p: "promote_ids pfx now_ms limit ids moved (g\<lparr>scheduled := rest\<rparr>) = (ids', moved', g')"
      by (metis prod_cases3)
    have P': "P g'" using later now p pop [OF less.prems sch] by (rule promote_ids_invariant)
    have step: "promote_loop pfx now_ms limit moved g = promote_loop pfx now_ms limit moved'
        (if ids' = [] then g' else g'\<lparr>scheduled := scheduled_insert ts ids' (scheduled g')\<rparr>)"
      using sch ts lim p by (subst promote_loop.simps) simp
    show ?thesis
    proof (cases "ids' = []")
      case True
      then show ?thesis using step less.hyps [of g' moved'] P' due_promote_ids [OF p] sch ts by simp
    next
      case False
      then have "limit \<le> moved'" using promote_ids_rest [OF p] by blast
      then show ?thesis using step False put [OF P' False]
        by (simp add: promote_loop.simps [of pfx now_ms limit moved'])
    qed
  qed
qed

section \<open>Dependency resolution\<close>

definition state_at :: "('id, ('p, 'o, 'id) task_record) fmap \<Rightarrow> 'id \<Rightarrow> ('o, 'id) task_state option" where
  "state_at ts t = map_option r_state (fmlookup ts t)"

definition resettable_at :: "('id, ('p, 'o, 'id) task_record) fmap \<Rightarrow> 'id \<Rightarrow> bool" where
  "resettable_at ts t = (case state_at ts t of Some st \<Rightarrow> is_resettable st | None \<Rightarrow> False)"

definition succeeded_at :: "('id, ('p, 'o, 'id) task_record) fmap \<Rightarrow> 'id \<Rightarrow> bool" where
  "succeeded_at ts t = (case state_at ts t of Some st \<Rightarrow> is_succeeded st | None \<Rightarrow> False)"

definition terminal_at :: "('id, ('p, 'o, 'id) task_record) fmap \<Rightarrow> 'id \<Rightarrow> bool" where
  "terminal_at ts t = (case state_at ts t of Some st \<Rightarrow> is_terminal st | None \<Rightarrow> False)"

lemma state_at_fmupd [simp]:
  "state_at (fmupd t r ts) t' = (if t' = t then Some (r_state r) else state_at ts t')"
  by (simp add: state_at_def)

lemma state_at_fmdrop [simp]: "state_at (fmdrop t ts) t' = (if t' = t then None else state_at ts t')"
  by (simp add: state_at_def)

lemma state_at_lookup: "fmlookup ts t = Some r \<Longrightarrow> state_at ts t = Some (r_state r)"
  by (simp add: state_at_def)

lemma state_at_None: "state_at ts t = None \<longleftrightarrow> fmlookup ts t = None"
  by (simp add: state_at_def)

lemma terminal_at_iff: "terminal_at ts t \<longleftrightarrow> succeeded_at ts t \<or> resettable_at ts t"
  by (simp add: terminal_at_def succeeded_at_def resettable_at_def is_terminal_iff split: option.splits)

lemma at_fmupd [simp]:
  "resettable_at (fmupd t r ts) t' = (if t' = t then is_resettable (r_state r) else resettable_at ts t')"
  "succeeded_at (fmupd t r ts) t' = (if t' = t then is_succeeded (r_state r) else succeeded_at ts t')"
  "terminal_at (fmupd t r ts) t' = (if t' = t then is_terminal (r_state r) else terminal_at ts t')"
  by (simp_all add: resettable_at_def succeeded_at_def terminal_at_def)

lemma at_lookup:
  "fmlookup ts t = Some r \<Longrightarrow> resettable_at ts t = is_resettable (r_state r)"
  "fmlookup ts t = Some r \<Longrightarrow> succeeded_at ts t = is_succeeded (r_state r)"
  "fmlookup ts t = Some r \<Longrightarrow> terminal_at ts t = is_terminal (r_state r)"
  by (simp_all add: resettable_at_def succeeded_at_def terminal_at_def state_at_def)

lemma resettable_not_succeeded: "resettable_at ts t \<Longrightarrow> \<not> succeeded_at ts t"
  by (auto simp: resettable_at_def succeeded_at_def is_succeeded_iff split: option.splits)

lemma resolve_deps_pending:
  "\<forall>d \<in> set deps. \<not> resettable_at ts d \<Longrightarrow>
   resolve_deps ts deps acc =
     DepPending (length acc + length (filter (\<lambda>d. \<not> succeeded_at ts d) deps))
       (acc @ filter (\<lambda>d. \<not> succeeded_at ts d) deps)"
proof (induction deps arbitrary: acc)
  case (Cons d deps)
  then have "\<not> resettable_at ts d" and rest: "\<forall>d \<in> set deps. \<not> resettable_at ts d" by simp_all
  then show ?case
    using Cons.IH [OF rest]
    by (auto simp: resettable_at_def succeeded_at_def state_at_def split: option.splits task_state.splits)
qed simp

lemma resolve_deps_not_pending:
  "\<exists>d \<in> set deps. resettable_at ts d \<Longrightarrow> resolve_deps ts deps acc \<in> {DepFailed, DepCancelled}"
proof (induction deps arbitrary: acc)
  case (Cons d deps)
  then show ?case
    by (auto simp: resettable_at_def state_at_def split: option.splits task_state.splits)
qed simp

lemma resolve_pending:
  "\<forall>d \<in> set deps. \<not> resettable_at ts d \<Longrightarrow>
   resolve_dependency_insert_state ts deps =
     (let open_deps = filter (\<lambda>d. \<not> succeeded_at ts d) deps
      in DepPending (length open_deps) open_deps)"
  by (simp add: resolve_dependency_insert_state_def resolve_deps_pending Let_def)

lemma resolve_not_pending:
  "\<exists>d \<in> set deps. resettable_at ts d \<Longrightarrow>
   resolve_dependency_insert_state ts deps \<in> {DepFailed, DepCancelled}"
  unfolding resolve_dependency_insert_state_def by (rule resolve_deps_not_pending)

lemma reset_node_Ok:
  assumes "\<forall>d \<in> set (node_dependencies node). \<not> resettable_at (tasks g) d"
    and "fmlookup (tasks g) (node_id node) = Some r"
  defines "open_deps \<equiv> filter (\<lambda>d. \<not> succeeded_at (tasks g) d) (node_dependencies node)"
  shows "reset_node pfx node g =
    (Ok (), (if open_deps = [] then push_ready_locked pfx (r_priority r) (node_id node) else id)
      (g\<lparr>dependents := push_dependents (node_id node) open_deps (dependents g),
         tasks := fmupd (node_id node)
           (r\<lparr>r_payload := Some (new_payload (node_task node)),
              r_state := (if open_deps = [] then Ready else Pending (length open_deps)),
              r_attempt := 0, lease_until_ms := None, r_execution_policy := node_policy node,
              r_dependencies := node_dependencies node\<rparr>) (tasks g),
         remaining := fmupd (node_id node) (length open_deps) (remaining g)\<rparr>))"
  using assms(2) unfolding reset_node_def resolve_pending [OF assms(1)] open_deps_def
  by (simp add: Let_def)

lemma attach_node_fresh:
  assumes "fmlookup (tasks g) (node_id node) = None"
    and "\<forall>d \<in> set (node_dependencies node). \<not> resettable_at (tasks g) d"
  defines "open_deps \<equiv> filter (\<lambda>d. \<not> succeeded_at (tasks g) d) (node_dependencies node)"
  shows "attach_node pfx owner node g =
    add_owner owner (node_id node)
      ((if open_deps = [] then push_ready_locked pfx (new_priority (node_task node)) (node_id node) else id)
        (g\<lparr>dependents := push_dependents (node_id node) open_deps (dependents g),
           remaining := fmupd (node_id node) (length open_deps) (remaining g),
           tasks := fmupd (node_id node)
             (fresh_record node (if open_deps = [] then Ready else Pending (length open_deps))) (tasks g)\<rparr>))"
  using assms(1) unfolding attach_node_def resolve_pending [OF assms(2)] open_deps_def by (simp add: Let_def)

lemma fresh_record_sel [simp]:
  "r_state (fresh_record n st) = st" "r_payload (fresh_record n st) = Some (new_payload (node_task n))"
  "r_priority (fresh_record n st) = new_priority (node_task n)" "r_attempt (fresh_record n st) = 0"
  "lease_until_ms (fresh_record n st) = None" "r_execution_policy (fresh_record n st) = node_policy n"
  "r_dependencies (fresh_record n st) = node_dependencies n"
  "definition_payload (fresh_record n st) = new_payload (node_task n)"
  "definition_execution_policy (fresh_record n st) = node_policy n"
  by (simp_all add: fresh_record_def)

end
