(* ===== verification/Store_Inv.thy ===== *)
theory Store_Inv
  imports Store_Facts
begin

text \<open>
  The invariants of the task store that hold whatever sequence of operations is run on it, in
  any interleaving: the queues stay sorted, a task has a lease deadline exactly while it runs,
  and the two ownership indexes agree. The operations are collected in the datatype \<open>store_op\<close>
  with one constructor per state-changing method of the \<open>TaskStore\<close> trait, so a run of the store
  is a list of operations and \<open>reachable\<close> is the set of states some run leads to.
\<close>

section \<open>Operations as data\<close>

datatype ('p, 'o, 'id) store_op =
    AttachGraph root_owner "('p, 'id) nodes"
  | DetachOwner root_owner detach_mode
  | InsertTask 'id 'p priority "'id list" task_execution_policy
  | SetStateIfRunning 'id string u32 "('o, 'id) task_state" "'p option"
  | CompleteSuccess 'id string u32 'o
  | CompleteFailure 'id string u32 string string
  | CancelTask 'id string
  | RetryNow 'id string u32 priority 'p
  | RetryLater 'id string u32 string 'p u64
  | TryMarkReady 'id
  | PushReady priority 'id
  | PopReady priority
  | TakeReady u64 'id string
  | PutPayload 'id 'p
  | CheckpointPayload 'id string u32 'p task_execution_policy
  | RenewLease u64 'id string u32
  | Schedule 'id u64
  | PromoteScheduled u64 nat
  | RequeueExpired "'id list" u64 nat
  | RemoveTask 'id

fun void :: "'a store_result \<times> 's \<Rightarrow> unit store_result \<times> 's" where
  "void (Ok _, s) = (Ok (), s)"
| "void (Err e, s) = (Err e, s)"
| "void (Panic p, s) = (Panic p, s)"

lemma snd_void [simp]: "snd (void r) = snd r"
  by (cases r rule: void.cases) simp_all

fun exec_op ::
  "('id \<Rightarrow> u8 list) \<Rightarrow> duration \<Rightarrow> ('p, 'o, 'id) store_op \<Rightarrow> ('p, 'o, 'id) inner \<Rightarrow>
   unit store_result \<times> ('p, 'o, 'id) inner" where
  "exec_op pfx lease (AttachGraph owner nodes) g = void (attach_graph pfx owner nodes g)"
| "exec_op pfx lease (DetachOwner owner mode) g = void (detach_owner owner mode g)"
| "exec_op pfx lease (InsertTask t p prio deps pol) g = void (insert_task t p prio deps pol g)"
| "exec_op pfx lease (SetStateIfRunning t tok a st p) g = void (set_state_if_running t tok a st p g)"
| "exec_op pfx lease (CompleteSuccess t tok a out) g =
     void (complete_success_and_release_dependents_if_running pfx t tok a out g)"
| "exec_op pfx lease (CompleteFailure t tok a err derr) g =
     void (complete_failure_and_fail_dependents_if_running t tok a err derr g)"
| "exec_op pfx lease (CancelTask t derr) g = void (cancel_and_fail_dependents t derr g)"
| "exec_op pfx lease (RetryNow t tok a prio p) g = void (retry_now_if_running pfx t tok a prio p g)"
| "exec_op pfx lease (RetryLater t tok a err p n) g = void (retry_later_if_running t tok a err p n g)"
| "exec_op pfx lease (TryMarkReady t) g = void (try_mark_ready t g)"
| "exec_op pfx lease (PushReady prio t) g = void (push_ready pfx prio t g)"
| "exec_op pfx lease (PopReady prio) g = void (pop_ready prio g)"
| "exec_op pfx lease (TakeReady now t tok) g = void (take_ready lease now t tok g)"
| "exec_op pfx lease (PutPayload t p) g = void (put_payload t p g)"
| "exec_op pfx lease (CheckpointPayload t tok a p pol) g =
     void (checkpoint_payload_if_running t tok a p pol g)"
| "exec_op pfx lease (RenewLease now t tok a) g = void (renew_lease lease now t tok a g)"
| "exec_op pfx lease (Schedule t n) g = void (schedule t n g)"
| "exec_op pfx lease (PromoteScheduled now limit) g = void (promote_scheduled pfx now limit g)"
| "exec_op pfx lease (RequeueExpired order now limit) g =
     void (requeue_expired_leases pfx order now limit g)"
| "exec_op pfx lease (RemoveTask t) g = void (remove_task t g)"

text \<open>The operations in a build with debug assertions, and what is asserted.\<close>

definition exec_op_debug ::
  "('id \<Rightarrow> u8 list) \<Rightarrow> duration \<Rightarrow> ('p, 'o, 'id) store_op \<Rightarrow> ('p, 'o, 'id) inner \<Rightarrow>
   unit store_result \<times> ('p, 'o, 'id) inner" where
  "exec_op_debug pfx lease op g =
     (case op of
        RetryNow t tok a prio p \<Rightarrow> void (retry_now_if_running_debug pfx t tok a prio p g)
      | _ \<Rightarrow> exec_op pfx lease op g)"

fun op_asserted :: "('p, 'o, 'id) store_op \<Rightarrow> ('p, 'o, 'id) inner \<Rightarrow> bool" where
  "op_asserted (RetryNow t tok a prio p) g = retry_priority_asserted t tok a prio g"
| "op_asserted _ g = True"

lemma exec_op_debug_eq:
  "if op_asserted op g then exec_op_debug pfx lease op g = exec_op pfx lease op g
   else \<exists>msg. exec_op_debug pfx lease op g = (Panic msg, g)"
  by (cases op) (auto simp: exec_op_debug_def retry_now_if_running_debug_def)

text \<open>
  What callers promise. \<open>set_state_if_running\<close> is called by the default methods of the trait
  only, with the states \<open>Ready\<close> and \<open>Retrying\<close>; a caller that forged a \<open>Running\<close> state would break
  the lease invariant. \<open>insert_task\<close> is called with a dependency list without repetitions:
  \<open>submit_with_execution_policy\<close> drops them.
\<close>

fun op_allowed :: "('p, 'o, 'id) store_op \<Rightarrow> bool" where
  "op_allowed (SetStateIfRunning _ _ _ st _) = (\<not> is_running st)"
| "op_allowed (InsertTask _ _ _ deps _) = distinct deps"
| "op_allowed _ = True"

inductive reachable ::
  "('id \<Rightarrow> u8 list) \<Rightarrow> duration \<Rightarrow> ('p, 'o, 'id) inner \<Rightarrow> bool" for pfx lease where
  reachable_init: "reachable pfx lease with_lease"
| reachable_step: "reachable pfx lease g \<Longrightarrow> op_allowed op \<Longrightarrow>
     reachable pfx lease (snd (exec_op pfx lease op g))"

section \<open>Queues and records\<close>

definition sched_ok :: "(u64 \<times> 'id list) list \<Rightarrow> bool" where
  "sched_ok sch = (sorted_wrt (<) (map fst sch) \<and> [] \<notin> snd ` set sch)"

definition queues_ok :: "('id \<Rightarrow> u8 list) \<Rightarrow> ('p, 'o, 'id) inner \<Rightarrow> bool" where
  "queues_ok pfx g = ((\<forall>p. sorted (map pfx (ready_queue p g))) \<and> sched_ok (scheduled g))"

definition rec_ok :: "('p, 'o, 'id) task_record \<Rightarrow> bool" where
  "rec_ok r =
     ((is_running (r_state r) \<longleftrightarrow> lease_until_ms r \<noteq> None) \<and>
      (\<forall>tok a. r_state r = Running tok a \<longrightarrow> a = r_attempt r) \<and>
      r_payload r \<noteq> None)"

definition recs_ok :: "('id, ('p, 'o, 'id) task_record) fmap \<Rightarrow> bool" where
  "recs_ok ts = (\<forall>t r. fmlookup ts t = Some r \<longrightarrow> rec_ok r)"

definition base_inv :: "('id \<Rightarrow> u8 list) \<Rightarrow> ('p, 'o, 'id) inner \<Rightarrow> bool" where
  "base_inv pfx g = (queues_ok pfx g \<and> recs_ok (tasks g))"

lemma recs_ok_fmupd [intro]: "recs_ok ts \<Longrightarrow> rec_ok r \<Longrightarrow> recs_ok (fmupd t r ts)"
  by (auto simp: recs_ok_def)

lemma recs_ok_fmdrop [intro]: "recs_ok ts \<Longrightarrow> recs_ok (fmdrop t ts)"
  by (auto simp: recs_ok_def split: if_splits)

lemma recs_ok_lookup: "recs_ok ts \<Longrightarrow> fmlookup ts t = Some r \<Longrightarrow> rec_ok r"
  by (auto simp: recs_ok_def)

lemma rec_ok_update:
  "rec_ok r \<Longrightarrow> \<not> is_running st \<Longrightarrow> rec_ok (r\<lparr>r_state := st, lease_until_ms := None\<rparr>)"
  "rec_ok r \<Longrightarrow> \<not> is_running (r_state r) \<Longrightarrow> \<not> is_running st \<Longrightarrow> rec_ok (r\<lparr>r_state := st\<rparr>)"
  "rec_ok r \<Longrightarrow> rec_ok (r\<lparr>r_payload := Some p\<rparr>)"
  by (auto simp: rec_ok_def is_running_iff)

lemma sched_ok_schedule_at: "sched_ok sch \<Longrightarrow> sched_ok (schedule_at k t sch)"
proof (induction k t sch rule: schedule_at.induct)
  case (2 key t k ids rest)
  have keys: "set (map fst (schedule_at key t rest)) = insert key (set (map fst rest))"
    by (induction key t rest rule: schedule_at.induct) auto
  show ?case using 2 keys by (auto simp: sched_ok_def)
qed (simp add: sched_ok_def)

lemma sched_ok_scheduled_insert: "sched_ok sch \<Longrightarrow> ids \<noteq> [] \<Longrightarrow> sched_ok (scheduled_insert k ids sch)"
proof (induction k ids sch rule: scheduled_insert.induct)
  case (2 ts ids k old rest)
  have keys: "set (map fst (scheduled_insert ts ids rest)) = insert ts (set (map fst rest))"
    by (induction ts ids rest rule: scheduled_insert.induct) auto
  show ?case using 2 keys by (auto simp: sched_ok_def)
qed (simp add: sched_ok_def)

lemma sched_ok_unschedule: "sched_ok sch \<Longrightarrow> sched_ok (unschedule t sch)"
  by (induction sch) (auto simp: sched_ok_def unschedule_def)

lemma sched_ok_tl: "sched_ok (kv # sch) \<Longrightarrow> sched_ok sch"
  by (simp add: sched_ok_def)

lemma queues_ok_push [intro]: "queues_ok pfx g \<Longrightarrow> queues_ok pfx (push_ready_locked pfx prio t g)"
  by (simp add: queues_ok_def insert_ready_sorted_sorted)

lemma queues_ok_unqueue [intro]: "queues_ok pfx g \<Longrightarrow> queues_ok pfx (remove_queue_memberships t g)"
  by (simp add: queues_ok_def retain_task_id_def sorted_map_filter sched_ok_unschedule)

lemma queues_ok_update [simp]:
  "queues_ok pfx (g\<lparr>tasks := x1\<rparr>) = queues_ok pfx g"
  "queues_ok pfx (g\<lparr>dependents := x2\<rparr>) = queues_ok pfx g"
  "queues_ok pfx (g\<lparr>remaining := x3\<rparr>) = queues_ok pfx g"
  "queues_ok pfx (g\<lparr>owner_graphs := x5\<rparr>) = queues_ok pfx g"
  "queues_ok pfx (g\<lparr>task_owners := x6\<rparr>) = queues_ok pfx g"
  "queues_ok pfx (g\<lparr>inner_next_sequence := x7\<rparr>) = queues_ok pfx g"
  "queues_ok pfx (modify_task t f g) = queues_ok pfx g"
  "queues_ok pfx (add_owner owner t g) = queues_ok pfx g"
  "queues_ok pfx (drop_owner owner t g) = queues_ok pfx g"
  by (simp_all add: queues_ok_def)

lemma queues_ok_scheduled: "queues_ok pfx g \<Longrightarrow> sched_ok sch \<Longrightarrow> queues_ok pfx (g\<lparr>scheduled := sch\<rparr>)"
  by (simp add: queues_ok_def)

lemma queues_ok_pop: "queues_ok pfx g \<Longrightarrow> ready_queue p g = t # q \<Longrightarrow> queues_ok pfx (set_ready_queue p q g)"
  unfolding queues_ok_def by (auto split: if_splits) (metis list.simps(9) sorted_wrt.simps(2))

lemma recs_ok_modify_task:
  "recs_ok (tasks g) \<Longrightarrow> (\<And>r. fmlookup (tasks g) t = Some r \<Longrightarrow> rec_ok (f r)) \<Longrightarrow>
   recs_ok (tasks (modify_task t f g))"
  by (auto simp: recs_ok_def)

subsection \<open>Helpers keep the invariant\<close>

lemma base_inv_update [simp]:
  "base_inv pfx (g\<lparr>dependents := x2\<rparr>) = base_inv pfx g"
  "base_inv pfx (g\<lparr>remaining := x3\<rparr>) = base_inv pfx g"
  "base_inv pfx (g\<lparr>owner_graphs := x5\<rparr>) = base_inv pfx g"
  "base_inv pfx (g\<lparr>task_owners := x6\<rparr>) = base_inv pfx g"
  "base_inv pfx (g\<lparr>inner_next_sequence := x7\<rparr>) = base_inv pfx g"
  "base_inv pfx (add_owner owner t g) = base_inv pfx g"
  "base_inv pfx (drop_owner owner t g) = base_inv pfx g"
  by (simp_all add: base_inv_def)

lemma base_inv_push [inv_intros]: "base_inv pfx g \<Longrightarrow> base_inv pfx (push_ready_locked pfx prio t g)"
  by (auto simp: base_inv_def)

lemma base_inv_unqueue [inv_intros]: "base_inv pfx g \<Longrightarrow> base_inv pfx (remove_queue_memberships t g)"
  by (auto simp: base_inv_def)

lemma base_inv_tasks [inv_intros]:
  "base_inv pfx g \<Longrightarrow> tasks g = ts \<Longrightarrow> rec_ok r \<Longrightarrow> base_inv pfx (g\<lparr>tasks := fmupd t r ts\<rparr>)"
  by (auto simp: base_inv_def)

lemma base_inv_lookup: "base_inv pfx g \<Longrightarrow> fmlookup (tasks g) t = Some r \<Longrightarrow> rec_ok r"
  by (auto simp: base_inv_def dest: recs_ok_lookup)

lemma base_inv_modify_task [inv_intros]:
  "base_inv pfx g \<Longrightarrow> (\<And>r. fmlookup (tasks g) t = Some r \<Longrightarrow> rec_ok (f r)) \<Longrightarrow>
   base_inv pfx (modify_task t f g)"
  by (simp add: base_inv_def recs_ok_modify_task)

lemma base_inv_scheduled [inv_intros]:
  "base_inv pfx g \<Longrightarrow> sched_ok sch \<Longrightarrow> base_inv pfx (g\<lparr>scheduled := sch\<rparr>)"
  by (auto simp: base_inv_def queues_ok_scheduled)

lemma base_inv_sched_tl: "base_inv pfx g \<Longrightarrow> scheduled g = kv # rest \<Longrightarrow> sched_ok rest"
  by (auto simp: base_inv_def queues_ok_def dest: sched_ok_tl)

lemma base_inv_sched_ok: "base_inv pfx g \<Longrightarrow> sched_ok (scheduled g)"
  by (simp add: base_inv_def queues_ok_def)

lemma base_inv_requeue_one [inv_intros]: "base_inv pfx g \<Longrightarrow> base_inv pfx (requeue_one pfx t g)"
  by (auto simp: requeue_one_def split: option.splits
      intro!: inv_intros rec_ok_update dest: base_inv_lookup)

lemma base_inv_release_dependent [inv_intros]:
  "base_inv pfx g \<Longrightarrow> base_inv pfx (release_dependent pfx t g)"
  by (auto simp: release_dependent_def Let_def is_pending_iff split: option.splits
      intro!: inv_intros rec_ok_update dest: base_inv_lookup)

lemma base_inv_release_dependents_locked [inv_intros]:
  "base_inv pfx g \<Longrightarrow> base_inv pfx (release_dependents_locked pfx root g)"
  unfolding release_dependents_locked_def by (rule fold_invariant) (auto intro: inv_intros)

lemma base_inv_fail_dependent [inv_intros]:
  "base_inv pfx g \<Longrightarrow> base_inv pfx (fail_dependent root err t g)"
  by (auto simp: fail_dependent_def split: option.splits
      intro!: inv_intros rec_ok_update dest: base_inv_lookup)

lemma base_inv_fail_dependents_locked [inv_intros]:
  "base_inv pfx g \<Longrightarrow> base_inv pfx (fail_dependents_locked root err g)"
  by (rule fail_dependents_locked_invariant) (simp_all add: base_inv_fail_dependent)

lemma base_inv_cancel_task_locked [inv_intros]:
  "base_inv pfx g \<Longrightarrow> base_inv pfx (snd (cancel_task_locked t err g))"
  by (auto simp: cancel_task_locked_def Let_def split: option.splits
      intro!: inv_intros rec_ok_update dest: base_inv_lookup)

lemma rec_ok_fresh_record: "\<not> is_running st \<Longrightarrow> rec_ok (fresh_record node st)"
  by (auto simp: rec_ok_def fresh_record_def)

lemma base_inv_attach_node [inv_intros]:
  "base_inv pfx g \<Longrightarrow> base_inv pfx (attach_node pfx owner node g)"
  by (auto simp: attach_node_def Let_def split: option.splits dependency_insert_state.splits
      intro!: inv_intros rec_ok_fresh_record)

lemma base_inv_reset_node:
  "base_inv pfx g \<Longrightarrow> base_inv pfx (snd (reset_node pfx node g))"
  by (auto simp: reset_node_def Let_def rec_ok_def split: option.splits dependency_insert_state.splits
      intro!: inv_intros)

lemma base_inv_reset_nodes:
  "base_inv pfx g \<Longrightarrow> base_inv pfx (snd (reset_nodes pfx ids nodes g))"
proof (induction pfx ids nodes g rule: reset_nodes.induct)
  case (2 pfx ids node rest g)
  obtain r g' where rg: "reset_node pfx node g = (r, g')" by fastforce
  then have "base_inv pfx g'" using base_inv_reset_node [OF 2(3), of node] by simp
  then show ?case using 2 rg by (cases r) auto
qed simp

lemma base_inv_reset_attached_terminal_nodes [inv_intros]:
  assumes "base_inv pfx g"
  shows "base_inv pfx (snd (reset_attached_terminal_nodes pfx nodes topo g))"
proof -
  let ?clear = "\<lambda>tid i. (remove_queue_memberships tid i)
      \<lparr>dependents := remove_dependent_edges tid (dependents i)\<rparr>"
  have "base_inv pfx (fold ?clear ids g)" for ids
    using assms by (rule fold_invariant) (auto intro: inv_intros)
  then have "base_inv pfx g'" if "reset_nodes pfx S ns (fold ?clear ids g) = (r, g')" for S ns ids r g'
    using base_inv_reset_nodes [of pfx "fold ?clear ids g" S ns] that by simp
  then show ?thesis
    by (auto simp: reset_attached_terminal_nodes_def Let_def assms split: prod.splits outcome.splits)
qed

subsection \<open>Operations keep the invariant\<close>

lemma base_inv_fold_erase [inv_intros]: "base_inv pfx g \<Longrightarrow> base_inv pfx (fold erase_task ids g)"
  by (rule fold_invariant) (auto simp: erase_task_def base_inv_def)

lemma base_inv_split_retired:
  "split_retired ids (ret, kept, g) = (ret', kept', g') \<Longrightarrow> base_inv pfx g \<Longrightarrow> base_inv pfx g'"
  by (induction ids "(ret, kept, g)" arbitrary: ret kept g rule: split_retired.induct)
     (auto split: if_splits)

lemma base_inv_cancel_all:
  "base_inv pfx g \<Longrightarrow> base_inv pfx (snd (cancel_all ids g))"
proof (induction ids arbitrary: g)
  case (Cons t ids)
  obtain r g' where rg: "cancel_task_locked t ''dependency cancelled'' g = (r, g')" by fastforce
  then have "base_inv pfx g'"
    using base_inv_cancel_task_locked [OF Cons.prems, of t "''dependency cancelled''"] by simp
  then show ?case using Cons rg by (cases r) auto
qed simp

lemma base_inv_attach_graph: "base_inv pfx g \<Longrightarrow> base_inv pfx (snd (attach_graph pfx owner nodes g))"
proof -
  assume inv: "base_inv pfx g"
  have "base_inv pfx (fold (attach_node pfx owner) ns g)" for ns
    using inv by (rule fold_invariant) (auto intro: inv_intros)
  moreover have "base_inv pfx g'" if "reset_attached_terminal_nodes pfx ns topo g = (r, g')" for ns topo r g'
    using base_inv_reset_attached_terminal_nodes [OF inv, of ns topo] that by simp
  ultimately show ?thesis
    using inv by (auto simp: attach_graph_def Let_def split: outcome.splits option.splits prod.splits)
qed

lemma base_inv_detach_owner: "base_inv pfx g \<Longrightarrow> base_inv pfx (snd (detach_owner owner mode g))"
proof -
  assume inv: "base_inv pfx g"
  have drop: "base_inv pfx (fold (drop_owner owner) ids g)" for ids
    using inv by (rule fold_invariant) simp
  have cancel: "base_inv pfx g''" if "cancel_all ids g' = (r, g'')" "base_inv pfx g'" for ids g' r g''
    using base_inv_cancel_all [OF that(2), of ids] that(1) by simp
  show ?thesis
    using inv drop
    by (auto simp: detach_owner_def Let_def split: option.splits prod.splits detach_mode.splits outcome.splits
        intro!: base_inv_fold_erase dest: base_inv_split_retired cancel)
qed

lemma base_inv_insert_task: "base_inv pfx g \<Longrightarrow> base_inv pfx (snd (insert_task t p prio deps pol g))"
  by (auto simp: insert_task_def insert_state_def Let_def rec_ok_def
      split: dependency_insert_state.splits option.splits intro!: inv_intros)

lemma running_lease_matches_Some:
  "running_lease_matches g t tok a \<longleftrightarrow>
   (\<exists>r. fmlookup (tasks g) t = Some r \<and> r_state r = Running tok a)"
  by (auto simp: running_lease_matches_def split: option.splits task_state.splits)

lemma base_inv_fenced:
  assumes "base_inv pfx g"
  shows "\<not> is_running st \<Longrightarrow> base_inv pfx (snd (set_state_if_running t tok a st p g))"
    and "base_inv pfx (snd (complete_success_and_release_dependents_if_running pfx t tok a out g))"
    and "base_inv pfx (snd (complete_failure_and_fail_dependents_if_running t tok a err derr g))"
    and "base_inv pfx (snd (retry_now_if_running pfx t tok a prio pl g))"
    and "base_inv pfx (snd (retry_later_if_running t tok a err pl n g))"
    and "base_inv pfx (snd (checkpoint_payload_if_running t tok a pl pol g))"
    and "base_inv pfx (snd (renew_lease lease now t tok a g))"
proof -
  note simps = Let_def rec_ok_def base_inv_sched_ok sched_ok_schedule_at
  note splits = option.splits task_state.splits
  show "\<not> is_running st \<Longrightarrow> base_inv pfx (snd (set_state_if_running t tok a st p g))"
    using assms base_inv_lookup [OF assms, of t]
    by (auto simp: set_state_if_running_def simps split: splits intro!: inv_intros)
  show "base_inv pfx (snd (complete_success_and_release_dependents_if_running pfx t tok a out g))"
    using assms
    by (auto simp: complete_success_and_release_dependents_if_running_def Let_def split: splits
        intro!: inv_intros rec_ok_update dest: base_inv_lookup)
  show "base_inv pfx (snd (complete_failure_and_fail_dependents_if_running t tok a err derr g))"
    using assms
    by (auto simp: complete_failure_and_fail_dependents_if_running_def Let_def split: splits
        intro!: inv_intros rec_ok_update dest: base_inv_lookup)
  show "base_inv pfx (snd (retry_now_if_running pfx t tok a prio pl g))"
    using assms by (auto simp: retry_now_if_running_def simps split: splits intro!: inv_intros)
  show "base_inv pfx (snd (retry_later_if_running t tok a err pl n g))"
    using assms by (auto simp: retry_later_if_running_def simps split: splits intro!: inv_intros)
  show "base_inv pfx (snd (checkpoint_payload_if_running t tok a pl pol g))"
    using assms base_inv_lookup [OF assms, of t]
    by (auto simp: checkpoint_payload_if_running_def simps split: splits intro!: inv_intros)
  show "base_inv pfx (snd (renew_lease lease now t tok a g))"
    using assms base_inv_lookup [OF assms, of t]
    by (auto simp: renew_lease_def simps split: splits intro!: inv_intros)
qed

lemma base_inv_take_ready: "base_inv pfx g \<Longrightarrow> base_inv pfx (snd (take_ready lease now t tok g))"
  by (auto simp: take_ready_def take_ready_locked_def next_sequence_def Let_def rec_ok_def
      split: option.splits intro!: inv_intros)

lemma base_inv_promote_scheduled:
  assumes "base_inv pfx g"
  shows "base_inv pfx (snd (promote_scheduled pfx now limit g))"
proof -
  have "base_inv pfx (snd (promote_loop pfx now limit 0 g))"
    using assms
    by (rule promote_loop_invariant [rotated -1])
       (auto intro!: inv_intros sched_ok_schedule_at sched_ok_scheduled_insert
         dest: base_inv_sched_ok base_inv_sched_tl)
  then show ?thesis by (simp add: promote_scheduled_def case_prod_unfold Let_def)
qed

lemma base_inv_requeue_expired:
  "base_inv pfx g \<Longrightarrow> base_inv pfx (snd (requeue_expired_leases pfx order now limit g))"
  unfolding requeue_expired_leases_def Let_def snd_conv
  by (rule fold_invariant) (auto intro: inv_intros)

lemma base_inv_try_mark_ready: "base_inv pfx g \<Longrightarrow> base_inv pfx (snd (try_mark_ready t g))"
  by (auto simp: try_mark_ready_def is_pending_iff split: option.splits
      intro!: inv_intros rec_ok_update dest: base_inv_lookup)

lemma base_inv_pop_ready: "base_inv pfx g \<Longrightarrow> base_inv pfx (snd (pop_ready prio g))"
  by (auto simp: pop_ready_def base_inv_def queues_ok_pop split: list.splits)

lemma base_inv_small:
  assumes "base_inv pfx g"
  shows "base_inv pfx (snd (cancel_and_fail_dependents t derr g))"
    and "base_inv pfx (snd (push_ready pfx prio t g))"
    and "base_inv pfx (snd (put_payload t p g))"
    and "base_inv pfx (snd (schedule t n g))"
    and "base_inv pfx (snd (remove_task t g))"
proof -
  show "base_inv pfx (snd (cancel_and_fail_dependents t derr g))"
    using assms by (simp add: cancel_and_fail_dependents_def base_inv_cancel_task_locked)
  show "base_inv pfx (snd (push_ready pfx prio t g))"
    using assms by (simp add: push_ready_def base_inv_push)
  show "base_inv pfx (snd (put_payload t p g))"
    using assms by (auto simp: put_payload_def intro!: inv_intros rec_ok_update dest: base_inv_lookup)
  show "base_inv pfx (snd (schedule t n g))"
    using assms by (auto simp: schedule_def intro!: inv_intros sched_ok_schedule_at dest: base_inv_sched_ok)
  show "base_inv pfx (snd (remove_task t g))"
    using assms base_inv_fold_erase [OF assms, of "[t]"] by (simp add: remove_task_def)
qed

lemmas base_inv_ops =
  base_inv_attach_graph base_inv_detach_owner base_inv_insert_task base_inv_fenced base_inv_take_ready
  base_inv_promote_scheduled base_inv_requeue_expired base_inv_try_mark_ready base_inv_pop_ready
  base_inv_small

lemma base_inv_exec_op:
  "base_inv pfx g \<Longrightarrow> op_allowed op \<Longrightarrow> base_inv pfx (snd (exec_op pfx lease op g))"
  by (cases op) (simp_all add: base_inv_ops)

lemma with_lease_fields [simp]:
  "ready_queue p with_lease = []" "tasks with_lease = fmempty" "scheduled with_lease = []"
  "owner_graphs with_lease = fmempty" "task_owners with_lease = fmempty"
  "dependents with_lease = fmempty" "remaining with_lease = fmempty"
  "inner_next_sequence with_lease = 0"
  by (cases p; simp add: with_lease_def)+

lemma base_inv_init: "base_inv pfx with_lease"
  by (simp add: base_inv_def queues_ok_def recs_ok_def sched_ok_def)

lemma reachable_base_inv: "reachable pfx lease g \<Longrightarrow> base_inv pfx g"
  by (induction rule: reachable.induct) (auto intro: base_inv_init base_inv_exec_op)

end
