(* ===== verification/Store_Owners.thy ===== *)
theory Store_Owners
  imports Store_Inv
begin

text \<open>
  Ownership in the task store. Two indexes record which root owns which task: \<open>owner_graphs\<close>
  (owner to tasks) and \<open>task_owners\<close> (task to owners). The invariant \<open>own_inv\<close> says that they
  agree and that owned tasks exist; every operation keeps it. It follows that the defensive
  branches of the store (\<open>CorruptData\<close>, \<open>unreachable!\<close>, \<open>expect\<close>) are never taken, and what
  attaching, detaching and inspecting an owner do.
\<close>

section \<open>The invariant\<close>

definition owned :: "('id, root_owner set) fmap \<Rightarrow> 'id \<Rightarrow> root_owner \<Rightarrow> bool" where
  "owned W t owner = (case fmlookup W t of Some owners \<Rightarrow> owner \<in> owners | None \<Rightarrow> False)"

definition attached_to :: "(root_owner, 'id owner_graph) fmap \<Rightarrow> root_owner \<Rightarrow> 'id \<Rightarrow> bool" where
  "attached_to G owner t =
     (case fmlookup G owner of
        Some graph \<Rightarrow> og_attached graph \<and> t \<in> set (og_task_ids graph)
      | None \<Rightarrow> False)"

definition own_inv :: "('p, 'o, 'id) inner \<Rightarrow> bool" where
  "own_inv g =
     ((\<forall>t owner. owned (task_owners g) t owner \<longleftrightarrow> attached_to (owner_graphs g) owner t) \<and>
      (\<forall>t owner. owned (task_owners g) t owner \<longrightarrow> t \<in> fmdom' (tasks g)) \<and>
      (\<forall>owner graph. fmlookup (owner_graphs g) owner = Some graph \<longrightarrow> distinct (og_task_ids graph)))"

lemma owned_by_owned: "owned_by g t owner = owned (task_owners g) t owner"
  by (simp add: owned_by_def owned_def)

lemma has_owners_owned: "has_owners g t \<longleftrightarrow> (\<exists>owner. owned (task_owners g) t owner)"
  by (auto simp: has_owners_def owned_def split: option.splits)

lemma own_inv_mono:
  assumes "own_inv g" "owner_graphs g' = owner_graphs g" "task_owners g' = task_owners g"
    and "fmdom' (tasks g) \<subseteq> fmdom' (tasks g')"
  shows "own_inv g'"
  using assms unfolding own_inv_def by (metis (no_types) subsetD)

lemma in_fmdom'_iff: "t \<in> fmdom' m \<longleftrightarrow> fmlookup m t \<noteq> None"
  by (simp add: fmlookup_dom'_iff)

lemma own_inv_exists: "own_inv g \<Longrightarrow> owned (task_owners g) t owner \<Longrightarrow> fmlookup (tasks g) t \<noteq> None"
  unfolding own_inv_def in_fmdom'_iff by blast

section \<open>Operations that leave ownership alone\<close>

definition same_owners :: "('p, 'o, 'id) inner \<Rightarrow> ('p, 'o, 'id) inner \<Rightarrow> bool" where
  "same_owners g g' =
     (owner_graphs g' = owner_graphs g \<and> task_owners g' = task_owners g \<and>
      fmdom' (tasks g) \<subseteq> fmdom' (tasks g'))"

lemma same_owners_refl [simp]: "same_owners g g"
  by (simp add: same_owners_def)

lemma same_owners_trans [trans]: "same_owners g g' \<Longrightarrow> same_owners g' g'' \<Longrightarrow> same_owners g g''"
  by (auto simp: same_owners_def)

lemma same_owners_inv: "same_owners g g' \<Longrightarrow> own_inv g \<Longrightarrow> own_inv g'"
  by (auto simp: same_owners_def elim: own_inv_mono)

lemma fmdom'_modify_task [simp]: "fmdom' (tasks (modify_task t f g)) = fmdom' (tasks g)"
  by (auto simp: in_fmdom'_iff split: if_splits)

lemma fmdom'_fail_dependent [simp]: "fmdom' (tasks (fail_dependent root err t g)) = fmdom' (tasks g)"
  by (simp add: fail_dependent_def)

lemma fmdom'_fail_dependents_locked [simp]:
  "fmdom' (tasks (fail_dependents_locked root err g)) = fmdom' (tasks g)"
  unfolding fail_dependents_locked_def
  by (rule fail_loop_field [where sel = "\<lambda>g. fmdom' (tasks g)"]) simp

lemma fmdom'_requeue_one [simp]: "fmdom' (tasks (requeue_one pfx t g)) = fmdom' (tasks g)"
  by (auto simp: requeue_one_def in_fmdom'_iff split: option.splits)

lemma requeue_one_fields [simp]:
  "owner_graphs (requeue_one pfx t g) = owner_graphs g"
  "task_owners (requeue_one pfx t g) = task_owners g"
  "dependents (requeue_one pfx t g) = dependents g"
  "remaining (requeue_one pfx t g) = remaining g"
  "scheduled (requeue_one pfx t g) = scheduled g"
  "inner_next_sequence (requeue_one pfx t g) = inner_next_sequence g"
  by (simp_all add: requeue_one_def split: option.splits)

lemma fmdom'_release_dependent [simp]: "fmdom' (tasks (release_dependent pfx t g)) = fmdom' (tasks g)"
  by (auto simp: release_dependent_def Let_def in_fmdom'_iff split: option.splits)

lemma fmdom'_release_dependents_locked [simp]:
  "fmdom' (tasks (release_dependents_locked pfx root g)) = fmdom' (tasks g)"
  unfolding release_dependents_locked_def
  by (rule fold_field [where sel = "\<lambda>g. fmdom' (tasks g)"]) simp

lemma same_owners_cancel_task_locked: "same_owners g (snd (cancel_task_locked t err g))"
  by (auto simp: cancel_task_locked_def same_owners_def Let_def split: option.splits)

lemma same_owners_insert_task: "same_owners g (snd (insert_task t p prio deps pol g))"
  by (auto simp: insert_task_def same_owners_def Let_def split: option.splits prod.splits)

lemma same_owners_fenced:
  "same_owners g (snd (set_state_if_running t tok a st p g))"
  "same_owners g (snd (complete_success_and_release_dependents_if_running pfx t tok a out g))"
  "same_owners g (snd (complete_failure_and_fail_dependents_if_running t tok a err derr g))"
  "same_owners g (snd (retry_now_if_running pfx t tok a prio pl g))"
  "same_owners g (snd (retry_later_if_running t tok a err pl n g))"
  "same_owners g (snd (checkpoint_payload_if_running t tok a pl pol g))"
  "same_owners g (snd (renew_lease lease now t tok a g))"
  by (auto simp: same_owners_def Let_def set_state_if_running_def
      complete_success_and_release_dependents_if_running_def
      complete_failure_and_fail_dependents_if_running_def retry_now_if_running_def
      retry_later_if_running_def checkpoint_payload_if_running_def renew_lease_def
      split: option.splits task_state.splits)

lemma same_owners_take_ready: "same_owners g (snd (take_ready lease now t tok g))"
  by (auto simp: take_ready_def take_ready_locked_def next_sequence_def Let_def same_owners_def
      split: option.splits)

lemma same_owners_promote_scheduled: "same_owners g (snd (promote_scheduled pfx now limit g))"
proof -
  have "same_owners g (snd (promote_loop pfx now limit 0 g))"
    by (rule promote_loop_invariant) (simp_all add: same_owners_def)
  then show ?thesis by (simp add: promote_scheduled_def case_prod_unfold Let_def)
qed

lemma same_owners_requeue_expired: "same_owners g (snd (requeue_expired_leases pfx order now limit g))"
  unfolding requeue_expired_leases_def Let_def snd_conv
  by (rule fold_invariant) (auto simp: same_owners_def)

lemma same_owners_small:
  "same_owners g (snd (cancel_and_fail_dependents t derr g))"
  "same_owners g (snd (try_mark_ready t g))"
  "same_owners g (snd (push_ready pfx prio t g))"
  "same_owners g (snd (pop_ready prio g))"
  "same_owners g (snd (put_payload t p g))"
  "same_owners g (snd (schedule t n g))"
  by (simp_all add: cancel_and_fail_dependents_def same_owners_cancel_task_locked)
     (auto simp: same_owners_def try_mark_ready_def push_ready_def pop_ready_def put_payload_def
       schedule_def split: option.splits list.splits)

lemmas same_owners_ops =
  same_owners_insert_task same_owners_fenced same_owners_take_ready same_owners_promote_scheduled
  same_owners_requeue_expired same_owners_small

lemma own_inv_remove_task: "own_inv g \<Longrightarrow> own_inv (snd (remove_task t g))"
  by (auto simp: remove_task_def own_inv_def has_owners_owned in_fmdom'_iff)

section \<open>Attaching\<close>

lemma owned_add_owner [simp]:
  "owned (task_owners (add_owner owner t g)) t' owner' \<longleftrightarrow>
   owned (task_owners g) t' owner' \<or> t' = t \<and> owner' = owner"
  by (auto simp: add_owner_def owned_def split: option.splits)

lemma attach_node_fields [simp]:
  "owner_graphs (attach_node pfx owner node g) = owner_graphs g"
  "owned (task_owners (attach_node pfx owner node g)) t owner' \<longleftrightarrow>
     owned (task_owners g) t owner' \<or> t = node_id node \<and> owner' = owner"
  "fmdom' (tasks (attach_node pfx owner node g)) = insert (node_id node) (fmdom' (tasks g))"
  by (auto simp: attach_node_def Let_def in_fmdom'_iff split: prod.splits option.splits)

lemma fold_attach_node_fields:
  "owner_graphs (fold (attach_node pfx owner) ns g) = owner_graphs g"
  "owned (task_owners (fold (attach_node pfx owner) ns g)) t owner' \<longleftrightarrow>
     owned (task_owners g) t owner' \<or> t \<in> node_id ` set ns \<and> owner' = owner"
  "fmdom' (tasks (fold (attach_node pfx owner) ns g)) = node_id ` set ns \<union> fmdom' (tasks g)"
  by (induction ns arbitrary: g) auto

lemma same_owners_reset_node: "reset_node pfx node g = (r, g') \<Longrightarrow> same_owners g g'"
  by (auto simp: reset_node_def Let_def same_owners_def
      split: option.splits dependency_insert_state.splits if_splits)

lemma same_owners_reset_nodes: "reset_nodes pfx ids ns g = (r, g') \<Longrightarrow> same_owners g g'"
proof (induction ns arbitrary: g)
  case (Cons node ns)
  obtain r1 g1 where r1: "reset_node pfx node g = (r1, g1)" by fastforce
  from same_owners_reset_node [OF this] Cons show ?case
    by (cases r1) (auto simp: r1 split: if_splits dest: same_owners_trans)
qed simp

lemma same_owners_reset_attached_terminal_nodes:
  assumes "reset_attached_terminal_nodes pfx nodes topo g = (r, g')"
  shows "same_owners g g'"
proof -
  let ?clear = "\<lambda>tid i. (remove_queue_memberships tid i)
      \<lparr>dependents := remove_dependent_edges tid (dependents i)\<rparr>"
  have "same_owners g (fold ?clear ids g)" for ids
    by (rule fold_invariant) (auto simp: same_owners_def)
  then have "same_owners g g'" if "reset_nodes pfx S ns (fold ?clear ids g) = (r, g')" for S ns ids r
    using same_owners_reset_nodes [OF that] same_owners_trans by blast
  then show ?thesis
    using assms
    by (auto simp: reset_attached_terminal_nodes_def Let_def split: prod.splits outcome.splits if_splits)
qed

lemma own_inv_attach_graph:
  assumes "own_inv g"
  shows "own_inv (snd (attach_graph pfx owner nodes0 g))"
proof -
  have fresh: "own_inv (g'\<lparr>owner_graphs := fmupd owner
        \<lparr>og_task_ids = map (\<lambda>i. node_id (nodes ! i)) ord, og_attached = True\<rparr> (owner_graphs g')\<rparr>)"
    if "normalize_and_validate_graph owner nodes0 = Ok nodes" "graph_topological_indices nodes = Some ord"
      "fmlookup (owner_graphs g) owner = None"
      "g' = fold (attach_node pfx owner) (map ((!) nodes) ord) g" for nodes ord g'
  proof -
    have "\<not> owned (task_owners g) t owner" for t
      using assms that(3) by (auto simp: own_inv_def attached_to_def)
    moreover have "distinct (map (\<lambda>i. node_id (nodes ! i)) ord)"
      using that(1,2) by (rule graph_topological_ids)
    ultimately show ?thesis
      using assms that(4)
      by (auto simp: own_inv_def fold_attach_node_fields attached_to_def image_image split: option.splits)
  qed
  show ?thesis
    using assms fresh same_owners_inv [OF same_owners_reset_attached_terminal_nodes assms]
    by (auto simp: attach_graph_def Let_def split: outcome.splits option.splits prod.splits)
qed

section \<open>Detaching\<close>

lemma owned_drop_owner [simp]:
  "owned (task_owners (drop_owner owner t g)) t' owner' \<longleftrightarrow>
   owned (task_owners g) t' owner' \<and> \<not> (t' = t \<and> owner' = owner)"
  by (auto simp: drop_owner_def owned_def split: option.splits)

lemma fold_drop_owner:
  "owned (task_owners (fold (drop_owner owner) ts g)) t owner' \<longleftrightarrow>
     owned (task_owners g) t owner' \<and> \<not> (t \<in> set ts \<and> owner' = owner)"
  "tasks (fold (drop_owner owner) ts g) = tasks g"
  "owner_graphs (fold (drop_owner owner) ts g) = owner_graphs g"
  "dependents (fold (drop_owner owner) ts g) = dependents g"
  "remaining (fold (drop_owner owner) ts g) = remaining g"
  "scheduled (fold (drop_owner owner) ts g) = scheduled g"
  "ready_queue p (fold (drop_owner owner) ts g) = ready_queue p g"
  by (induction ts arbitrary: g) auto

text \<open>Which tasks \<open>split_retired\<close> retires: those without owners.\<close>

lemma split_retired_eq:
  "split_retired ts (ret, kept, g) =
     (ret @ filter (\<lambda>t. \<not> has_owners g t) ts, kept @ filter (has_owners g) ts,
      g\<lparr>task_owners := fmdrop_set {t \<in> set ts. \<not> has_owners g t} (task_owners g)\<rparr>)"
proof (induction ts arbitrary: ret kept g)
  case (Cons t ts)
  show ?case
  proof (cases "has_owners g t")
    case True
    then have "{t' \<in> set (t # ts). \<not> has_owners g t'} = {t' \<in> set ts. \<not> has_owners g t'}" by auto
    then show ?thesis using True Cons by simp
  next
    case False
    let ?g = "g\<lparr>task_owners := fmdrop t (task_owners g)\<rparr>"
    have same: "has_owners ?g t' = has_owners g t'" for t'
      using False by (auto simp: has_owners_def split: option.splits)
    have "{t' \<in> set (t # ts). \<not> has_owners g t'} = insert t {t' \<in> set ts. \<not> has_owners g t'}"
      using False by auto
    then have "fmdrop_set {t' \<in> set (t # ts). \<not> has_owners g t'} (task_owners g) =
        fmdrop_set {t' \<in> set ts. \<not> has_owners g t'} (fmdrop t (task_owners g))"
      by (auto intro!: fmap_ext)
    then show ?thesis using False Cons [of "ret @ [t]" kept ?g] by (simp add: same)
  qed
qed simp

lemma cancel_task_locked_Ok: "\<exists>b. fst (cancel_task_locked t err g) = Ok b"
  by (auto simp: cancel_task_locked_def Let_def split: option.splits)

lemma cancel_all_eq:
  "cancel_all ts g = (Ok (), fold (\<lambda>t g. snd (cancel_task_locked t ''dependency cancelled'' g)) ts g)"
proof (induction ts arbitrary: g)
  case (Cons t ts)
  obtain b g' where "cancel_task_locked t ''dependency cancelled'' g = (Ok b, g')"
    using cancel_task_locked_Ok by (metis prod.collapse)
  then show ?case using Cons by simp
qed simp

lemma same_owners_cancel_all: "same_owners g (snd (cancel_all ts g))"
  unfolding cancel_all_eq snd_conv
  by (rule fold_invariant) (auto intro: same_owners_trans same_owners_cancel_task_locked)

definition other_owner :: "('p, 'o, 'id) inner \<Rightarrow> root_owner \<Rightarrow> 'id \<Rightarrow> bool" where
  "other_owner g owner t = (\<exists>owner'. owner' \<noteq> owner \<and> owned (task_owners g) t owner')"

text \<open>The state right before the tasks that lost their last owner are cancelled or erased.\<close>

definition released :: "root_owner \<Rightarrow> 'id list \<Rightarrow> ('p, 'o, 'id) inner \<Rightarrow> ('p, 'o, 'id) inner" where
  "released owner ts g =
     (let g' = fold (drop_owner owner) ts g
      in g'\<lparr>task_owners := fmdrop_set {t \<in> set ts. \<not> other_owner g owner t} (task_owners g')\<rparr>)"

lemma owned_released:
  "owned (task_owners (released owner ts g)) t owner' \<longleftrightarrow>
   owned (task_owners g) t owner' \<and> \<not> (t \<in> set ts \<and> owner' = owner)"
proof -
  have "owned (task_owners (released owner ts g)) t owner' \<longleftrightarrow>
      \<not> (t \<in> set ts \<and> \<not> other_owner g owner t) \<and>
      owned (task_owners (fold (drop_owner owner) ts g)) t owner'"
    by (auto simp: released_def Let_def owned_def)
  also have "\<dots> \<longleftrightarrow> owned (task_owners g) t owner' \<and> \<not> (t \<in> set ts \<and> owner' = owner)"
    by (auto simp: fold_drop_owner other_owner_def)
  finally show ?thesis .
qed

lemma released_fields [simp]:
  "tasks (released owner ts g) = tasks g"
  "owner_graphs (released owner ts g) = owner_graphs g"
  "dependents (released owner ts g) = dependents g"
  "remaining (released owner ts g) = remaining g"
  "scheduled (released owner ts g) = scheduled g"
  "ready_queue p (released owner ts g) = ready_queue p g"
  by (simp_all add: released_def Let_def fold_drop_owner)

lemma own_inv_graph_tasks:
  assumes "own_inv g" "fmlookup (owner_graphs g) owner = Some graph" "og_attached graph"
    "t \<in> set (og_task_ids graph)"
  shows "owned (task_owners g) t owner" "fmlookup (tasks g) t \<noteq> None"
proof -
  have "attached_to (owner_graphs g) owner t" using assms(2-4) by (simp add: attached_to_def)
  then show "owned (task_owners g) t owner" using assms(1) by (simp add: own_inv_def)
  then show "fmlookup (tasks g) t \<noteq> None"
    using assms(1) unfolding own_inv_def in_fmdom'_iff by blast
qed

lemma own_inv_not_owned:
  assumes "own_inv g" "fmlookup (owner_graphs g) owner = Some graph" "\<not> og_attached graph"
  shows "\<not> owned (task_owners g) t owner"
  using assms by (auto simp: own_inv_def attached_to_def)

lemma drop_owner_id: "\<not> owned (task_owners g) t owner \<Longrightarrow> drop_owner owner t g = g"
proof (cases "fmlookup (task_owners g) t")
  case (Some owners)
  assume "\<not> owned (task_owners g) t owner"
  then have "owners - {owner} = owners" using Some by (auto simp: owned_def)
  moreover have "fmupd t owners (task_owners g) = task_owners g" by (rule fmap_ext) (use Some in auto)
  ultimately show ?thesis using Some by (simp add: drop_owner_def)
qed (simp add: drop_owner_def)

lemma detach_owner_eq:
  assumes inv: "own_inv g" and graph: "fmlookup (owner_graphs g) owner = Some graph"
    and mode: "og_attached graph \<or> mode = RemoveMode"
  defines "ts \<equiv> og_task_ids graph"
  defines "ret \<equiv> filter (\<lambda>t. \<not> other_owner g owner t) ts"
  defines "g1 \<equiv> released owner ts g"
  shows "detach_owner owner mode g =
    (Ok \<lparr>detached = True, detach_mode_of = mode, retired = ret, retained = filter (other_owner g owner) ts\<rparr>,
     (case mode of
        CancelMode \<Rightarrow>
          (let g2 = fold (\<lambda>t g. snd (cancel_task_locked t ''dependency cancelled'' g)) ret g1
           in g2\<lparr>owner_graphs := fmupd owner (graph\<lparr>og_attached := False\<rparr>) (owner_graphs g2)\<rparr>)
      | RemoveMode \<Rightarrow>
          (let g2 = fold erase_task ret g1
           in g2\<lparr>owner_graphs := fmdrop owner (owner_graphs g2)\<rparr>)))"
proof -
  let ?g = "if og_attached graph then fold (drop_owner owner) ts g else g"
  have drop: "?g = fold (drop_owner owner) ts g"
  proof (cases "og_attached graph")
    case False
    then have "drop_owner owner t g = g" for t
      using own_inv_not_owned [OF inv graph] by (simp add: drop_owner_id)
    then have "fold (drop_owner owner) ts g = g" by (induction ts) simp_all
    with False show ?thesis by simp
  qed simp
  have has: "has_owners (fold (drop_owner owner) ts g) t = other_owner g owner t" if "t \<in> set ts" for t
    using that by (auto simp: has_owners_owned fold_drop_owner other_owner_def)
  have split: "split_retired ts ([], [], ?g) = (ret, filter (other_owner g owner) ts, g1)"
    unfolding drop split_retired_eq ret_def g1_def released_def Let_def append_Nil
    using has by (simp cong: filter_cong conj_cong)
  have ok: "\<not> (og_attached graph \<and>
      list_ex (\<lambda>t. fmlookup (tasks g) t = None \<or> \<not> owned_by g t owner) (og_task_ids graph))"
    using own_inv_graph_tasks [OF inv graph] by (auto simp: list_ex_iff owned_by_owned)
  have "owner_graphs (fold (\<lambda>t g. snd (cancel_task_locked t ''dependency cancelled'' g)) ret g1) = owner_graphs g"
    using same_owners_cancel_all [of g1 ret] by (simp add: cancel_all_eq same_owners_def g1_def)
  then show ?thesis
    using graph mode ok split unfolding detach_owner_def ts_def
    by (cases mode) (auto simp: cancel_all_eq Let_def)
qed

lemma own_inv_retire:
  assumes "own_inv g"
    and "\<And>t owner'. owned W t owner' \<longleftrightarrow> owned (task_owners g) t owner' \<and> owner' \<noteq> owner"
    and "task_owners g' = W"
    and "\<And>owner'. owner' \<noteq> owner \<Longrightarrow> fmlookup (owner_graphs g') owner' = fmlookup (owner_graphs g) owner'"
    and "\<And>graph. fmlookup (owner_graphs g') owner = Some graph \<Longrightarrow>
      \<not> og_attached graph \<and> distinct (og_task_ids graph)"
    and "\<And>t owner'. owned W t owner' \<Longrightarrow> t \<in> fmdom' (tasks g')"
  shows "own_inv g'"
proof -
  have "owned (task_owners g') t owner' \<longleftrightarrow> attached_to (owner_graphs g') owner' t" for t owner'
    using assms(1-5) by (cases "owner' = owner") (auto simp: own_inv_def attached_to_def split: option.splits)
  moreover have "distinct (og_task_ids graph)" if "fmlookup (owner_graphs g') owner' = Some graph" for owner' graph
    using assms(1,4,5) that by (cases "owner' = owner") (auto simp: own_inv_def)
  ultimately show ?thesis using assms(3,6) by (simp add: own_inv_def)
qed

lemma own_inv_detach_owner:
  assumes inv: "own_inv g"
  shows "own_inv (snd (detach_owner owner mode g))"
proof (cases "\<exists>graph. fmlookup (owner_graphs g) owner = Some graph \<and> (og_attached graph \<or> mode = RemoveMode)")
  case False
  then show ?thesis
    using inv by (cases mode) (auto simp: detach_owner_def Let_def split: option.splits)
next
  case True
  then obtain graph where graph: "fmlookup (owner_graphs g) owner = Some graph"
    and mode: "og_attached graph \<or> mode = RemoveMode" by blast
  let ?ts = "og_task_ids graph"
  let ?ret = "filter (\<lambda>t. \<not> other_owner g owner t) ?ts"
  let ?g1 = "released owner ?ts g"
  let ?cancelled = "fold (\<lambda>t g. snd (cancel_task_locked t ''dependency cancelled'' g)) ?ret ?g1"
  have owner_gone: "owned (task_owners ?g1) t owner' \<longleftrightarrow> owned (task_owners g) t owner' \<and> owner' \<noteq> owner"
    for t owner'
    using inv graph by (auto simp: owned_released own_inv_def attached_to_def)
  have same: "owner_graphs ?cancelled = owner_graphs g" "task_owners ?cancelled = task_owners ?g1"
    "fmdom' (tasks g) \<subseteq> fmdom' (tasks ?cancelled)"
    using same_owners_cancel_all [of ?g1 ?ret] by (simp_all add: cancel_all_eq same_owners_def)
  have erased: "tasks (fold erase_task ts' g') = fmdrop_set (set ts') (tasks g')"
    "owner_graphs (fold erase_task ts' g') = owner_graphs g'"
    "task_owners (fold erase_task ts' g') = task_owners g'" for ts' and g' :: "('a, 'b, 'c) inner"
    by (induction ts' arbitrary: g') (auto intro!: fmap_ext)
  have dom: "t \<in> fmdom' (tasks g)" "other_owner g owner t" if "owned (task_owners ?g1) t owner'" for t owner'
    using inv owner_gone that unfolding own_inv_def other_owner_def by blast+
  show ?thesis
  proof (cases mode)
    case CancelMode
    have eq: "snd (detach_owner owner mode g) = ?cancelled\<lparr>owner_graphs :=
        fmupd owner (graph\<lparr>og_attached := False\<rparr>) (owner_graphs ?cancelled)\<rparr>"
      using detach_owner_eq [OF inv graph mode] CancelMode by (simp add: Let_def)
    show ?thesis
      unfolding eq
      by (rule own_inv_retire [OF inv owner_gone])
         (use same graph inv dom in \<open>auto simp: own_inv_def\<close>)
  next
    case RemoveMode
    have eq: "snd (detach_owner owner mode g) = (fold erase_task ?ret ?g1)
        \<lparr>owner_graphs := fmdrop owner (owner_graphs (fold erase_task ?ret ?g1))\<rparr>"
      using detach_owner_eq [OF inv graph mode] RemoveMode by (simp add: Let_def)
    show ?thesis
      unfolding eq
      by (rule own_inv_retire [OF inv owner_gone])
         (use inv dom in \<open>auto simp: own_inv_def erased in_fmdom'_iff\<close>)
  qed
qed

lemma own_inv_exec_op: "own_inv g \<Longrightarrow> own_inv (snd (exec_op pfx lease op g))"
  by (cases op)
     (simp_all add: own_inv_attach_graph own_inv_detach_owner own_inv_remove_task,
      (rule same_owners_inv, rule same_owners_ops, assumption)+)

lemma own_inv_init: "own_inv with_lease"
  by (simp add: own_inv_def owned_def attached_to_def)

lemma reachable_own_inv: "reachable pfx lease g \<Longrightarrow> own_inv g"
  by (induction rule: reachable.induct) (auto intro: own_inv_init own_inv_exec_op)

section \<open>The defensive branches are unreachable\<close>

text \<open>What the recovery loop relies on at each node: its dependencies are done with.\<close>

definition reset_ready ::
  "('id \<Rightarrow> 'id set) \<Rightarrow> 'id set \<Rightarrow> ('p, 'id) nodes \<Rightarrow> 'id set \<Rightarrow> ('p, 'o, 'id) inner \<Rightarrow> bool" where
  "reset_ready D seen ns ids g =
     (deps_before D seen (map node_id ns) \<and>
      (\<forall>n \<in> set ns. set (node_dependencies n) = D (node_id n) \<and> node_id n \<in> fmdom' (tasks g) \<and>
                     (node_id n \<notin> ids \<longrightarrow> \<not> resettable_at (tasks g) (node_id n))) \<and>
      (\<forall>t \<in> seen. \<not> resettable_at (tasks g) t) \<and> distinct (map node_id ns))"

lemma reset_node_tasks:
  assumes "\<forall>d \<in> set (node_dependencies node). \<not> resettable_at (tasks g) d"
    and "node_id node \<in> fmdom' (tasks g)"
  shows "fst (reset_node pfx node g) = Ok ()"
    "fmdom' (tasks (snd (reset_node pfx node g))) = fmdom' (tasks g)"
    "resettable_at (tasks (snd (reset_node pfx node g))) t \<longleftrightarrow>
       t \<noteq> node_id node \<and> resettable_at (tasks g) t"
proof -
  obtain r where r: "fmlookup (tasks g) (node_id node) = Some r"
    using assms(2) by (auto simp: in_fmdom'_iff)
  note eq = reset_node_Ok [OF assms(1) r, of pfx]
  show "fst (reset_node pfx node g) = Ok ()"
    "resettable_at (tasks (snd (reset_node pfx node g))) t \<longleftrightarrow>
       t \<noteq> node_id node \<and> resettable_at (tasks g) t"
    by (simp_all add: eq)
  show "fmdom' (tasks (snd (reset_node pfx node g))) = fmdom' (tasks g)"
    using assms(2) by (auto simp: eq insert_absorb)
qed

lemma reset_nodes_Ok:
  "reset_ready D seen ns ids g \<Longrightarrow> \<exists>g'. reset_nodes pfx ids ns g = (Ok (), g')"
proof (induction ns arbitrary: seen g)
  case (Cons n ns)
  then have deps: "\<forall>d \<in> set (node_dependencies n). \<not> resettable_at (tasks g) d"
    and dom: "node_id n \<in> fmdom' (tasks g)" by (auto simp: reset_ready_def)
  show ?case
  proof (cases "node_id n \<in> ids")
    case True
    define g' where "g' = snd (reset_node pfx n g)"
    note step = reset_node_tasks [OF deps dom, of pfx, folded g'_def]
    have g': "reset_node pfx n g = (Ok (), g')" using step(1) by (simp add: g'_def prod_eq_iff)
    have "reset_ready D (insert (node_id n) seen) ns ids g'"
      using Cons.prems by (auto simp: reset_ready_def step(2,3))
    from Cons.IH [OF this] show ?thesis using True g' by simp
  next
    case False
    then have "reset_ready D (insert (node_id n) seen) ns ids g"
      using Cons.prems by (auto simp: reset_ready_def)
    from Cons.IH [OF this] show ?thesis using False by simp
  qed
qed simp

lemma check_attached_None:
  "check_attached owner nodes g = None \<Longrightarrow>
   \<forall>n \<in> set nodes. \<exists>r. fmlookup (tasks g) (node_id n) = Some r \<and> task_definition_matches r n \<and>
     owned_by g (node_id n) owner"
  by (induction nodes) (auto split: option.splits if_splits)

lemma reset_ready_start:
  assumes "normalize_and_validate_graph owner nodes0 = Ok nodes" "graph_topological_indices nodes = Some ord"
    and "\<forall>n \<in> set nodes. node_id n \<in> fmdom' (tasks g)"
    and "tasks g' = tasks g" "\<forall>n \<in> set nodes. resettable_at (tasks g) (node_id n) \<longrightarrow> node_id n \<in> ids"
  shows "reset_ready (\<lambda>t. {d. (t, d) \<in> dep_rel nodes}) {} (map ((!) nodes) ord) ids g'"
proof -
  note topo = graph_topological_ids [OF assms(1,2)]
  have "set (node_dependencies n) = {d. (node_id n, d) \<in> dep_rel nodes}" if "n \<in> set nodes" for n
    using that dep_rel_nth_iff [OF topo(4)] by (auto simp: in_set_conv_nth)
  moreover have "set (map ((!) nodes) ord) \<subseteq> set nodes" by (simp add: topo(2) image_subset_iff)
  ultimately show ?thesis
    using topo(1,3) assms(3-5) by (auto simp: reset_ready_def comp_def)
qed

lemma reset_attached_Ok:
  assumes "normalize_and_validate_graph owner nodes0 = Ok nodes" "graph_topological_indices nodes = Some ord"
    and "\<forall>n \<in> set nodes. node_id n \<in> fmdom' (tasks g)"
  shows "\<exists>b g'. reset_attached_terminal_nodes pfx nodes ord g = (Ok b, g')"
proof -
  let ?clear = "\<lambda>tid i. (remove_queue_memberships tid i)
      \<lparr>dependents := remove_dependent_edges tid (dependents i)\<rparr>"
  let ?ids = "filter (\<lambda>tid. case fmlookup (tasks g) tid of
      Some record \<Rightarrow> is_resettable (r_state record) | None \<Rightarrow> False) (map node_id (map ((!) nodes) ord))"
  have "tasks (fold ?clear ids g) = tasks g" for ids
    by (rule fold_field) simp
  moreover have "\<forall>n \<in> set nodes. resettable_at (tasks g) (node_id n) \<longrightarrow> node_id n \<in> set ?ids"
    using graph_topological_ids(2) [OF assms(1,2)]
    by (auto simp: resettable_at_def state_at_def in_set_conv_nth split: option.splits)
  ultimately obtain g' where "reset_nodes pfx (set ?ids) (map ((!) nodes) ord) (fold ?clear ?ids g) = (Ok (), g')"
    using reset_nodes_Ok [OF reset_ready_start [OF assms]] by blast
  then show ?thesis by (auto simp: reset_attached_terminal_nodes_def Let_def)
qed

text \<open>Results that are neither a panic nor a report of corrupt data or of a failing backend.\<close>

fun clean :: "'a store_result \<Rightarrow> bool" where
  "clean (Ok _) = True"
| "clean (Err (InvalidGraph _)) = True"
| "clean (Err (Conflict _)) = True"
| "clean _ = False"

lemma clean_void [simp]: "clean (fst (void r)) = clean (fst r)"
proof -
  obtain x g where r: "r = (x, g)" by fastforce
  show ?thesis
  proof (cases x)
    case (Err e)
    then show ?thesis unfolding r by (cases e) simp_all
  qed (simp_all add: r)
qed

lemma check_attached_clean:
  "\<forall>n \<in> set nodes. fmlookup (tasks g) (node_id n) \<noteq> None \<and> owned_by g (node_id n) owner \<Longrightarrow>
   check_attached owner nodes g = Some e \<Longrightarrow> \<exists>msg. e = Conflict msg"
  by (induction nodes) (auto split: option.splits if_splits)

lemma clean_attach_graph:
  assumes inv: "own_inv g"
  shows "clean (fst (attach_graph pfx owner nodes0 g))"
proof (rule normalize_and_validate_graph_cases [of owner nodes0])
  fix msg
  assume "normalize_and_validate_graph owner nodes0 = Err (InvalidGraph msg)"
  then show ?thesis by (simp add: attach_graph_def)
next
  let ?nodes = "map normalize_node nodes0"
  assume acc: "graph_accepted owner nodes0" and wf: "graph_wf ?nodes"
    and ok: "normalize_and_validate_graph owner nodes0 = Ok ?nodes"
  then obtain ord where ord: "graph_topological_indices ?nodes = Some ord"
    using graph_topological_indices_spec [OF wf] by (auto simp: graph_accepted_def)
  let ?ids = "map (\<lambda>i. node_id (?nodes ! i)) ord"
  have ids: "set ?ids = node_id ` set ?nodes"
    using image_nth_lessThan [of node_id ?nodes] graph_topological_ids(2) [OF ok ord] by simp
  show ?thesis
  proof (cases "fmlookup (owner_graphs g) owner")
    case None
    then show ?thesis using ok ord by (simp add: attach_graph_def Let_def)
  next
    case (Some graph)
    show ?thesis
    proof (cases "og_attached graph \<and> graph_task_sets_match (og_task_ids graph) ?ids")
      case False
      then show ?thesis using Some ok ord by (auto simp: attach_graph_def Let_def)
    next
      case True
      have owned_all: "\<forall>n \<in> set ?nodes. fmlookup (tasks g) (node_id n) \<noteq> None \<and> owned_by g (node_id n) owner"
        using own_inv_graph_tasks [OF inv Some] True ids
        by (auto simp: graph_task_sets_match_def owned_by_owned)
      then obtain b g' where "reset_attached_terminal_nodes pfx ?nodes ord g = (Ok b, g')"
        using reset_attached_Ok [OF ok ord, of g pfx] unfolding in_fmdom'_iff by blast
      then show ?thesis
        using Some ok ord True check_attached_clean [OF owned_all]
        by (cases "check_attached owner ?nodes g") (auto simp: attach_graph_def Let_def)
    qed
  qed
qed

lemma clean_detach_owner: "own_inv g \<Longrightarrow> clean (fst (detach_owner owner mode g))"
proof (cases "\<exists>graph. fmlookup (owner_graphs g) owner = Some graph \<and> (og_attached graph \<or> mode = RemoveMode)")
  case True
  assume "own_inv g"
  with True show ?thesis by (auto simp: detach_owner_eq)
next
  case False
  then show ?thesis by (cases mode) (auto simp: detach_owner_def Let_def split: option.splits)
qed

lemma clean_fenced:
  "clean (fst (set_state_if_running t tok a st p g))"
  "clean (fst (complete_success_and_release_dependents_if_running pfx t tok a out g))"
  "clean (fst (complete_failure_and_fail_dependents_if_running t tok a err derr g))"
  "clean (fst (retry_now_if_running pfx t tok a prio pl g))"
  "clean (fst (retry_later_if_running t tok a err pl n g))"
  "clean (fst (checkpoint_payload_if_running t tok a pl pol g))"
  "clean (fst (renew_lease lease now t tok a g))"
  by (auto simp: set_state_if_running_def complete_success_and_release_dependents_if_running_def
      complete_failure_and_fail_dependents_if_running_def retry_now_if_running_def
      retry_later_if_running_def checkpoint_payload_if_running_def renew_lease_def
      running_lease_matches_Some Let_def split: option.splits task_state.splits)

lemma clean_cancel: "clean (fst (cancel_and_fail_dependents t derr g))"
  using cancel_task_locked_Ok [of t derr g] by (auto simp: cancel_and_fail_dependents_def)

lemma clean_take_ready: "clean (fst (take_ready lease now t tok g))"
  by (auto simp: take_ready_def take_ready_locked_def next_sequence_def Let_def split: option.splits)

lemma clean_small:
  "clean (fst (insert_task t p prio deps pol g))"
  "clean (fst (try_mark_ready t g))"
  "clean (fst (push_ready pfx prio t g))"
  "clean (fst (pop_ready prio g))"
  "clean (fst (put_payload t p g))"
  "clean (fst (schedule t n g))"
  "clean (fst (promote_scheduled pfx now limit g))"
  "clean (fst (requeue_expired_leases pfx order now limit g))"
  "clean (fst (remove_task t g))"
  by (auto simp: insert_task_def try_mark_ready_def push_ready_def pop_ready_def put_payload_def
      schedule_def promote_scheduled_def requeue_expired_leases_def remove_task_def Let_def
      split: option.splits list.splits prod.splits)

lemma clean_exec_op: "own_inv g \<Longrightarrow> clean (fst (exec_op pfx lease op g))"
  by (cases op)
     (simp_all add: clean_attach_graph clean_detach_owner clean_fenced clean_cancel clean_take_ready
       clean_small)

lemma inspect_tasks_Ok:
  "\<forall>t \<in> set ts. fmlookup (tasks g) t \<noteq> None \<and> fmlookup (task_owners g) t \<noteq> None \<Longrightarrow>
   inspect_tasks ts g = Ok (map (\<lambda>t. \<lparr>pv_id = t, pv_state = state_kind (r_state (the (fmlookup (tasks g) t))),
     pv_owner_count = card (the (fmlookup (task_owners g) t))\<rparr>) ts)"
  by (induction ts) auto

lemma inspect_owner_Ok: "own_inv g \<Longrightarrow> \<exists>v. inspect_owner owner g = Ok v"
proof (cases "fmlookup (owner_graphs g) owner")
  case (Some graph)
  assume inv: "own_inv g"
  show ?thesis
  proof (cases "og_attached graph")
    case True
    have "fmlookup (tasks g) t \<noteq> None \<and> fmlookup (task_owners g) t \<noteq> None" if "t \<in> set (og_task_ids graph)" for t
      using own_inv_graph_tasks [OF inv Some True that] by (auto simp: owned_def split: option.splits)
    then show ?thesis using Some True by (simp add: inspect_owner_def inspect_tasks_Ok)
  qed (simp add: Some inspect_owner_def)
qed (simp add: inspect_owner_def)

text \<open>
  C4: in every state that a sequence of store operations can lead to, no operation of a release build
  panics (the \<open>unreachable!\<close> and \<open>expect\<close> of the recovery reset included) and none reports corrupt data
  or a backend failure; the only errors are rejected graphs and conflicts. Inspecting an owner
  always succeeds. A debug build behaves in the same way, except that a retry under a current lease with a
  priority that is not the one of the task panics, and leaves the store as it is.
\<close>

theorem store_never_corrupt:
  assumes "reachable pfx lease g"
  shows "clean (fst (exec_op pfx lease op g)) \<and> clean (inspect_owner owner g) \<and>
    (if op_asserted op g then exec_op_debug pfx lease op g = exec_op pfx lease op g
     else \<exists>msg. exec_op_debug pfx lease op g = (Panic msg, g))"
proof -
  have inv: "own_inv g" using assms by (rule reachable_own_inv)
  then show ?thesis
    using clean_exec_op [OF inv, of pfx lease op] inspect_owner_Ok [OF inv, of owner]
      exec_op_debug_eq [of op g pfx lease] by auto
qed

definition example_pfx :: "nat \<Rightarrow> u8 list" where
  "example_pfx t = u64_sort_prefix (of_nat t)"

definition example_store :: "(unit, unit, nat) inner" where
  "example_store = snd (exec_op example_pfx 60 (AttachGraph example_owner example_graph) with_lease)"

lemma reachable_example_store: "reachable example_pfx 60 example_store"
  unfolding example_store_def by (intro reachable.intros) simp

theorem store_never_corrupt_witness:
  "clean (fst (exec_op example_pfx 60 (AttachGraph example_owner example_graph) example_store)) \<and>
   clean (inspect_owner example_owner example_store) \<and>
   exec_op_debug example_pfx 60 (AttachGraph example_owner example_graph) example_store =
     exec_op example_pfx 60 (AttachGraph example_owner example_graph) example_store"
  using store_never_corrupt [OF reachable_example_store, of "AttachGraph example_owner example_graph" example_owner]
  by (simp only: op_asserted.simps if_True simp_thms)

end
