(* ===== verification/Store_Deps.thy ===== *)
theory Store_Deps
  imports Store_Owners
begin

text \<open>
  Failure and success propagation along the dependency edges, and the edge invariants of the
  store. The breadth-first loop of \<open>fail_dependents_locked\<close> is shown to fail exactly the
  unfinished tasks that can be reached from the root over dependency edges. The invariant
  \<open>dep_inv\<close> ties the edges to the recorded dependencies and says that whoever owns a task owns
  its dependencies; it gives the isolation property of \<open>detach_owner\<close>.
\<close>

section \<open>Edges\<close>

definition dep_edges :: "('id, 'id list) fmap \<Rightarrow> ('id \<times> 'id) set" where
  "dep_edges deps = {(d, t). \<exists>ids. fmlookup deps d = Some ids \<and> t \<in> set ids}"

lemma dependents_list_edges: "t \<in> set (dependents_list g d) \<longleftrightarrow> (d, t) \<in> dep_edges (dependents g)"
  by (cases "fmlookup (dependents g) d") (auto simp: dependents_list_def dep_edges_def)

definition dep_list :: "('id, 'id list) fmap \<Rightarrow> 'id \<Rightarrow> 'id list" where
  "dep_list E d = (case fmlookup E d of Some ids \<Rightarrow> ids | None \<Rightarrow> [])"

lemma dependents_list_dep_list: "dependents_list g d = dep_list (dependents g) d"
  by (simp add: dependents_list_def dep_list_def)

lemma dep_edges_dep_list: "(d, t) \<in> dep_edges E \<longleftrightarrow> t \<in> set (dep_list E d)"
  by (cases "fmlookup E d") (auto simp: dep_list_def dep_edges_def)

lemma dep_list_remove_dependent_edges [simp]:
  "dep_list (remove_dependent_edges target E) d = filter (\<lambda>x. x \<noteq> target) (dep_list E d)"
  by (cases "fmlookup E d") (auto simp: remove_dependent_edges_def dep_list_def Let_def)

lemma dep_list_fmdrop [simp]: "dep_list (fmdrop t E) d = (if d = t then [] else dep_list E d)"
  by (simp add: dep_list_def)

lemma dep_list_push_dependents:
  "distinct ds \<Longrightarrow> dep_list (push_dependents t ds E) d = dep_list E d @ (if d \<in> set ds then [t] else [])"
  unfolding push_dependents_def
proof (induction ds arbitrary: E)
  case (Cons d' ds)
  have "dep_list (push_dependent t d' E) d = dep_list E d @ (if d = d' then [t] else [])" for d
    by (auto simp: push_dependent_def dep_list_def split: option.splits)
  with Cons show ?case by auto
qed simp

lemma dep_edges_remove_dependent_edges:
  "dep_edges (remove_dependent_edges target deps) = {(d, t) \<in> dep_edges deps. t \<noteq> target}"
  by (auto simp: dep_edges_dep_list)

section \<open>The failure loop\<close>

definition fail_record :: "'id \<Rightarrow> string \<Rightarrow> ('p, 'o, 'id) task_record \<Rightarrow> ('p, 'o, 'id) task_record" where
  "fail_record root err r =
     (if is_terminal (r_state r) then r
      else r\<lparr>r_state := Failed err (Some root), lease_until_ms := None\<rparr>)"

lemma fail_record_idem [simp]: "fail_record root err (fail_record root err r) = fail_record root err r"
  by (simp add: fail_record_def)

lemma lookup_fail_dependent [simp]:
  "fmlookup (tasks (fail_dependent root err t g)) x =
     (if x = t then map_option (fail_record root err) (fmlookup (tasks g) x) else fmlookup (tasks g) x)"
  by (auto simp: fail_dependent_def fail_record_def split: option.splits)

text \<open>The scheduled ids of one key; with ascending keys this is what the map holds there.\<close>

definition sched_at :: "(u64 \<times> 'id list) list \<Rightarrow> u64 \<Rightarrow> 'id list" where
  "sched_at sch k = (case map_of sch k of Some ids \<Rightarrow> ids | None \<Rightarrow> [])"

lemma sched_at_unschedule:
  assumes "distinct (map fst sch)"
  shows "sched_at (unschedule t sch) k = filter (\<lambda>x. x \<noteq> t) (sched_at sch k)"
  using assms
proof (induction sch)
  case (Cons kv sch)
  obtain k' ids where kv: "kv = (k', ids)" by fastforce
  have "map_of (unschedule t sch) k' = None"
    using Cons.prems kv by (force simp: map_of_eq_None_iff unschedule_def)
  moreover have "map_of sch k' = None"
    using Cons.prems kv by (auto simp: map_of_eq_None_iff)
  ultimately show ?case
    using Cons kv by (auto simp: sched_at_def unschedule_def retain_task_id_def filter_empty_conv
        split: option.splits)
qed (simp add: sched_at_def unschedule_def)

lemma sched_ok_distinct: "sched_ok sch \<Longrightarrow> distinct (map fst sch)"
  using strict_sorted_iff by (auto simp: sched_ok_def)

definition live_in :: "('p, 'o, 'id) inner \<Rightarrow> 'id \<Rightarrow> bool" where
  "live_in g t = (\<not> terminal_at (tasks g) t)"

lemma fail_dependent_queues:
  "ready_queue p (fail_dependent root err t g) =
     filter (\<lambda>x. \<not> (x = t \<and> live_in g t)) (ready_queue p g)"
  "sched_ok (scheduled g) \<Longrightarrow>
   sched_at (scheduled (fail_dependent root err t g)) k =
     filter (\<lambda>x. \<not> (x = t \<and> live_in g t)) (sched_at (scheduled g) k)"
  by (auto simp: fail_dependent_def live_in_def terminal_at_def state_at_def retain_task_id_def
      sched_at_unschedule sched_ok_distinct split: option.splits)

lemma sched_ok_fail_dependent: "sched_ok (scheduled g) \<Longrightarrow> sched_ok (scheduled (fail_dependent root err t g))"
  by (simp add: fail_dependent_def sched_ok_unschedule)

lemma live_in_fail_dependent: "x \<noteq> t \<Longrightarrow> live_in (fail_dependent root err t g) x = live_in g x"
  by (simp add: live_in_def terminal_at_def state_at_def)

text \<open>What the loop still has to visit: everything reachable from the work list, minus the visited.\<close>

definition fail_targets :: "('p, 'o, 'id) inner \<Rightarrow> 'id list \<Rightarrow> 'id set \<Rightarrow> 'id set" where
  "fail_targets g queue visited = (dep_edges (dependents g))\<^sup>* `` set queue - visited"

definition fail_closed :: "('p, 'o, 'id) inner \<Rightarrow> 'id list \<Rightarrow> 'id set \<Rightarrow> bool" where
  "fail_closed g queue visited = (dep_edges (dependents g) `` visited \<subseteq> visited \<union> set queue)"

lemma rtrancl_Image_closed:
  assumes "E `` V \<subseteq> V \<union> Q" "v \<in> V"
  shows "E\<^sup>* `` {v} \<subseteq> V \<union> E\<^sup>* `` Q"
proof
  fix x
  assume "x \<in> E\<^sup>* `` {v}"
  then have "(v, x) \<in> E\<^sup>*" by simp
  then show "x \<in> V \<union> E\<^sup>* `` Q"
    using assms by induction (auto intro: rtrancl_into_rtrancl)
qed

lemma fail_targets_skip:
  assumes "t \<in> visited" "fail_closed g (t # queue) visited"
  shows "fail_closed g queue visited" "fail_targets g (t # queue) visited = fail_targets g queue visited"
proof -
  show cl: "fail_closed g queue visited" using assms by (auto simp: fail_closed_def)
  then have "(dep_edges (dependents g))\<^sup>* `` {t} \<subseteq> visited \<union> (dep_edges (dependents g))\<^sup>* `` set queue"
    using assms(1) unfolding fail_closed_def by (rule rtrancl_Image_closed)
  then show "fail_targets g (t # queue) visited = fail_targets g queue visited"
    by (auto simp: fail_targets_def)
qed

lemma fail_targets_step:
  assumes "t \<notin> visited" "fail_closed g (t # queue) visited" "dependents g' = dependents g"
  shows "fail_closed g' (queue @ dependents_list g' t) (insert t visited)"
    and "fail_targets g (t # queue) visited =
         insert t (fail_targets g' (queue @ dependents_list g' t) (insert t visited))"
proof -
  let ?E = "dep_edges (dependents g)"
  have succ: "set (dependents_list g' t) = ?E `` {t}"
    using assms(3) by (auto simp: dependents_list_edges)
  show "fail_closed g' (queue @ dependents_list g' t) (insert t visited)"
    using assms(2,3) succ by (auto simp: fail_closed_def)
  have "?E\<^sup>* `` {t} = insert t (?E\<^sup>* `` (?E `` {t}))"
    by (auto intro: converse_rtrancl_into_rtrancl elim: converse_rtranclE)
  then show "fail_targets g (t # queue) visited =
      insert t (fail_targets g' (queue @ dependents_list g' t) (insert t visited))"
    using assms(1,3) succ by (auto simp: fail_targets_def Image_Un)
qed

lemma fail_loop_spec:
  assumes "fail_closed g queue visited" "sched_ok (scheduled g)"
  shows "fmlookup (tasks (fail_loop root err queue visited g)) x =
      (if x \<in> fail_targets g queue visited then map_option (fail_record root err) (fmlookup (tasks g) x)
       else fmlookup (tasks g) x) \<and>
    ready_queue p (fail_loop root err queue visited g) =
      filter (\<lambda>y. \<not> (y \<in> fail_targets g queue visited \<and> live_in g y)) (ready_queue p g) \<and>
    sched_at (scheduled (fail_loop root err queue visited g)) k =
      filter (\<lambda>y. \<not> (y \<in> fail_targets g queue visited \<and> live_in g y)) (sched_at (scheduled g) k)"
  using assms
proof (induction root err queue visited g rule: fail_loop.induct)
  case (1 root err visited g)
  then show ?case by (simp add: fail_targets_def)
next
  case (2 root err t queue visited g)
  show ?case
  proof (cases "t \<in> visited")
    case True
    then show ?thesis using 2 fail_targets_skip [OF True 2(3)] by simp
  next
    case False
    let ?g = "fail_dependent root err t g"
    have dep: "dependents ?g = dependents g" by simp
    note step = fail_targets_step [OF False 2(3) dep]
    have fresh: "t \<notin> fail_targets ?g (queue @ dependents_list ?g t) (insert t visited)"
      by (simp add: fail_targets_def)
    have live: "y \<noteq> t \<Longrightarrow> live_in ?g y = live_in g y" for y by (rule live_in_fail_dependent)
    note IH = 2(2) [OF False refl step(1) sched_ok_fail_dependent [OF 2(4)]]
    have filt: "filter (\<lambda>y. \<not> (y \<in> T \<and> live_in ?g y)) (filter (\<lambda>y. \<not> (y = t \<and> live_in g t)) ys) =
        filter (\<lambda>y. \<not> (y \<in> insert t T \<and> live_in g y)) ys" if "t \<notin> T" for T ys
      unfolding filter_filter
    proof (rule filter_cong [OF refl])
      fix y
      show "(\<not> (y = t \<and> live_in g t) \<and> \<not> (y \<in> T \<and> live_in ?g y)) = (\<not> (y \<in> insert t T \<and> live_in g y))"
        by (cases "y = t") (simp_all add: that live)
    qed
    show ?thesis
      using False IH fresh
      by (simp only: fail_loop.simps if_False Let_def step(2) lookup_fail_dependent
          fail_dependent_queues(1) fail_dependent_queues(2) [OF 2(4)] filt [OF fresh]) auto
  qed
qed

lemma fail_dependents_locked_spec:
  fixes root :: 'id and g :: "('p, 'o, 'id) inner"
  assumes "sched_ok (scheduled g)"
  defines "F \<equiv> (dep_edges (dependents g))\<^sup>+ `` {root}"
  shows "fmlookup (tasks (fail_dependents_locked root err g)) x =
      (if x \<in> F then map_option (fail_record root err) (fmlookup (tasks g) x) else fmlookup (tasks g) x)"
    and "ready_queue p (fail_dependents_locked root err g) =
      filter (\<lambda>y. \<not> (y \<in> F \<and> live_in g y)) (ready_queue p g)"
    and "sched_at (scheduled (fail_dependents_locked root err g)) k =
      filter (\<lambda>y. \<not> (y \<in> F \<and> live_in g y)) (sched_at (scheduled g) k)"
proof -
  have "fail_targets g (dependents_list g root) {} = F"
  proof -
    have "set (dependents_list g root) = dep_edges (dependents g) `` {root}"
      by (auto simp: dependents_list_edges)
    then show ?thesis
      by (simp add: fail_targets_def F_def trancl_unfold_left relcomp_Image)
  qed
  moreover have "fail_closed g (dependents_list g root) {}" by (simp add: fail_closed_def)
  ultimately show
    "fmlookup (tasks (fail_dependents_locked root err g)) x =
      (if x \<in> F then map_option (fail_record root err) (fmlookup (tasks g) x) else fmlookup (tasks g) x)"
    "ready_queue p (fail_dependents_locked root err g) =
      filter (\<lambda>y. \<not> (y \<in> F \<and> live_in g y)) (ready_queue p g)"
    "sched_at (scheduled (fail_dependents_locked root err g)) k =
      filter (\<lambda>y. \<not> (y \<in> F \<and> live_in g y)) (sched_at (scheduled g) k)"
    using fail_loop_spec [of g "dependents_list g root" "{}" root err x p k] assms(1)
    by (simp_all add: fail_dependents_locked_def)
qed

section \<open>The edge invariant\<close>

definition deps_of :: "('p, 'o, 'id) inner \<Rightarrow> 'id \<Rightarrow> 'id list option" where
  "deps_of g t = map_option r_dependencies (fmlookup (tasks g) t)"

text \<open>Edges point from a dependency to a task that records it, once.\<close>

definition edge_inv :: "('p, 'o, 'id) inner \<Rightarrow> bool" where
  "edge_inv g =
     ((\<forall>d t. (d, t) \<in> dep_edges (dependents g) \<longrightarrow> (\<exists>ds. deps_of g t = Some ds \<and> d \<in> set ds)) \<and>
      (\<forall>d. distinct (dependents_list g d)))"

text \<open>An owner of a task owns everything the task depends on.\<close>

definition closure_inv :: "('p, 'o, 'id) inner \<Rightarrow> bool" where
  "closure_inv g =
     (\<forall>t owner ds d. owned (task_owners g) t owner \<longrightarrow> deps_of g t = Some ds \<longrightarrow> d \<in> set ds \<longrightarrow>
        owned (task_owners g) d owner)"

definition dep_inv :: "('p, 'o, 'id) inner \<Rightarrow> bool" where
  "dep_inv g = (edge_inv g \<and> closure_inv g)"

definition same_deps :: "('p, 'o, 'id) inner \<Rightarrow> ('p, 'o, 'id) inner \<Rightarrow> bool" where
  "same_deps g g' =
     (dependents g' = dependents g \<and> task_owners g' = task_owners g \<and> (\<forall>t. deps_of g' t = deps_of g t))"

lemma same_deps_refl [simp]: "same_deps g g"
  by (simp add: same_deps_def)

lemma same_deps_trans: "same_deps g g' \<Longrightarrow> same_deps g' g'' \<Longrightarrow> same_deps g g''"
  by (simp add: same_deps_def)

lemma same_deps_edge_inv: "same_deps g g' \<Longrightarrow> edge_inv g \<Longrightarrow> edge_inv g'"
  by (simp add: same_deps_def edge_inv_def dependents_list_def)

lemma same_deps_inv: "same_deps g g' \<Longrightarrow> dep_inv g \<Longrightarrow> dep_inv g'"
  by (simp add: same_deps_def dep_inv_def edge_inv_def closure_inv_def dependents_list_def)

lemma same_deps_fail_dependent: "same_deps g (fail_dependent root err t g)"
  by (cases "fmlookup (tasks g) t") (auto simp: same_deps_def deps_of_def fail_record_def)

lemma same_deps_release_dependent: "same_deps g (release_dependent pfx t g)"
  by (auto simp: same_deps_def deps_of_def release_dependent_def Let_def split: option.splits)

lemma same_deps_fail_dependents_locked: "same_deps g (fail_dependents_locked root err g)"
  by (rule fail_dependents_locked_invariant)
     (auto intro: same_deps_trans same_deps_fail_dependent)

lemma same_deps_release_dependents_locked: "same_deps g (release_dependents_locked pfx root g)"
  unfolding release_dependents_locked_def
  by (rule fold_invariant) (auto intro: same_deps_trans same_deps_release_dependent)

lemma same_deps_requeue_one: "same_deps g (requeue_one pfx t g)"
  by (auto simp: same_deps_def deps_of_def requeue_one_def split: option.splits)

lemma same_deps_cancel_task_locked: "same_deps g (snd (cancel_task_locked t err g))"
  by (auto simp: cancel_task_locked_def Let_def split: option.splits
      intro!: same_deps_trans [OF _ same_deps_fail_dependents_locked])
     (auto simp: same_deps_def deps_of_def)

lemma same_deps_complete:
  "same_deps g (snd (complete_success_and_release_dependents_if_running pfx t tok a out g))"
  "same_deps g (snd (complete_failure_and_fail_dependents_if_running t tok a err derr g))"
  by (auto simp: complete_success_and_release_dependents_if_running_def
      complete_failure_and_fail_dependents_if_running_def Let_def split: option.splits
      intro!: same_deps_trans [OF _ same_deps_release_dependents_locked]
        same_deps_trans [OF _ same_deps_fail_dependents_locked])
     (auto simp: same_deps_def deps_of_def)

lemma same_deps_fenced:
  "same_deps g (snd (set_state_if_running t tok a st p g))"
  "same_deps g (snd (retry_now_if_running pfx t tok a prio pl g))"
  "same_deps g (snd (retry_later_if_running t tok a err pl n g))"
  "same_deps g (snd (checkpoint_payload_if_running t tok a pl pol g))"
  "same_deps g (snd (renew_lease lease now t tok a g))"
  by (auto simp: same_deps_def deps_of_def Let_def set_state_if_running_def retry_now_if_running_def
      retry_later_if_running_def checkpoint_payload_if_running_def renew_lease_def
      split: option.splits task_state.splits)

lemma same_deps_take_ready: "same_deps g (snd (take_ready lease now t tok g))"
  by (auto simp: take_ready_def take_ready_locked_def next_sequence_def Let_def same_deps_def deps_of_def
      split: option.splits)

lemma same_deps_promote_scheduled: "same_deps g (snd (promote_scheduled pfx now limit g))"
proof -
  have "same_deps g (snd (promote_loop pfx now limit 0 g))"
    by (rule promote_loop_invariant)
       (auto intro: same_deps_trans same_deps_requeue_one, auto simp: same_deps_def deps_of_def)
  then show ?thesis by (simp add: promote_scheduled_def case_prod_unfold Let_def)
qed

lemma same_deps_requeue_expired: "same_deps g (snd (requeue_expired_leases pfx order now limit g))"
  unfolding requeue_expired_leases_def Let_def snd_conv
  by (rule fold_invariant) (auto intro: same_deps_trans same_deps_requeue_one)

lemma same_deps_small:
  "same_deps g (snd (cancel_and_fail_dependents t derr g))"
  "same_deps g (snd (try_mark_ready t g))"
  "same_deps g (snd (push_ready pfx prio t g))"
  "same_deps g (snd (pop_ready prio g))"
  "same_deps g (snd (put_payload t p g))"
  "same_deps g (snd (schedule t n g))"
  by (simp_all add: cancel_and_fail_dependents_def same_deps_cancel_task_locked)
     (auto simp: same_deps_def deps_of_def try_mark_ready_def push_ready_def pop_ready_def put_payload_def
       schedule_def option.map_comp comp_def split: option.splits list.splits)

lemmas same_deps_ops =
  same_deps_complete same_deps_fenced same_deps_take_ready same_deps_promote_scheduled
  same_deps_requeue_expired same_deps_small

subsection \<open>Planting a task\<close>

text \<open>
  \<open>insert_task\<close>, \<open>attach_node\<close> and \<open>reset_node\<close> all do the same to the edges: forget the edges into
  the task, if any, and add one from each unresolved dependency.
\<close>

lemma edge_inv_plant:
  assumes inv: "edge_inv g"
    and E: "\<And>d. dep_list (dependents g') d =
      filter (\<lambda>x. x \<noteq> t) (dep_list (dependents g) d) @ (if d \<in> set open_deps then [t] else [])"
    and deps: "\<And>x. deps_of g' x = (if x = t then Some ds else deps_of g x)"
    and sub: "set open_deps \<subseteq> set ds"
  shows "edge_inv g'"
  using inv sub unfolding edge_inv_def dependents_list_dep_list dep_edges_dep_list E deps
  by (auto split: if_splits)

lemma edge_inv_absent:
  assumes "edge_inv g" "fmlookup (tasks g) t = None"
  shows "filter (\<lambda>x. x \<noteq> t) (dep_list (dependents g) d) = dep_list (dependents g) d"
proof (rule filter_True, rule ballI)
  fix x
  assume "x \<in> set (dep_list (dependents g) d)"
  then have "deps_of g x \<noteq> None" using assms(1) unfolding edge_inv_def dep_edges_dep_list by fastforce
  then show "x \<noteq> t" using assms(2) by (auto simp: deps_of_def)
qed

lemma deps_of_simps [simp]:
  "deps_of (push_ready_locked pfx prio t g) x = deps_of g x"
  "deps_of (remove_queue_memberships t g) x = deps_of g x"
  "deps_of (g\<lparr>dependents := E\<rparr>) x = deps_of g x"
  "deps_of (g\<lparr>remaining := R\<rparr>) x = deps_of g x"
  "deps_of (g\<lparr>task_owners := W\<rparr>) x = deps_of g x"
  "deps_of (g\<lparr>owner_graphs := G\<rparr>) x = deps_of g x"
  "deps_of (add_owner owner t g) x = deps_of g x"
  "deps_of (drop_owner owner t g) x = deps_of g x"
  "deps_of (g\<lparr>tasks := fmupd t r T\<rparr>) x = (if x = t then Some (r_dependencies r) else map_option r_dependencies (fmlookup T x))"
  by (simp_all add: deps_of_def)

lemma resolve_open_subset:
  "resolve_dependency_insert_state ts ds = DepPending n us \<Longrightarrow> set us \<subseteq> set ds \<and> (distinct ds \<longrightarrow> distinct us) \<and> n = length us"
proof (cases "\<exists>d \<in> set ds. resettable_at ts d")
  case True
  assume "resolve_dependency_insert_state ts ds = DepPending n us"
  with resolve_not_pending [OF True] show ?thesis by simp
qed (auto simp: resolve_pending Let_def)

lemma edge_inv_insert_task:
  fixes g :: "('p, 'o, 'id) inner"
  assumes inv: "edge_inv g" and ds: "distinct ds"
  shows "edge_inv (snd (insert_task t p prio ds pol g))"
proof -
  obtain rem us and st :: "('o, 'id) task_state"
    where st: "insert_state (resolve_dependency_insert_state (tasks g) ds) = (rem, st, us)"
    by (metis prod_cases3)
  then have us: "set us \<subseteq> set ds" "distinct us"
    using resolve_open_subset [of "tasks g" ds] ds
    by (auto simp: insert_state_def split: dependency_insert_state.splits)
  show ?thesis
    unfolding insert_task_def Let_def st prod.case
    using inv edge_inv_absent [OF inv, of t] us
    by (auto intro!: edge_inv_plant [OF inv, where t = t and open_deps = us and ds = ds]
        simp: dep_list_push_dependents modify_task_def deps_of_def split: option.splits)
qed

lemma dependents_add_owner [simp]: "dependents (add_owner owner t g) = dependents g"
  by (simp add: add_owner_def)

lemma attach_node_keep:
  "fmlookup (tasks g) (node_id node) = Some r \<Longrightarrow>
   \<not> (is_resettable (r_state r) \<and> \<not> has_owners g (node_id node)) \<Longrightarrow>
   attach_node pfx owner node g = add_owner owner (node_id node) g"
  by (auto simp: attach_node_def Let_def)

lemma edge_inv_attach_node:
  fixes g :: "('p, 'o, 'id) inner"
  assumes inv: "edge_inv g" and ds: "distinct (node_dependencies node)"
  shows "edge_inv (attach_node pfx owner node g)"
proof -
  let ?t = "node_id node"
  let ?reset = "case fmlookup (tasks g) ?t of
      Some record \<Rightarrow> is_resettable (r_state record) \<and> \<not> has_owners g ?t | None \<Rightarrow> False"
  obtain rem us and st :: "('o, 'id) task_state"
    where st: "(case resolve_dependency_insert_state (tasks g) (node_dependencies node) of
        DepPending rem unresolved \<Rightarrow> (rem, if rem = 0 then Ready else Pending rem, unresolved)
      | DepFailed \<Rightarrow> (0, Failed ''dependency failed'' None, [])
      | DepCancelled \<Rightarrow> (0, Cancelled, [])) = (rem, st, us)"
    by (rule prod_cases3)
  then have us: "set us \<subseteq> set (node_dependencies node)" "distinct us"
    using resolve_open_subset [of "tasks g" "node_dependencies node"] ds
    by (auto split: dependency_insert_state.splits)
  have same: "edge_inv (add_owner owner ?t g')" if "edge_inv g'" for g' :: "('p, 'o, 'id) inner"
    using that by (simp add: edge_inv_def dependents_list_def)
  note plant = edge_inv_plant [OF inv, where t = ?t and open_deps = us and ds = "node_dependencies node"]
  show ?thesis
  proof (cases "fmlookup (tasks g) ?t")
    case None
    then show ?thesis
      unfolding attach_node_def Let_def st prod.case
      by (intro same) (use us edge_inv_absent [OF inv None] in
          \<open>auto intro!: plant simp: dep_list_push_dependents fresh_record_def deps_of_def\<close>)
  next
    case (Some r)
    show ?thesis
    proof (cases "is_resettable (r_state r) \<and> \<not> has_owners g ?t")
      case True
      then show ?thesis
        using Some unfolding attach_node_def Let_def st prod.case
        by (intro same)
           (use us in \<open>auto intro!: plant simp: dep_list_push_dependents fresh_record_def deps_of_def\<close>)
    next
      case False
      with Some show ?thesis by (simp add: attach_node_keep same inv)
    qed
  qed
qed

subsection \<open>Attach, detach and removal\<close>

definition plantable :: "('p, 'o, 'id) inner \<Rightarrow> 'id \<Rightarrow> bool" where
  "plantable g t =
     (case fmlookup (tasks g) t of
        None \<Rightarrow> True
      | Some r \<Rightarrow> is_resettable (r_state r) \<and> \<not> has_owners g t)"

lemma deps_of_attach_node:
  "deps_of (attach_node pfx owner node g) x =
     (if x = node_id node \<and> plantable g x then Some (node_dependencies node) else deps_of g x)"
  by (cases "fmlookup (tasks g) (node_id node)")
     (auto simp: attach_node_def Let_def fresh_record_def deps_of_def plantable_def split: prod.splits)

lemma set_map_nth:
  "set is = {..<length xs} \<Longrightarrow> set (map ((!) xs) is) = set xs"
  using image_nth_lessThan [of id xs] by simp

lemma edge_inv_fold_attach:
  "edge_inv g \<Longrightarrow> \<forall>n \<in> set ns. distinct (node_dependencies n) \<Longrightarrow> edge_inv (fold (attach_node pfx owner) ns g)"
  by (rule fold_invariant) (auto intro: edge_inv_attach_node)

text \<open>A fold of \<open>attach_node\<close> acts on each node as a single call would.\<close>

lemma attach_node_other:
  assumes "x \<noteq> node_id node"
  shows "fmlookup (tasks (attach_node pfx owner node g)) x = fmlookup (tasks g) x"
    and "has_owners (attach_node pfx owner node g) x = has_owners g x"
    and "plantable (attach_node pfx owner node g) x = plantable g x"
proof -
  show *: "fmlookup (tasks (attach_node pfx owner node g)) x = fmlookup (tasks g) x"
    using assms by (auto simp: attach_node_def Let_def split: prod.splits)
  show "has_owners (attach_node pfx owner node g) x = has_owners g x"
    using assms by (simp add: has_owners_owned)
  with * show "plantable (attach_node pfx owner node g) x = plantable g x"
    by (cases "fmlookup (tasks g) x") (simp_all add: plantable_def)
qed

lemma fold_attach_other:
  assumes "x \<notin> node_id ` set ns"
  shows "fmlookup (tasks (fold (attach_node pfx owner) ns g)) x = fmlookup (tasks g) x"
    and "plantable (fold (attach_node pfx owner) ns g) x = plantable g x"
  using assms by (induction ns arbitrary: g) (auto simp: attach_node_other)

lemma deps_of_fold_attach:
  fixes g :: "('p, 'o, 'id) inner"
  assumes "n \<in> set ns" "distinct (map node_id ns)"
  shows "deps_of (fold (attach_node pfx owner) ns g) (node_id n) =
    (if plantable g (node_id n) then Some (node_dependencies n) else deps_of g (node_id n))"
proof -
  from assms obtain as bs where ns: "ns = as @ n # bs"
    and "node_id n \<notin> node_id ` set as" "node_id n \<notin> node_id ` set bs"
    by (auto dest!: split_list)
  moreover have "deps_of (fold (attach_node pfx owner) bs g') (node_id n) = deps_of g' (node_id n)"
    "deps_of (fold (attach_node pfx owner) as g') (node_id n) = deps_of g' (node_id n)" for g' :: "('p, 'o, 'id) inner"
    using calculation by (simp_all add: deps_of_def fold_attach_other)
  ultimately show ?thesis by (simp add: deps_of_attach_node fold_attach_other)
qed

lemma closure_inv_attach:
  assumes inv: "closure_inv g" and own: "own_inv g"
    and matches: "\<forall>n \<in> set ns. \<forall>r. fmlookup (tasks g) (node_id n) = Some r \<longrightarrow> task_definition_matches r n"
    and closed: "\<forall>n \<in> set ns. set (node_dependencies n) \<subseteq> node_id ` set ns"
    and dist: "distinct (map node_id ns)"
  shows "closure_inv (fold (attach_node pfx owner) ns g)"
  unfolding closure_inv_def
proof (intro allI impI)
  fix t o' ds d
  let ?g = "fold (attach_node pfx owner) ns g"
  assume t: "owned (task_owners ?g) t o'" "deps_of ?g t = Some ds" "d \<in> set ds"
  show "owned (task_owners ?g) d o'"
  proof (cases "t \<in> node_id ` set ns")
    case False
    then have "deps_of g t = Some ds" using t(2) by (simp add: deps_of_def fold_attach_other)
    moreover have "owned (task_owners g) t o'" using t(1) False by (simp add: fold_attach_node_fields)
    ultimately have "owned (task_owners g) d o'" using inv t(3) unfolding closure_inv_def by blast
    then show ?thesis by (simp add: fold_attach_node_fields)
  next
    case True
    then obtain n where n: "n \<in> set ns" "node_id n = t" by blast
    have ds: "set ds = set (node_dependencies n)"
      using deps_of_fold_attach [OF n(1) dist, of pfx owner g] n t(2) matches
      by (auto simp: deps_of_def task_definition_matches_def graph_task_sets_match_def split: if_splits)
    show ?thesis
    proof (cases "owned (task_owners g) t o'")
      case True
      then have old: "\<not> plantable g t" "fmlookup (tasks g) t \<noteq> None"
        using own_inv_exists [OF own True] True
        by (auto simp: plantable_def has_owners_owned split: option.splits)
      then have "deps_of g t = Some ds" using deps_of_fold_attach [OF n(1) dist, of pfx owner g] n t(2) by simp
      then have "owned (task_owners g) d o'" using inv True t(3) unfolding closure_inv_def by blast
      then show ?thesis by (simp add: fold_attach_node_fields)
    next
      case False
      then have "o' = owner" using t(1) by (simp add: fold_attach_node_fields)
      then show ?thesis using closed n(1) t(3) ds by (auto simp: fold_attach_node_fields)
    qed
  qed
qed

definition no_edges_into :: "('p, 'o, 'id) inner \<Rightarrow> 'id \<Rightarrow> bool" where
  "no_edges_into g t = (\<forall>d. t \<notin> set (dep_list (dependents g) d))"

definition same_dep_sets :: "('p, 'o, 'id) inner \<Rightarrow> ('p, 'o, 'id) inner \<Rightarrow> bool" where
  "same_dep_sets g g' = (\<forall>t. map_option set (deps_of g' t) = map_option set (deps_of g t))"

lemma closure_inv_cong:
  assumes "closure_inv g" "task_owners g' = task_owners g" "same_dep_sets g g'"
  shows "closure_inv g'"
  unfolding closure_inv_def
proof (intro allI impI)
  fix t owner ds d
  assume t: "owned (task_owners g') t owner" "deps_of g' t = Some ds" "d \<in> set ds"
  then have "map_option set (deps_of g t) = Some (set ds)" using assms(3) by (metis option.simps(9) same_dep_sets_def)
  then obtain ds' where "deps_of g t = Some ds'" "set ds' = set ds" by auto
  then show "owned (task_owners g') d owner" using t assms(1,2) unfolding closure_inv_def by auto
qed

lemma reset_node_deps:
  fixes pfx :: "'id \<Rightarrow> u8 list" and g :: "('p, 'o, 'id) inner"
  assumes inv: "edge_inv g" and none: "no_edges_into g (node_id n)"
    and deps: "\<forall>d \<in> set (node_dependencies n). \<not> resettable_at (tasks g) d"
    and r: "fmlookup (tasks g) (node_id n) = Some r" and dist: "distinct (node_dependencies n)"
  defines "g' \<equiv> snd (reset_node pfx n g)"
  shows "edge_inv g'" "deps_of g' x = (if x = node_id n then Some (node_dependencies n) else deps_of g x)"
    "x \<noteq> node_id n \<Longrightarrow> no_edges_into g x \<Longrightarrow> no_edges_into g' x"
proof -
  let ?open = "filter (\<lambda>d. \<not> succeeded_at (tasks g) d) (node_dependencies n)"
  have E: "dep_list (dependents g') d = dep_list (dependents g) d @ (if d \<in> set ?open then [node_id n] else [])" for d
    unfolding g'_def reset_node_Ok [OF deps r] using dist by (auto simp: dep_list_push_dependents filter_empty_conv)
  have D: "deps_of g' x = (if x = node_id n then Some (node_dependencies n) else deps_of g x)" for x
    unfolding g'_def reset_node_Ok [OF deps r] by (simp add: deps_of_def)
  show "deps_of g' x = (if x = node_id n then Some (node_dependencies n) else deps_of g x)" by (rule D)
  have keep: "filter (\<lambda>x. x \<noteq> node_id n) (dep_list (dependents g) d) = dep_list (dependents g) d" for d
    using none by (intro filter_True) (auto simp: no_edges_into_def)
  show "edge_inv g'"
    by (rule edge_inv_plant [OF inv, where t = "node_id n" and open_deps = ?open]) (auto simp: E D keep)
  show "x \<noteq> node_id n \<Longrightarrow> no_edges_into g x \<Longrightarrow> no_edges_into g' x"
    by (simp add: no_edges_into_def E)
qed

lemma reset_nodes_deps:
  assumes "reset_ready D seen ns ids g" "edge_inv g"
    and "\<forall>n \<in> set ns. node_id n \<in> ids \<longrightarrow> no_edges_into g (node_id n)"
    and "\<forall>n \<in> set ns. distinct (node_dependencies n) \<and>
          map_option set (deps_of g (node_id n)) = Some (set (node_dependencies n))"
  shows "edge_inv (snd (reset_nodes pfx ids ns g)) \<and> same_dep_sets g (snd (reset_nodes pfx ids ns g))"
  using assms
proof (induction ns arbitrary: seen g)
  case Nil
  then show ?case by (simp add: same_dep_sets_def)
next
  case (Cons n ns)
  show ?case
  proof (cases "node_id n \<in> ids")
    case False
    then have "reset_ready D (insert (node_id n) seen) ns ids g"
      using Cons.prems(1) by (auto simp: reset_ready_def)
    with False show ?thesis using Cons.IH Cons.prems by simp
  next
    case True
    have deps: "\<forall>d \<in> set (node_dependencies n). \<not> resettable_at (tasks g) d"
      and dom: "node_id n \<in> fmdom' (tasks g)" using Cons.prems(1) by (auto simp: reset_ready_def)
    then obtain r where r: "fmlookup (tasks g) (node_id n) = Some r" by (auto simp: in_fmdom'_iff)
    define g' where "g' = snd (reset_node pfx n g)"
    note step = reset_node_tasks [OF deps dom, of pfx, folded g'_def]
    have g': "reset_node pfx n g = (Ok (), g')" using step(1) by (simp add: g'_def prod_eq_iff)
    have dist: "distinct (node_dependencies n)"
      and set_n: "map_option set (deps_of g (node_id n)) = Some (set (node_dependencies n))"
      and none: "no_edges_into g (node_id n)" using Cons.prems True by auto
    note nd = reset_node_deps [OF Cons.prems(2) none deps r dist, where pfx = pfx, folded g'_def]
    have ready: "reset_ready D (insert (node_id n) seen) ns ids g'"
      using Cons.prems(1) by (auto simp: reset_ready_def step(2,3))
    have same: "same_dep_sets g g'" using nd(2) set_n by (auto simp: same_dep_sets_def)
    have "node_id n \<notin> node_id ` set ns" using Cons.prems(1) by (auto simp: reset_ready_def)
    then have edges: "\<forall>m \<in> set ns. node_id m \<in> ids \<longrightarrow> no_edges_into g' (node_id m)"
      using Cons.prems(3) nd(3) by (metis image_eqI list.set_intros(2))
    have sets: "\<forall>m \<in> set ns. distinct (node_dependencies m) \<and>
        map_option set (deps_of g' (node_id m)) = Some (set (node_dependencies m))"
      using Cons.prems(4) same by (simp add: same_dep_sets_def)
    from Cons.IH [OF ready nd(1) edges sets] same show ?thesis
      using True g' by (simp add: same_dep_sets_def)
  qed
qed

lemma edge_inv_clear:
  fixes g :: "('p, 'o, 'id) inner"
  defines "clear \<equiv> \<lambda>tid (i :: ('p, 'o, 'id) inner). (remove_queue_memberships tid i)
      \<lparr>dependents := remove_dependent_edges tid (dependents i)\<rparr>"
  assumes "edge_inv g"
  shows "edge_inv (fold clear ids g)" "deps_of (fold clear ids g) x = deps_of g x"
    "t \<in> set ids \<Longrightarrow> no_edges_into (fold clear ids g) t"
proof -
  have keep: "no_edges_into i t \<Longrightarrow> no_edges_into (clear x i) t" for i t x
    by (simp add: clear_def no_edges_into_def)
  show "edge_inv (fold clear ids g)"
    using assms(2) by (rule fold_invariant)
      (auto simp: clear_def edge_inv_def dep_edges_dep_list dependents_list_dep_list)
  show "deps_of (fold clear ids g) x = deps_of g x"
    by (rule fold_field [where sel = "\<lambda>g. deps_of g x"]) (simp add: clear_def)
  have stays: "no_edges_into i t \<Longrightarrow> no_edges_into (fold clear ids i) t" for i ids
    by (rule fold_invariant) (auto intro: keep)
  have "no_edges_into (clear t i) t" for i by (simp add: clear_def no_edges_into_def)
  then show "t \<in> set ids \<Longrightarrow> no_edges_into (fold clear ids g) t"
    by (induction ids arbitrary: g) (auto intro: stays)
qed

lemma dep_inv_reset_attached:
  assumes ok: "normalize_and_validate_graph owner nodes0 = Ok nodes" "graph_topological_indices nodes = Some ord"
    and inv: "dep_inv g" and chk: "check_attached owner nodes g = None"
  shows "dep_inv (snd (reset_attached_terminal_nodes pfx nodes ord g))"
proof -
  let ?clear = "\<lambda>tid i. (remove_queue_memberships tid i)
      \<lparr>dependents := remove_dependent_edges tid (dependents i)\<rparr>"
  let ?ns = "map ((!) nodes) ord"
  let ?ids = "filter (\<lambda>tid. case fmlookup (tasks g) tid of
      Some record \<Rightarrow> is_resettable (r_state record) | None \<Rightarrow> False) (map node_id ?ns)"
  let ?g = "fold ?clear ?ids g"
  note topo = graph_topological_ids [OF ok]
  have nodes: "set ?ns = set nodes" using topo(2) by (rule set_map_nth)
  note chk' = check_attached_None [OF chk]
  have t: "tasks ?g = tasks g" by (rule fold_field) simp
  have w: "task_owners ?g = task_owners g" by (rule fold_field) simp
  have res: "\<forall>n \<in> set nodes. resettable_at (tasks g) (node_id n) \<longrightarrow> node_id n \<in> set ?ids"
    unfolding set_filter set_map [of node_id] nodes
    by (auto simp: resettable_at_def state_at_def split: option.splits)
  have ex: "\<forall>n \<in> set nodes. node_id n \<in> fmdom' (tasks g)" using chk' by (auto simp: in_fmdom'_iff)
  note ready = reset_ready_start [OF ok ex t res]
  note cl = edge_inv_clear [OF conjunct1 [OF inv [unfolded dep_inv_def]], where ids = ?ids]
  have sets: "\<forall>n \<in> set ?ns. distinct (node_dependencies n) \<and>
      map_option set (deps_of ?g (node_id n)) = Some (set (node_dependencies n))"
    using chk' topo(4) unfolding nodes cl(2)
    by (fastforce simp: deps_of_def task_definition_matches_def graph_task_sets_match_def graph_wf_def)
  have edges: "\<forall>n \<in> set ?ns. node_id n \<in> set ?ids \<longrightarrow> no_edges_into ?g (node_id n)"
    using cl(3) by blast
  obtain g' where g': "reset_nodes pfx (set ?ids) ?ns ?g = (Ok (), g')"
    using reset_nodes_Ok [OF ready] by blast
  then have *: "edge_inv g'" "same_dep_sets ?g g'"
    using reset_nodes_deps [OF ready cl(1) edges sets, of pfx] by simp_all
  then have "same_dep_sets g g'" unfolding same_dep_sets_def cl(2) by blast
  moreover have "task_owners g' = task_owners g"
    using same_owners_reset_nodes [OF g'] w by (simp add: same_owners_def)
  ultimately have "dep_inv g'"
    using * inv closure_inv_cong [of g g'] by (simp add: dep_inv_def)
  then show ?thesis using g' inv by (simp add: reset_attached_terminal_nodes_def Let_def)
qed

lemma dep_inv_attach_graph:
  assumes inv: "dep_inv g" and own: "own_inv g"
  shows "dep_inv (snd (attach_graph pfx owner nodes0 g))"
proof -
  have upd: "dep_inv (g'\<lparr>owner_graphs := G\<rparr>) = dep_inv g'" for G and g' :: "('a, 'b, 'c) inner"
    by (simp add: dep_inv_def edge_inv_def closure_inv_def dependents_list_def)
  have fresh: "dep_inv (fold (attach_node pfx owner) (map ((!) nodes) ord) g)"
    if ok: "normalize_and_validate_graph owner nodes0 = Ok nodes" "graph_topological_indices nodes = Some ord"
      and m: "\<not> list_ex (\<lambda>node. case fmlookup (tasks g) (node_id node) of
            Some record \<Rightarrow> \<not> task_definition_matches record node | None \<Rightarrow> False) nodes" for nodes ord
  proof -
    note topo = graph_topological_ids [OF ok]
    have nodes: "set (map ((!) nodes) ord) = set nodes" using topo(2) by (rule set_map_nth)
    have "distinct (map node_id (map ((!) nodes) ord))" using topo(1) by (simp add: comp_def)
    moreover have "\<forall>n \<in> set nodes. \<forall>r. fmlookup (tasks g) (node_id n) = Some r \<longrightarrow> task_definition_matches r n"
      using m by (fastforce simp: list_ex_iff)
    ultimately show ?thesis
      using inv topo(4) closure_inv_attach [of g "map ((!) nodes) ord" pfx owner] own
        edge_inv_fold_attach [of g "map ((!) nodes) ord" pfx owner]
      unfolding nodes by (simp add: dep_inv_def graph_wf_def graph_ids_def)
  qed
  show ?thesis
  proof (cases "normalize_and_validate_graph owner nodes0")
    case (Ok nodes)
    show ?thesis
    proof (cases "graph_topological_indices nodes")
      case (Some ord)
      have reset: "dep_inv g'" if "check_attached owner nodes g = None"
          "reset_attached_terminal_nodes pfx nodes ord g = (r, g')" for r g'
        using dep_inv_reset_attached [OF Ok Some inv that(1), of pfx] that(2) by simp
      show ?thesis
        using inv fresh [OF Ok Some] reset
        by (auto simp: attach_graph_def Ok Some Let_def upd split: option.splits prod.splits outcome.splits)
    qed (simp add: attach_graph_def Ok inv)
  qed (simp_all add: attach_graph_def inv)
qed

lemma dep_inv_erase_task:
  assumes "dep_inv g"
  shows "dep_inv (erase_task t g)"
proof -
  have deps: "deps_of (erase_task t g) x = (if x = t then None else deps_of g x)" for x
    by (simp add: deps_of_def)
  have list: "dep_list (dependents (erase_task t g)) d =
      (if d = t then [] else filter (\<lambda>x. x \<noteq> t) (dep_list (dependents g) d))" for d
    by simp
  have "edge_inv (erase_task t g)"
    using assms unfolding dep_inv_def edge_inv_def dep_edges_dep_list dependents_list_dep_list list deps
    by simp
  moreover have "closure_inv (erase_task t g)"
    using assms unfolding dep_inv_def closure_inv_def deps by (metis erase_task_fields(6) option.distinct(1))
  ultimately show ?thesis by (simp add: dep_inv_def)
qed

lemma dep_inv_fold_erase: "dep_inv g \<Longrightarrow> dep_inv (fold erase_task ts g)"
  by (rule fold_invariant) (auto intro: dep_inv_erase_task)

lemma dep_inv_detach_owner:
  assumes inv: "dep_inv g" and own: "own_inv g"
  shows "dep_inv (snd (detach_owner owner mode g))"
proof (cases "\<exists>graph. fmlookup (owner_graphs g) owner = Some graph \<and> (og_attached graph \<or> mode = RemoveMode)")
  case False
  then show ?thesis
    using inv by (cases mode) (auto simp: detach_owner_def Let_def split: option.splits)
next
  case True
  then obtain graph where graph: "fmlookup (owner_graphs g) owner = Some graph"
    and mode: "og_attached graph \<or> mode = RemoveMode" by blast
  let ?ts = "og_task_ids graph"
  let ?ret = "filter (\<lambda>t. \<not> other_owner g owner t) ?ts"
  let ?g1 = "released owner ?ts g"
  have gone: "owned (task_owners ?g1) t o' \<longleftrightarrow> owned (task_owners g) t o' \<and> o' \<noteq> owner" for t o'
    using own graph by (auto simp: owned_released own_inv_def attached_to_def)
  have g1: "dep_inv ?g1"
    using inv by (auto simp: dep_inv_def edge_inv_def closure_inv_def dependents_list_def gone deps_of_def)
  have "dep_inv (fold (\<lambda>t g. snd (cancel_task_locked t ''dependency cancelled'' g)) ?ret ?g1)"
    using g1 by (rule fold_invariant) (rule same_deps_inv [OF same_deps_cancel_task_locked])
  moreover have "dep_inv (fold erase_task ?ret ?g1)"
    using g1 by (rule dep_inv_fold_erase)
  moreover have "dep_inv (g'\<lparr>owner_graphs := G\<rparr>) = dep_inv g'" for G and g' :: "('a, 'b, 'c) inner"
    by (simp add: dep_inv_def edge_inv_def closure_inv_def dependents_list_def)
  ultimately show ?thesis
    unfolding detach_owner_eq [OF own graph mode] by (cases mode) (simp_all add: Let_def)
qed

lemma dep_inv_insert_task:
  assumes inv: "dep_inv g" and own: "own_inv g" and "distinct ds"
  shows "dep_inv (snd (insert_task t p prio ds pol g))"
proof -
  let ?g = "snd (insert_task t p prio ds pol g)"
  have "deps_of ?g x = deps_of g x" if "owned (task_owners g) x o'" for x o'
    using that own_inv_exists [OF own that]
    by (auto simp: insert_task_def Let_def deps_of_def has_owners_owned split: prod.splits option.splits)
  moreover have "task_owners ?g = task_owners g"
    using same_owners_insert_task [of g t p prio ds pol] by (simp add: same_owners_def)
  ultimately have "closure_inv ?g"
    using inv by (simp add: dep_inv_def closure_inv_def)
  then show ?thesis using edge_inv_insert_task assms by (auto simp: dep_inv_def)
qed

lemma dep_inv_remove_task: "dep_inv g \<Longrightarrow> dep_inv (snd (remove_task t g))"
  using dep_inv_fold_erase [of g "[t]"] by (simp add: remove_task_def)

lemma dep_inv_exec_op:
  "dep_inv g \<Longrightarrow> own_inv g \<Longrightarrow> op_allowed op \<Longrightarrow> dep_inv (snd (exec_op pfx lease op g))"
  by (cases op)
     (simp_all add: dep_inv_attach_graph dep_inv_detach_owner dep_inv_insert_task dep_inv_remove_task,
      (rule same_deps_inv, rule same_deps_ops, assumption)+)

lemma dep_inv_init: "dep_inv with_lease"
  by (simp add: dep_inv_def edge_inv_def closure_inv_def dep_edges_def dependents_list_def owned_def)

lemma reachable_dep_inv: "reachable pfx lease g \<Longrightarrow> dep_inv g"
  by (induction rule: reachable.induct) (auto intro: dep_inv_init dep_inv_exec_op reachable_own_inv)

end
