(* ===== verification/Store_Example.thy ===== *)
theory Store_Example
  imports Store_Deps
begin

text \<open>
  A concrete run of the store, written out, for the witnesses of the store's properties: the
  example graph is attached, its first task is taken by a worker, and so on.
\<close>

lemma example_topological: "graph_topological_indices example_graph = Some [2, 1, 0]"
  by code_simp

lemma example_node_sel [simp]:
  "node_id (example_node t deps) = t" "node_dependencies (example_node t deps) = deps"
  "node_task (example_node t deps) = \<lparr>new_priority = High, new_payload = ()\<rparr>"
  "node_policy (example_node t deps) = \<lparr>lease_duration = 30, retry = RetryNone\<rparr>"
  by (simp_all add: example_node_def)

definition example_record :: "nat \<Rightarrow> nat list \<Rightarrow> (unit, nat) task_state \<Rightarrow> (unit, unit, nat) task_record" where
  "example_record t deps st = fresh_record (example_node t deps) st"

definition example_state :: "(unit, unit, nat) inner" where
  "example_state = with_lease\<lparr>
     tasks := fmupd 3 (example_record 3 [1, 2] (Pending 2)) (fmupd 2 (example_record 2 [1] (Pending 1))
       (fmupd 1 (example_record 1 [] Ready) fmempty)),
     dependents := fmupd 2 [3] (fmupd 1 [2, 3] fmempty),
     remaining := fmupd 3 2 (fmupd 2 1 (fmupd 1 0 fmempty)),
     ready_high := [1],
     task_owners := fmupd 3 {example_owner} (fmupd 2 {example_owner} (fmupd 1 {example_owner} fmempty)),
     owner_graphs := fmupd example_owner \<lparr>og_task_ids = [1, 2, 3], og_attached = True\<rparr> fmempty\<rparr>"

lemma example_store_eq: "example_store = example_state"
proof -
  let ?ns = "[example_node 1 [], example_node 2 [1], example_node 3 [1, 2]]"
  let ?init = "with_lease :: (unit, unit, nat) inner"
  have "snd (exec_op example_pfx 60 (AttachGraph example_owner example_graph) ?init) =
    (fold (attach_node example_pfx example_owner) ?ns ?init)
      \<lparr>owner_graphs := fmupd example_owner \<lparr>og_task_ids = [1, 2, 3], og_attached = True\<rparr> fmempty\<rparr>"
    by (simp add: attach_graph_def example_graph_valid example_topological Let_def)
       (simp add: example_graph_def fold_attach_node_fields)
  also have "fold (attach_node example_pfx example_owner) ?ns ?init =
    example_state\<lparr>owner_graphs := fmempty\<rparr>"
    by (simp add: attach_node_fresh resettable_at_def succeeded_at_def)
       (simp add: example_state_def with_lease_def push_dependents_def push_dependent_def add_owner_def
         example_record_def numeral_2_eq_2)
  finally show ?thesis unfolding example_store_def by (simp add: example_state_def)
qed

text \<open>Task 1 is taken by a worker.\<close>

definition example_running :: "(unit, unit, nat) inner" where
  "example_running =
     snd (exec_op example_pfx 60 (TakeReady 1000 1 ''w/1'') (snd (exec_op example_pfx 60 (PopReady High) example_store)))"

lemma reachable_example_running: "reachable example_pfx 60 example_running"
  unfolding example_running_def by (intro reachable_step reachable_example_store) simp_all

lemma example_running_eq:
  "example_running = example_state\<lparr>ready_high := [], inner_next_sequence := 1,
     tasks := fmupd 1 (example_record 1 [] (Running ''w/1'' 1)
         \<lparr>r_attempt := 1, lease_sequence := 0, lease_until_ms := Some (lease_deadline 60
            \<lparr>lease_duration = 30, retry = RetryNone\<rparr> 1000)\<rparr>) (tasks example_state)\<rparr>"
  unfolding example_running_def example_store_eq
  by (simp add: example_state_def with_lease_def pop_ready_def take_ready_def take_ready_locked_def
      example_record_def next_sequence_def saturating_add_def fresh_record_def)

lemma example_running_leased: "running_lease_matches example_running 1 ''w/1'' 1"
  by (simp add: example_running_eq running_lease_matches_Some example_record_def fresh_record_def)

section \<open>The invariant of the store\<close>

text \<open>
  C3: In every reachable state of the store: the ready queues are sorted by the sort prefix and
  the schedule by its deadlines; a task has a lease deadline exactly while it is running,
  runs under its current attempt, and has its payload; a task is held by an owner exactly
  when the attached graph of the owner lists it, and then it exists; a task is listed as a
  dependent only of the tasks it depends on; and who holds a task holds what it depends on.
\<close>

theorem reachable_store_invariant:
  assumes "reachable pfx lease g"
  shows "(\<forall>p. sorted (map pfx (ready_queue p g))) \<and> sorted_wrt (<) (map fst (scheduled g))
     \<and> (\<forall>t r. fmlookup (tasks g) t = Some r \<longrightarrow>
          (is_running (r_state r) \<longleftrightarrow> lease_until_ms r \<noteq> None)
          \<and> (\<forall>tok a. r_state r = Running tok a \<longrightarrow> a = r_attempt r) \<and> r_payload r \<noteq> None)
     \<and> (\<forall>t owner. owned (task_owners g) t owner \<longleftrightarrow> attached_to (owner_graphs g) owner t)
     \<and> (\<forall>t owner. owned (task_owners g) t owner \<longrightarrow> (\<exists>r. fmlookup (tasks g) t = Some r))
     \<and> (\<forall>d t. t \<in> set (dependents_list g d) \<longrightarrow>
          (\<exists>r. fmlookup (tasks g) t = Some r \<and> d \<in> set (r_dependencies r)))
     \<and> (\<forall>t owner r d. owned (task_owners g) t owner \<longrightarrow> fmlookup (tasks g) t = Some r \<longrightarrow>
          d \<in> set (r_dependencies r) \<longrightarrow> owned (task_owners g) d owner)"
proof -
  have base: "queues_ok pfx g" "recs_ok (tasks g)"
    using reachable_base_inv [OF assms] by (simp_all add: base_inv_def)
  have own: "own_inv g" using reachable_own_inv [OF assms] .
  have dep: "edge_inv g" "closure_inv g" using reachable_dep_inv [OF assms] by (simp_all add: dep_inv_def)
  have "\<exists>r. fmlookup (tasks g) t = Some r \<and> d \<in> set (r_dependencies r)"
    if edge: "t \<in> set (dependents_list g d)" for d t
  proof -
    obtain ds where "deps_of g t = Some ds" "d \<in> set ds"
      using dep(1) edge unfolding edge_inv_def dependents_list_edges by blast
    then show ?thesis by (auto simp: deps_of_def)
  qed
  moreover have "owned (task_owners g) d owner"
    if "owned (task_owners g) t owner" "fmlookup (tasks g) t = Some r" "d \<in> set (r_dependencies r)" for t owner r d
    using dep(2) that unfolding closure_inv_def by (auto simp: deps_of_def)
  moreover have "\<exists>r. fmlookup (tasks g) t = Some r" if "owned (task_owners g) t owner" for t owner
    using own_inv_exists [OF own that] by blast
  ultimately show ?thesis
    using base own unfolding queues_ok_def sched_ok_def recs_ok_def rec_ok_def own_inv_def by blast
qed

theorem reachable_store_invariant_witness:
  "\<exists>r. fmlookup (tasks example_running) 1 = Some r \<and> lease_until_ms r \<noteq> None
     \<and> (\<forall>owner. owned (task_owners example_running) 1 owner \<longleftrightarrow> attached_to (owner_graphs example_running) owner 1)"
proof -
  note inv = reachable_store_invariant [OF reachable_example_running]
  obtain r where r: "fmlookup (tasks example_running) 1 = Some r" "is_running (r_state r)"
    by (simp add: example_running_eq example_record_def fresh_record_def)
  have "is_running (r_state r) \<longleftrightarrow> lease_until_ms r \<noteq> None" using inv r(1) by blast
  then show ?thesis using inv r by (intro exI [of _ r]) simp
qed

end
