(* ===== verification/Store_Detach.thy ===== *)
theory Store_Detach
  imports Store_Example
begin

text \<open>
  What the store promises about failures and about owners coming and going: how far a failure
  spreads, that detaching an owner leaves the tasks of all other owners alone, and what is left
  of the tasks nobody owns any more.
\<close>

section \<open>Failure\<close>

lemma sched_ok_fail_dependents_locked:
  "sched_ok (scheduled g) \<Longrightarrow> sched_ok (scheduled (fail_dependents_locked d err g))"
  by (rule fail_dependents_locked_invariant) (simp_all add: sched_ok_fail_dependent)

text \<open>
  C9: when the holder of a lease reports a final failure, the task becomes \<open>Failed\<close>, and exactly
  the unfinished tasks reachable from it over dependency edges become \<open>Failed\<close> with the task as
  the cause, all without a lease deadline. Their records are otherwise as before, and so is the record of
  every other task. The failed tasks leave all ready and scheduled queues, and the others keep their
  place there. Dependency edges, counters of open dependencies, owners, graphs and the sequence
  counter are as before.
\<close>

theorem complete_failure_exact:
  assumes "reachable pfx lease g" "running_lease_matches g t tok a"
  shows "\<exists>g'. complete_failure_and_fail_dependents_if_running t tok a err derr g = (Ok True, g') \<and>
    (let F = {x. (t, x) \<in> (dep_edges (dependents g))\<^sup>+ \<and> \<not> terminal_at (tasks g) x} in
     (\<forall>x. fmlookup (tasks g') x =
        map_option (\<lambda>r.
          if x = t then r\<lparr>r_state := Failed err None, lease_until_ms := None\<rparr>
          else if x \<in> F then r\<lparr>r_state := Failed derr (Some t), lease_until_ms := None\<rparr>
          else r) (fmlookup (tasks g) x)) \<and>
     (\<forall>p. ready_queue p g' = filter (\<lambda>x. x \<noteq> t \<and> x \<notin> F) (ready_queue p g)) \<and>
     (\<forall>k. sched_at (scheduled g') k = filter (\<lambda>x. x \<noteq> t \<and> x \<notin> F) (sched_at (scheduled g) k)) \<and>
     sched_ok (scheduled g') \<and>
     dependents g' = dependents g \<and> remaining g' = remaining g \<and> owner_graphs g' = owner_graphs g \<and>
     task_owners g' = task_owners g \<and> inner_next_sequence g' = inner_next_sequence g)"
proof -
  have ok: "sched_ok (scheduled g)" using reachable_base_inv [OF assms(1)] by (rule base_inv_sched_ok)
  obtain r where r: "fmlookup (tasks g) t = Some r" "r_state r = Running tok a"
    using assms(2) by (auto simp: running_lease_matches_Some)
  let ?g2 = "(remove_queue_memberships t g)\<lparr>tasks := fmupd t
      (r\<lparr>r_state := Failed err None, lease_until_ms := None\<rparr>) (tasks g)\<rparr>"
  let ?g3 = "fail_dependents_locked t derr ?g2"
  let ?F = "{x. (t, x) \<in> (dep_edges (dependents g))\<^sup>+ \<and> \<not> terminal_at (tasks g) x}"
  have eq: "complete_failure_and_fail_dependents_if_running t tok a err derr g = (Ok True, ?g3)"
    using assms(2) r by (simp add: complete_failure_and_fail_dependents_if_running_def Let_def)
  have ok2: "sched_ok (scheduled ?g2)" using ok by (simp add: sched_ok_unschedule)
  note spec = fail_dependents_locked_spec [OF ok2, where root = t and err = derr]
  have live: "live_in ?g2 x = (x \<noteq> t \<and> \<not> terminal_at (tasks g) x)" for x
    by (simp add: live_in_def)
  have "fmlookup (tasks ?g3) x = map_option (\<lambda>r.
      if x = t then r\<lparr>r_state := Failed err None, lease_until_ms := None\<rparr>
      else if x \<in> ?F then r\<lparr>r_state := Failed derr (Some t), lease_until_ms := None\<rparr>
      else r) (fmlookup (tasks g) x)" for x
    unfolding spec(1)
    using r(1) by (cases "fmlookup (tasks g) x") (auto simp: fail_record_def terminal_at_def state_at_def)
  moreover have "ready_queue p ?g3 = filter (\<lambda>x. x \<noteq> t \<and> x \<notin> ?F) (ready_queue p g)" for p
    unfolding spec(2) live by (simp add: retain_task_id_def) (rule filter_cong, auto)
  moreover have "sched_at (scheduled ?g3) k = filter (\<lambda>x. x \<noteq> t \<and> x \<notin> ?F) (sched_at (scheduled g) k)" for k
    unfolding spec(3) live
    by (simp add: sched_at_unschedule [OF sched_ok_distinct [OF ok]]) (rule filter_cong, auto)
  moreover have "sched_ok (scheduled ?g3)" using ok2 by (rule sched_ok_fail_dependents_locked)
  ultimately show ?thesis unfolding eq Let_def by (intro exI [of _ ?g3]) simp
qed

text \<open>In the example, task 2 waits for task 1.\<close>

theorem complete_failure_exact_witness:
  "\<exists>g'. complete_failure_and_fail_dependents_if_running 1 ''w/1'' 1 ''boom'' ''dependency failed'' example_running
       = (Ok True, g') \<and>
     state_at (tasks g') 1 = Some (Failed ''boom'' None) \<and>
     state_at (tasks g') 2 = Some (Failed ''dependency failed'' (Some 1)) \<and>
     task_owners g' = task_owners example_running \<and> remaining g' = remaining example_running"
proof -
  have "(1, 2) \<in> dep_edges (dependents example_running)" "\<not> terminal_at (tasks example_running) 2"
    "fmlookup (tasks example_running) 1 \<noteq> None" "fmlookup (tasks example_running) 2 \<noteq> None"
    by (simp_all add: example_running_eq example_state_def dep_edges_def terminal_at_def state_at_def
        example_record_def fresh_record_def)
  then show ?thesis
    using complete_failure_exact [OF reachable_example_running example_running_leased, of "''boom''" "''dependency failed''"]
    by (auto simp: Let_def state_at_def)
qed

section \<open>Detaching\<close>

lemma dep_edges_owner:
  assumes "dep_inv g" "(d, t) \<in> (dep_edges (dependents g))\<^sup>+" "owned (task_owners g) t owner"
  shows "owned (task_owners g) d owner"
  using assms(2,3)
proof (induction rule: converse_trancl_induct)
  case (base d)
  then show ?case using assms(1) unfolding dep_inv_def edge_inv_def closure_inv_def by blast
next
  case (step d x)
  then show ?case using assms(1) unfolding dep_inv_def edge_inv_def closure_inv_def by blast
qed

lemma cancel_task_locked_spec:
  fixes g :: "('p, 'o, 'id) inner" and err :: string
  assumes "sched_ok (scheduled g)" "fmlookup (tasks g) d = Some r" "\<not> is_terminal (r_state r)"
  defines "g' \<equiv> snd (cancel_task_locked d err g)"
  defines "F \<equiv> (dep_edges (dependents g))\<^sup>+ `` {d}"
  shows "fmlookup (tasks g') x =
      (if x = d then Some (r\<lparr>r_state := Cancelled, lease_until_ms := None\<rparr>)
       else if x \<in> F then map_option (fail_record d err) (fmlookup (tasks g) x) else fmlookup (tasks g) x)"
    and "ready_queue p g' = filter (\<lambda>y. y \<noteq> d \<and> \<not> (y \<in> F \<and> live_in g y)) (ready_queue p g)"
    and "sched_at (scheduled g') k = filter (\<lambda>y. y \<noteq> d \<and> \<not> (y \<in> F \<and> live_in g y)) (sched_at (scheduled g) k)"
proof -
  let ?g2 = "(remove_queue_memberships d g)\<lparr>tasks := fmupd d
      (r\<lparr>r_state := Cancelled, lease_until_ms := None\<rparr>) (tasks g)\<rparr>"
  have eq: "g' = fail_dependents_locked d err ?g2"
    using assms(2,3) by (simp add: g'_def cancel_task_locked_def Let_def)
  have ok2: "sched_ok (scheduled ?g2)" using assms(1) by (simp add: sched_ok_unschedule)
  note spec = fail_dependents_locked_spec [OF ok2, where root = d and err = err]
  have live: "live_in ?g2 x = (x \<noteq> d \<and> live_in g x)" for x
    by (simp add: live_in_def)
  show "fmlookup (tasks g') x =
      (if x = d then Some (r\<lparr>r_state := Cancelled, lease_until_ms := None\<rparr>)
       else if x \<in> F then map_option (fail_record d err) (fmlookup (tasks g) x) else fmlookup (tasks g) x)"
    unfolding eq spec(1) by (simp add: F_def fail_record_def)
  show "ready_queue p g' = filter (\<lambda>y. y \<noteq> d \<and> \<not> (y \<in> F \<and> live_in g y)) (ready_queue p g)"
    unfolding eq spec(2) live by (simp add: retain_task_id_def F_def) (rule filter_cong, auto)
  show "sched_at (scheduled g') k = filter (\<lambda>y. y \<noteq> d \<and> \<not> (y \<in> F \<and> live_in g y)) (sched_at (scheduled g) k)"
    unfolding eq spec(3) live
    by (simp add: sched_at_unschedule [OF sched_ok_distinct [OF assms(1)]] F_def) (rule filter_cong, auto)
qed

lemma sched_ok_cancel: "sched_ok (scheduled g) \<Longrightarrow> sched_ok (scheduled (snd (cancel_task_locked d err g)))"
  by (auto simp: cancel_task_locked_def Let_def sched_ok_unschedule split: option.splits
      intro!: sched_ok_fail_dependents_locked)

text \<open>What a task sees of the store: its record, and its entries in the queues.\<close>

definition task_view :: "('p, 'o, 'id) inner \<Rightarrow> 'id \<Rightarrow>
    ('p, 'o, 'id) task_record option \<times> (priority \<Rightarrow> 'id list) \<times> (u64 \<Rightarrow> 'id list)" where
  "task_view g t = (fmlookup (tasks g) t, \<lambda>p. filter (\<lambda>x. x = t) (ready_queue p g),
     \<lambda>k. filter (\<lambda>x. x = t) (sched_at (scheduled g) k))"

lemma filter_eq_cancel: "P t \<Longrightarrow> filter (\<lambda>x. x = t) (filter P xs) = filter (\<lambda>x. x = t) xs"
  by (induction xs) auto

lemma task_view_cancel:
  assumes "sched_ok (scheduled g)" "t \<noteq> d" "(d, t) \<notin> (dep_edges (dependents g))\<^sup>+"
  shows "task_view (snd (cancel_task_locked d err g)) t = task_view g t"
proof (cases "\<exists>r. fmlookup (tasks g) d = Some r \<and> \<not> is_terminal (r_state r)")
  case True
  then obtain r where r: "fmlookup (tasks g) d = Some r" "\<not> is_terminal (r_state r)" by blast
  show ?thesis
    using assms(2,3) unfolding task_view_def cancel_task_locked_spec [OF assms(1) r]
    by (simp add: filter_eq_cancel del: filter_filter)
next
  case False
  then have "snd (cancel_task_locked d err g) = g"
    by (auto simp: cancel_task_locked_def split: option.splits)
  then show ?thesis by simp
qed

lemma task_view_erase:
  "sched_ok (scheduled g) \<Longrightarrow> t \<noteq> d \<Longrightarrow> task_view (erase_task d g) t = task_view g t"
  by (simp add: task_view_def retain_task_id_def filter_eq_cancel
      sched_at_unschedule [OF sched_ok_distinct] del: filter_filter)

lemma tasks_fold_erase: "tasks (fold erase_task ts g) = fmdrop_set (set ts) (tasks g)"
  by (induction ts arbitrary: g) (auto intro!: fmap_ext)

lemma terminal_at_fail_dependents_locked:
  "terminal_at (tasks g) t \<Longrightarrow> terminal_at (tasks (fail_dependents_locked root err g)) t"
  by (rule fail_dependents_locked_invariant)
     (auto simp: terminal_at_def state_at_def fail_record_def split: option.splits)

lemma terminal_at_cancel:
  "fmlookup (tasks g) t \<noteq> None \<Longrightarrow> terminal_at (tasks (snd (cancel_task_locked t err g))) t"
  "terminal_at (tasks g) t \<Longrightarrow> terminal_at (tasks (snd (cancel_task_locked d err g))) t"
  by (auto simp: cancel_task_locked_def Let_def at_lookup split: option.splits
      intro!: terminal_at_fail_dependents_locked)

lemma terminal_cancel_all:
  assumes "t \<in> set ts" "fmlookup (tasks g) t \<noteq> None"
  shows "terminal_at (tasks (fold (\<lambda>t g. snd (cancel_task_locked t err g)) ts g)) t"
proof -
  have stays: "terminal_at (tasks g) t \<Longrightarrow>
      terminal_at (tasks (fold (\<lambda>t g. snd (cancel_task_locked t err g)) ts g)) t" for ts g
    by (rule fold_invariant) (auto intro: terminal_at_cancel)
  show ?thesis
    using assms
  proof (induction ts arbitrary: g)
    case (Cons d ts)
    have "fmlookup (tasks (snd (cancel_task_locked d err g))) t \<noteq> None"
      using same_owners_cancel_task_locked [of g d err] Cons.prems(2)
      by (auto simp: same_owners_def in_fmdom'_iff subset_iff)
    with Cons show ?case
      using stays [OF terminal_at_cancel(1) [of g t err], of ts] by (cases "t = d") auto
  qed simp
qed

lemma attach_retired:
  assumes "\<exists>gr. fmlookup (owner_graphs g) owner = Some gr \<and> \<not> og_attached gr"
  shows "\<exists>e. attach_graph pfx owner nodes g = (Err e, g)"
proof (rule normalize_and_validate_graph_cases [of owner nodes])
  assume *: "graph_accepted owner nodes" "graph_wf (map normalize_node nodes)"
    "normalize_and_validate_graph owner nodes = Ok (map normalize_node nodes)"
  then obtain ord where "graph_topological_indices (map normalize_node nodes) = Some ord"
    using graph_topological_indices_spec [OF *(2)] by (auto simp: graph_accepted_def)
  with * assms show ?thesis by (auto simp: attach_graph_def Let_def)
qed (auto simp: attach_graph_def)

text \<open>
  C25: detaching an owner, in either mode, does not disturb a task that some other owner still
  holds: the other owner still holds it, and its record (state, attempt, lease, payload) and its
  places in the ready queues and in the retry schedule are the same as before.
\<close>

theorem detach_owner_isolated:
  assumes "reachable pfx lease g" "owned (task_owners g) t other" "other \<noteq> owner"
  shows "let g' = snd (detach_owner owner mode g)
         in owned (task_owners g') t other \<and> task_view g' t = task_view g t"
proof (cases "\<exists>graph. fmlookup (owner_graphs g) owner = Some graph \<and> (og_attached graph \<or> mode = RemoveMode)")
  case False
  then show ?thesis
    using assms(2) by (cases mode) (auto simp: detach_owner_def Let_def split: option.splits)
next
  case True
  then obtain graph where graph: "fmlookup (owner_graphs g) owner = Some graph"
    and mode: "og_attached graph \<or> mode = RemoveMode" by blast
  let ?ret = "filter (\<lambda>t. \<not> other_owner g owner t) (og_task_ids graph)"
  let ?g1 = "released owner (og_task_ids graph) g"
  let ?good = "\<lambda>g'. sched_ok (scheduled g') \<and> dependents g' = dependents g \<and>
      owned (task_owners g') t other \<and> task_view g' t = task_view g t"
  note own = reachable_own_inv [OF assms(1)] and dep = reachable_dep_inv [OF assms(1)]
    and ok = base_inv_sched_ok [OF reachable_base_inv [OF assms(1)]]
  have free: "t \<noteq> d \<and> (d, t) \<notin> (dep_edges (dependents g))\<^sup>+" if "d \<in> set ?ret" for d
    using that assms(2,3) dep_edges_owner [OF dep _ assms(2)] by (auto simp: other_owner_def)
  have start: "?good ?g1"
    using ok assms(2,3) by (simp add: owned_released task_view_def)
  have cancelled: "?good (fold (\<lambda>d g. snd (cancel_task_locked d ''dependency cancelled'' g)) ?ret ?g1)"
    using start
  proof (rule fold_invariant)
    fix d g'
    assume d: "d \<in> set ?ret" and g': "?good g'"
    have "same_owners g' (snd (cancel_task_locked d ''dependency cancelled'' g'))"
      by (rule same_owners_cancel_task_locked)
    moreover have "same_deps g' (snd (cancel_task_locked d ''dependency cancelled'' g'))"
      by (rule same_deps_cancel_task_locked)
    moreover have "sched_ok (scheduled (snd (cancel_task_locked d ''dependency cancelled'' g')))"
      using g' by (simp add: sched_ok_cancel)
    ultimately show "?good (snd (cancel_task_locked d ''dependency cancelled'' g'))"
      using g' free [OF d] by (simp add: task_view_cancel same_owners_def same_deps_def)
  qed
  have erased: "sched_ok (scheduled g') \<and> owned (task_owners g') t other \<and> task_view g' t = task_view g t"
    if "g' = fold erase_task ?ret ?g1" for g'
    unfolding that using start
    by (intro fold_invariant [where P = "\<lambda>g'. sched_ok (scheduled g') \<and> owned (task_owners g') t other \<and>
          task_view g' t = task_view g t"])
       (use free in \<open>auto simp: task_view_erase sched_ok_unschedule\<close>)
  show ?thesis
    unfolding detach_owner_eq [OF own graph mode] snd_conv Let_def
    using cancelled erased [OF refl] by (cases mode) (simp_all add: task_view_def)
qed

text \<open>A second owner of the same graph, for the example.\<close>

definition other_example_owner :: root_owner where
  "other_example_owner = \<lparr>owner_task_id = ''other'', incarnation_id = 9\<rparr>"

definition example_shared :: "(unit, unit, nat) inner" where
  "example_shared = snd (exec_op example_pfx 60 (AttachGraph other_example_owner example_graph) example_store)"

lemma reachable_example_shared: "reachable example_pfx 60 example_shared"
  unfolding example_shared_def by (intro reachable_step reachable_example_store) simp

lemma owned_example_shared:
  "owned (task_owners example_shared) 1 example_owner" "owned (task_owners example_shared) 1 other_example_owner"
proof -
  have valid: "normalize_and_validate_graph other_example_owner example_graph = Ok example_graph"
    by code_simp
  have "\<not> list_ex (\<lambda>node. case fmlookup (tasks example_state) (node_id node) of
            Some record \<Rightarrow> \<not> task_definition_matches record node | None \<Rightarrow> False) example_graph"
    by (simp add: example_graph_def example_state_def example_record_def task_definition_matches_def
        graph_task_sets_match_def)
  then have eq: "example_shared =
      (let g = fold (attach_node example_pfx other_example_owner) (map ((!) example_graph) [2, 1, 0]) example_state
       in g\<lparr>owner_graphs := fmupd other_example_owner
             \<lparr>og_task_ids = map (\<lambda>i. node_id (example_graph ! i)) [2, 1, 0], og_attached = True\<rparr> (owner_graphs g)\<rparr>)"
    unfolding example_shared_def example_store_eq
    by (simp add: attach_graph_def valid example_topological Let_def)
       (simp add: example_state_def other_example_owner_def example_owner_def)
  define ns where "ns = map ((!) example_graph) [2, 1, 0]"
  have "task_owners example_shared = task_owners (fold (attach_node example_pfx other_example_owner) ns example_state)"
    unfolding eq [folded ns_def] by (simp add: Let_def)
  then have "owned (task_owners example_shared) 1 owner' \<longleftrightarrow>
      owned (task_owners example_state) 1 owner' \<or> 1 \<in> node_id ` set ns \<and> owner' = other_example_owner" for owner'
    by (simp add: fold_attach_node_fields)
  then show "owned (task_owners example_shared) 1 example_owner" "owned (task_owners example_shared) 1 other_example_owner"
    by (simp_all add: ns_def example_graph_def example_state_def owned_def)
qed

theorem detach_owner_isolated_witness:
  "other_example_owner \<noteq> example_owner \<and>
   (let g' = snd (detach_owner example_owner CancelMode example_shared)
    in owned (task_owners g') 1 other_example_owner \<and> task_view g' 1 = task_view example_shared 1)"
proof -
  have ne: "other_example_owner \<noteq> example_owner" by (simp add: other_example_owner_def example_owner_def)
  with detach_owner_isolated [OF reachable_example_shared owned_example_shared(2) ne, of CancelMode]
  show ?thesis by simp
qed

text \<open>
  C24: detaching a known owner reports the tasks that lost their last owner as retired and the
  others as retained, in graph order. Afterwards the owner holds no task. In cancel mode every
  retired task has ended and the owner can never be attached again; in remove mode the retired
  tasks and the owner are gone from the store.
\<close>

theorem detach_owner_correct:
  assumes "reachable pfx lease g" "fmlookup (owner_graphs g) owner = Some graph"
    and "og_attached graph \<or> mode = RemoveMode"
  shows "\<exists>g'. detach_owner owner mode g =
      (Ok \<lparr>detached = True, detach_mode_of = mode,
           retired = filter (\<lambda>t. \<not> (\<exists>o'. o' \<noteq> owner \<and> owned (task_owners g) t o')) (og_task_ids graph),
           retained = filter (\<lambda>t. \<exists>o'. o' \<noteq> owner \<and> owned (task_owners g) t o') (og_task_ids graph)\<rparr>, g') \<and>
    (\<forall>t. \<not> owned (task_owners g') t owner) \<and>
    (\<forall>t \<in> set (og_task_ids graph). (\<forall>o'. o' \<noteq> owner \<longrightarrow> \<not> owned (task_owners g) t o') \<longrightarrow>
       (case mode of CancelMode \<Rightarrow> fmlookup (tasks g) t \<noteq> None \<longrightarrow> terminal_at (tasks g') t
                   | RemoveMode \<Rightarrow> fmlookup (tasks g') t = None)) \<and>
    (case mode of
       CancelMode \<Rightarrow> \<forall>nodes. \<exists>e. attach_graph pfx owner nodes g' = (Err e, g')
     | RemoveMode \<Rightarrow> fmlookup (owner_graphs g') owner = None)"
proof -
  let ?ts = "og_task_ids graph"
  let ?ret = "filter (\<lambda>t. \<not> other_owner g owner t) ?ts"
  let ?g1 = "released owner ?ts g"
  let ?g2 = "fold (\<lambda>t g. snd (cancel_task_locked t ''dependency cancelled'' g)) ?ret ?g1"
  define g' where "g' = snd (detach_owner owner mode g)"
  note own = reachable_own_inv [OF assms(1)]
  note eq = detach_owner_eq [OF own assms(2,3)]
  have "own_inv g'" unfolding g'_def by (rule own_inv_detach_owner [OF own])
  have gone: "\<not> owned (task_owners g') t owner" for t
  proof -
    have "\<not> attached_to (owner_graphs g') owner t"
      unfolding g'_def eq by (cases mode) (auto simp: attached_to_def Let_def)
    then show ?thesis using \<open>own_inv g'\<close> by (simp add: own_inv_def)
  qed
  have ended: "terminal_at (tasks ?g2) t" if "t \<in> set ?ret" "fmlookup (tasks g) t \<noteq> None" for t
    using terminal_cancel_all [of t ?ret ?g1 "''dependency cancelled''"] that
      base_inv_sched_ok [OF reachable_base_inv [OF assms(1)]] by simp
  have erased: "fmlookup (tasks (fold erase_task ?ret ?g1)) t = None" if "t \<in> set ?ret" for t
    using that by (simp add: tasks_fold_erase)
  have again: "\<exists>e. attach_graph pfx owner nodes g' = (Err e, g')" if "mode = CancelMode" for nodes
  proof -
    have "\<exists>gr. fmlookup (owner_graphs g') owner = Some gr \<and> \<not> og_attached gr"
      unfolding g'_def eq using that by (auto simp: Let_def)
    then show ?thesis by (rule attach_retired)
  qed
  have res: "detach_owner owner mode g =
      (Ok \<lparr>detached = True, detach_mode_of = mode, retired = ?ret, retained = filter (other_owner g owner) ?ts\<rparr>, g')"
    unfolding g'_def eq by simp
  have fate: "case mode of CancelMode \<Rightarrow> fmlookup (tasks g) t \<noteq> None \<longrightarrow> terminal_at (tasks g') t
                         | RemoveMode \<Rightarrow> fmlookup (tasks g') t = None" if "t \<in> set ?ret" for t
    unfolding g'_def eq using ended [OF that] erased [OF that] by (cases mode) (simp_all add: Let_def)
  have key: "case mode of CancelMode \<Rightarrow> \<forall>nodes. \<exists>e. attach_graph pfx owner nodes g' = (Err e, g')
                        | RemoveMode \<Rightarrow> fmlookup (owner_graphs g') owner = None"
  proof (cases mode)
    case RemoveMode
    then show ?thesis unfolding g'_def eq by (simp add: Let_def)
  qed (simp add: again)
  have "\<forall>t \<in> set ?ts. (\<forall>o'. o' \<noteq> owner \<longrightarrow> \<not> owned (task_owners g) t o') \<longrightarrow>
       (case mode of CancelMode \<Rightarrow> fmlookup (tasks g) t \<noteq> None \<longrightarrow> terminal_at (tasks g') t
                   | RemoveMode \<Rightarrow> fmlookup (tasks g') t = None)"
    by (intro ballI impI fate) (auto simp: other_owner_def)
  with res gone key show ?thesis by (intro exI [of _ g'] conjI) (simp_all add: other_owner_def [abs_def])
qed

theorem detach_owner_correct_witness:
  "\<exists>g'. detach_owner example_owner CancelMode example_store =
      (Ok \<lparr>detached = True, detach_mode_of = CancelMode, retired = [1, 2, 3], retained = []\<rparr>, g') \<and>
    (\<forall>t. \<not> owned (task_owners g') t example_owner) \<and> terminal_at (tasks g') 3"
proof -
  have graph: "fmlookup (owner_graphs example_store) example_owner = Some \<lparr>og_task_ids = [1, 2, 3], og_attached = True\<rparr>"
    and none: "\<not> (\<exists>o'. o' \<noteq> example_owner \<and> owned (task_owners example_store) t o')"
    and ex: "fmlookup (tasks example_store) 3 \<noteq> None" for t
    by (auto simp: example_store_eq example_state_def owned_def split: option.splits if_splits)
  obtain g' where g': "detach_owner example_owner CancelMode example_store =
      (Ok \<lparr>detached = True, detach_mode_of = CancelMode,
         retired = filter (\<lambda>t. \<not> (\<exists>o'. o' \<noteq> example_owner \<and> owned (task_owners example_store) t o')) [1, 2, 3],
         retained = filter (\<lambda>t. \<exists>o'. o' \<noteq> example_owner \<and> owned (task_owners example_store) t o') [1, 2, 3]\<rparr>, g')"
    "\<forall>t. \<not> owned (task_owners g') t example_owner"
    "\<forall>t \<in> set [1, 2, 3]. (\<forall>o'. o' \<noteq> example_owner \<longrightarrow> \<not> owned (task_owners example_store) t o') \<longrightarrow>
       fmlookup (tasks example_store) t \<noteq> None \<longrightarrow> terminal_at (tasks g') t"
    using detach_owner_correct [OF reachable_example_store graph, of CancelMode] by auto
  with none ex show ?thesis by auto
qed

end
