(* ===== verification/Store_Lease.thy ===== *)
theory Store_Lease
  imports Store_Detach
begin

text \<open>
  Leases. A worker holds a task through the pair of a lease token and an attempt number; every
  operation that a worker may call is fenced by it. The locale \<open>fenced_op\<close> is the contract of
  such an operation (a stale lease is refused and changes nothing), \<open>finishing_op\<close> the one of an
  operation that also gives the lease up; both are interpreted on the operations of the store.
  Further: only \<open>take_ready\<close> starts a lease, leases are numbered without repetition, and the
  order in which expired leases are put back does not depend on the hash map.
\<close>

section \<open>Fenced operations\<close>

locale fenced_op =
  fixes op :: "'id \<Rightarrow> string \<Rightarrow> u32 \<Rightarrow> ('p, 'o, 'id) inner \<Rightarrow> bool store_result \<times> ('p, 'o, 'id) inner"
  assumes stale: "\<not> running_lease_matches g t tok a \<Longrightarrow> op t tok a g = (Ok False, g)"
    and live: "running_lease_matches g t tok a \<Longrightarrow> fst (op t tok a g) = Ok True"
begin

lemma accepted_iff: "fst (op t tok a g) = Ok True \<longleftrightarrow> running_lease_matches g t tok a"
  using stale live by (metis fst_conv outcome.inject(1))

lemma refused: "fst (op t tok a g) \<noteq> Ok True \<Longrightarrow> op t tok a g = (Ok False, g)"
  using stale live by blast

end

locale finishing_op = fenced_op op
  for op :: "'id \<Rightarrow> string \<Rightarrow> u32 \<Rightarrow> ('p, 'o, 'id) inner \<Rightarrow> bool store_result \<times> ('p, 'o, 'id) inner" +
  assumes ends: "running_lease_matches g t tok a \<Longrightarrow> \<not> running_lease_matches (snd (op t tok a g)) t tok' a'"
begin

lemma lease_over: "\<not> running_lease_matches (snd (op t tok a g)) t tok a"
  using stale ends by (cases "running_lease_matches g t tok a") auto

lemma at_most_once: "op t tok a (snd (op t tok a g)) = (Ok False, snd (op t tok a g))"
  by (rule stale [OF lease_over])

end

text \<open>The lease a record holds: token, attempt, sequence number and the priority of the task.\<close>

definition record_lease :: "('p, 'o, 'id) task_record \<Rightarrow> (string \<times> u32 \<times> u64 \<times> priority) option" where
  "record_lease r =
     (case r_state r of Running tok a \<Rightarrow> Some (tok, a, lease_sequence r, r_priority r) | _ \<Rightarrow> None)"

definition lease_at :: "('id, ('p, 'o, 'id) task_record) fmap \<Rightarrow> 'id \<Rightarrow> (string \<times> u32 \<times> u64 \<times> priority) option" where
  "lease_at ts t = Option.bind (fmlookup ts t) record_lease"

lemma record_lease_state:
  "r_state r = Running tok a \<Longrightarrow> record_lease r = Some (tok, a, lease_sequence r, r_priority r)"
  "\<not> is_running (r_state r) \<Longrightarrow> record_lease r = None"
  by (auto simp: record_lease_def split: task_state.splits)

lemma record_lease_Some_iff:
  "record_lease r = Some (tok, a, s) \<longleftrightarrow> r_state r = Running tok a \<and> (lease_sequence r, r_priority r) = s"
  by (auto simp: record_lease_def split: task_state.splits)

lemma record_lease_keep [simp]:
  "record_lease (r\<lparr>r_payload := p\<rparr>) = record_lease r"
  "record_lease (r\<lparr>r_execution_policy := e\<rparr>) = record_lease r"
  "record_lease (r\<lparr>lease_until_ms := u\<rparr>) = record_lease r"
  "record_lease (r\<lparr>r_attempt := b\<rparr>) = record_lease r"
  "record_lease (r\<lparr>r_dependencies := ds\<rparr>) = record_lease r"
  by (simp_all add: record_lease_def split: task_state.splits)

lemma record_lease_upd [simp]:
  "record_lease (r\<lparr>r_state := st\<rparr>) = (case st of Running tok a \<Rightarrow> Some (tok, a, lease_sequence r, r_priority r) | _ \<Rightarrow> None)"
  by (simp add: record_lease_def split: task_state.splits)

lemma record_lease_make [simp]:
  "record_lease \<lparr>definition_payload = dp, definition_execution_policy = dpol, r_payload = p, r_state = st,
     r_priority = prio, r_attempt = att, lease_until_ms = u, lease_sequence = sq, r_execution_policy = pol,
     r_dependencies = ds\<rparr> = (case st of Running tok a \<Rightarrow> Some (tok, a, sq, prio) | _ \<Rightarrow> None)"
  by (simp add: record_lease_def split: task_state.splits)

lemma record_lease_fresh: "\<not> is_running st \<Longrightarrow> record_lease (fresh_record node st) = None"
  by (simp add: record_lease_state(2))

lemma lease_at_fmupd [simp]:
  "lease_at (fmupd t r ts) t' = (if t' = t then record_lease r else lease_at ts t')"
  by (simp add: lease_at_def)

lemma lease_at_fmdrop [simp]: "lease_at (fmdrop t ts) t' = (if t' = t then None else lease_at ts t')"
  by (simp add: lease_at_def)

lemma lease_at_lookup: "fmlookup ts t = Some r \<Longrightarrow> lease_at ts t = record_lease r"
  by (simp add: lease_at_def)

lemma lease_at_Some_iff:
  "lease_at ts t = Some (tok, a, s) \<longleftrightarrow>
   (\<exists>r. fmlookup ts t = Some r \<and> r_state r = Running tok a \<and> (lease_sequence r, r_priority r) = s)"
  by (auto simp: lease_at_def record_lease_Some_iff bind_eq_Some_conv)

lemma running_lease_matches_state: "running_lease_matches g t tok a \<longleftrightarrow> (\<exists>s. lease_at (tasks g) t = Some (tok, a, s))"
  by (auto simp: running_lease_matches_Some lease_at_Some_iff)

interpretation set_op: fenced_op "\<lambda>t tok a. set_state_if_running t tok a st p"
  for st :: "('o, 'id) task_state" and p :: "'p option"
  by unfold_locales (auto simp: running_lease_matches_Some set_state_if_running_def Let_def
      split: option.splits task_state.splits)

interpretation checkpoint_op: fenced_op "\<lambda>t tok a. checkpoint_payload_if_running t tok a p pol" for p pol
  by unfold_locales (auto simp: running_lease_matches_Some checkpoint_payload_if_running_def
      split: option.splits task_state.splits)

interpretation renew_op: fenced_op "\<lambda>t tok a. renew_lease lease now t tok a" for lease now
  by unfold_locales (auto simp: running_lease_matches_Some renew_lease_def
      split: option.splits task_state.splits)

interpretation retry_now_op: finishing_op "\<lambda>t tok a. retry_now_if_running pfx t tok a prio p" for pfx prio p
  by unfold_locales (auto simp: running_lease_matches_Some retry_now_if_running_def
      split: option.splits task_state.splits)

interpretation retry_later_op: finishing_op "\<lambda>t tok a. retry_later_if_running t tok a err p n" for err p n
  by unfold_locales (auto simp: running_lease_matches_Some retry_later_if_running_def
      split: option.splits task_state.splits)

text \<open>Ending a task: neither the release nor the failure of the dependents makes it run again.\<close>

lemma release_dependent_not_running:
  "lease_at (tasks g) t \<noteq> Some l \<Longrightarrow>
   lease_at (tasks (release_dependent pfx x g)) t \<noteq> Some l"
  by (auto simp: release_dependent_def Let_def state_at_def split: option.splits)

lemma release_dependents_not_running:
  "lease_at (tasks g) t \<noteq> Some l \<Longrightarrow>
   lease_at (tasks (release_dependents_locked pfx root g)) t \<noteq> Some l"
  unfolding release_dependents_locked_def
  by (rule fold_invariant) (auto dest: release_dependent_not_running)

lemma fail_dependent_not_running:
  "lease_at (tasks g) t \<noteq> Some l \<Longrightarrow>
   lease_at (tasks (fail_dependent root err x g)) t \<noteq> Some l"
  by (cases "fmlookup (tasks g) x") (auto simp: lease_at_def fail_record_def)

lemma fail_dependents_not_running:
  "lease_at (tasks g) t \<noteq> Some l \<Longrightarrow>
   lease_at (tasks (fail_dependents_locked root err g)) t \<noteq> Some l"
  by (rule fail_dependents_locked_invariant) (auto dest: fail_dependent_not_running)

lemma complete_success_live:
  "fmlookup (tasks g) t = Some r \<Longrightarrow> r_state r = Running tok a \<Longrightarrow>
   complete_success_and_release_dependents_if_running pfx t tok a out g =
     (Ok True, release_dependents_locked pfx t
        ((remove_queue_memberships t g)
           \<lparr>tasks := fmupd t (r\<lparr>r_state := Succeeded out, lease_until_ms := None\<rparr>) (tasks g)\<rparr>))"
  by (simp add: complete_success_and_release_dependents_if_running_def running_lease_matches_Some Let_def)

lemma complete_failure_live:
  "fmlookup (tasks g) t = Some r \<Longrightarrow> r_state r = Running tok a \<Longrightarrow>
   complete_failure_and_fail_dependents_if_running t tok a err derr g =
     (Ok True, fail_dependents_locked t derr
        ((remove_queue_memberships t g)
           \<lparr>tasks := fmupd t (r\<lparr>r_state := Failed err None, lease_until_ms := None\<rparr>) (tasks g)\<rparr>))"
  by (simp add: complete_failure_and_fail_dependents_if_running_def running_lease_matches_Some Let_def)

lemma complete_stale:
  "\<not> running_lease_matches g t tok a \<Longrightarrow>
   complete_success_and_release_dependents_if_running pfx t tok a out g = (Ok False, g)"
  "\<not> running_lease_matches g t tok a \<Longrightarrow>
   complete_failure_and_fail_dependents_if_running t tok a err derr g = (Ok False, g)"
  by (simp_all add: complete_success_and_release_dependents_if_running_def
      complete_failure_and_fail_dependents_if_running_def)

interpretation success_op:
  finishing_op "\<lambda>t tok a. complete_success_and_release_dependents_if_running pfx t tok a out" for pfx out
proof (unfold_locales, goal_cases)
  case (2 g t tok a)
  then show ?case by (auto simp: running_lease_matches_Some complete_success_live)
next
  case (3 g t tok a tok' a')
  then obtain r where "fmlookup (tasks g) t = Some r" "r_state r = Running tok a"
    by (auto simp: running_lease_matches_Some)
  then show ?case
    unfolding running_lease_matches_state by (simp add: complete_success_live release_dependents_not_running)
qed (rule complete_stale)

interpretation failure_op:
  finishing_op "\<lambda>t tok a. complete_failure_and_fail_dependents_if_running t tok a err derr" for err derr
proof (unfold_locales, goal_cases)
  case (2 g t tok a)
  then show ?case by (auto simp: running_lease_matches_Some complete_failure_live)
next
  case (3 g t tok a tok' a')
  then obtain r where "fmlookup (tasks g) t = Some r" "r_state r = Running tok a"
    by (auto simp: running_lease_matches_Some)
  then show ?case
    unfolding running_lease_matches_state by (simp add: complete_failure_live fail_dependents_not_running)
qed (rule complete_stale)

section \<open>Only \<open>take_ready\<close> starts a lease\<close>

definition not_leased :: "'id \<Rightarrow> string \<times> u32 \<times> u64 \<times> priority \<Rightarrow> ('p, 'o, 'id) inner \<Rightarrow> bool" where
  "not_leased t l g = (lease_at (tasks g) t \<noteq> Some l)"

lemma not_leased_cong: "tasks g' = tasks g \<Longrightarrow> not_leased t l g' = not_leased t l g"
  by (simp add: not_leased_def)

lemma not_leased_upd:
  "not_leased t l (g\<lparr>tasks := fmupd x r (tasks g')\<rparr>) =
     (if x = t then record_lease r \<noteq> Some l else not_leased t l g')"
  by (auto simp: not_leased_def)

lemma not_leased_simps [simp]:
  "not_leased t l (g\<lparr>owner_graphs := G\<rparr>) = not_leased t l g"
  "not_leased t l (g\<lparr>scheduled := sch\<rparr>) = not_leased t l g"
  by (simp_all add: not_leased_def)

lemma not_leased_requeue_one: "not_leased t l g \<Longrightarrow> not_leased t l (requeue_one pfx x g)"
  by (auto simp: requeue_one_def not_leased_def split: option.splits)

lemma not_leased_cancel: "not_leased t l g \<Longrightarrow> not_leased t l (snd (cancel_task_locked x err g))"
  by (auto simp: cancel_task_locked_def not_leased_def Let_def split: option.splits if_splits
      dest!: fail_dependents_not_running [THEN notE, rotated])

lemma not_leased_cancel_all: "not_leased t l g \<Longrightarrow> not_leased t l (snd (cancel_all ids g))"
proof (induction ids arbitrary: g)
  case (Cons x ids)
  obtain r g' where rg: "cancel_task_locked x ''dependency cancelled'' g = (r, g')" by fastforce
  then have "not_leased t l g'"
    using not_leased_cancel [OF Cons.prems, of x "''dependency cancelled''"] by simp
  then show ?case using Cons rg by (cases r) auto
qed simp

lemma not_leased_erase: "not_leased t l g \<Longrightarrow> not_leased t l (fold erase_task ids g)"
  by (rule fold_invariant) (auto simp: not_leased_def)

lemma tasks_split_retired: "split_retired ids (ret, kept, g) = (ret', kept', g') \<Longrightarrow> tasks g' = tasks g"
  by (induction ids "(ret, kept, g)" arbitrary: ret kept g rule: split_retired.induct) (auto split: if_splits)

lemma not_leased_detach: "not_leased t l g \<Longrightarrow> not_leased t l (snd (detach_owner owner mode g))"
proof -
  assume a: "not_leased t l g"
  have drop: "tasks (fold (drop_owner owner) ids g) = tasks g" for ids by (rule fold_field) simp
  have cancel: "not_leased t l g''" if "cancel_all ids g' = (r, g'')" "not_leased t l g'" for ids g' r g''
    using not_leased_cancel_all [OF that(2), of ids] that(1) by simp
  have split: "not_leased t l g'" if "split_retired ids ([], [], g1) = (x, y, g')" "tasks g1 = tasks g"
    for ids g1 x y g' using a that by (auto simp: not_leased_def dest: tasks_split_retired)
  show ?thesis
    using a drop
    by (auto simp: detach_owner_def Let_def split: option.splits prod.splits detach_mode.splits outcome.splits
        intro!: not_leased_erase dest!: split cancel)
qed

lemma not_leased_attach_node: "not_leased t l g \<Longrightarrow> not_leased t l (attach_node pfx owner node g)"
  by (auto simp: attach_node_def not_leased_def Let_def record_lease_fresh split: dependency_insert_state.splits)

lemma not_leased_reset_node: "not_leased t l g \<Longrightarrow> not_leased t l (snd (reset_node pfx node g))"
  by (auto simp: reset_node_def not_leased_def Let_def split: option.splits dependency_insert_state.splits)

lemma not_leased_reset_nodes: "not_leased t l g \<Longrightarrow> not_leased t l (snd (reset_nodes pfx ids ns g))"
proof (induction ns arbitrary: g)
  case (Cons n ns)
  obtain r g' where rg: "reset_node pfx n g = (r, g')" by fastforce
  then have "not_leased t l g'" using not_leased_reset_node [OF Cons.prems, of pfx n] by simp
  then show ?case using Cons rg by (cases r) auto
qed simp

lemma not_leased_attach: "not_leased t l g \<Longrightarrow> not_leased t l (snd (attach_graph pfx owner nodes g))"
proof -
  assume a: "not_leased t l g"
  have fresh: "not_leased t l (fold (attach_node pfx owner) ns g)" for ns
    using a by (rule fold_invariant) (rule not_leased_attach_node)
  have reset: "not_leased t l g'" if "reset_attached_terminal_nodes pfx ns topo g = (r, g')" for ns topo r g'
  proof -
    let ?clear = "\<lambda>tid i. (remove_queue_memberships tid i)
      \<lparr>dependents := remove_dependent_edges tid (dependents i)\<rparr>"
    have "tasks (fold ?clear ids g) = tasks g" for ids by (rule fold_field) simp
    then have *: "not_leased t l (snd (reset_nodes pfx I ns (fold ?clear ids g)))" for I ns ids
      by (intro not_leased_reset_nodes) (simp add: not_leased_cong [of "fold ?clear ids g" g] a)
    have "not_leased t l g'" if "reset_nodes pfx I ns (fold ?clear ids g) = (r, g')" for I ns ids r g'
      using * [of I ns ids] unfolding that by simp
    then show ?thesis
      using that a by (auto simp: reset_attached_terminal_nodes_def Let_def
          split: if_splits prod.splits outcome.splits)
  qed
  show ?thesis
    using a fresh
    by (auto simp: attach_graph_def Let_def split: outcome.splits option.splits prod.splits dest: reset)
qed

lemma not_leased_fenced:
  assumes "not_leased t l g"
  shows "\<not> is_running st \<Longrightarrow> not_leased t l (snd (set_state_if_running x k b st p g))"
    and "not_leased t l (snd (complete_success_and_release_dependents_if_running pfx x k b out g))"
    and "not_leased t l (snd (complete_failure_and_fail_dependents_if_running x k b err derr g))"
    and "not_leased t l (snd (retry_now_if_running pfx x k b prio pl g))"
    and "not_leased t l (snd (retry_later_if_running x k b err pl n g))"
    and "not_leased t l (snd (checkpoint_payload_if_running x k b pl pol g))"
    and "not_leased t l (snd (renew_lease lease now x k b g))"
proof -
  show "not_leased t l (snd (complete_success_and_release_dependents_if_running pfx x k b out g))"
  proof (cases "running_lease_matches g x k b")
    case True
    then show ?thesis using assms
      by (auto simp: running_lease_matches_Some complete_success_live not_leased_def
          dest!: release_dependents_not_running [THEN notE, rotated] split: if_splits)
  qed (simp add: complete_stale assms)
  show "not_leased t l (snd (complete_failure_and_fail_dependents_if_running x k b err derr g))"
  proof (cases "running_lease_matches g x k b")
    case True
    then show ?thesis using assms
      by (auto simp: running_lease_matches_Some complete_failure_live not_leased_def
          dest!: fail_dependents_not_running [THEN notE, rotated] split: if_splits)
  qed (simp add: complete_stale assms)
  show "\<not> is_running st \<Longrightarrow> not_leased t l (snd (set_state_if_running x k b st p g))"
    using assms
    by (auto simp: set_state_if_running_def not_leased_def Let_def split: option.splits task_state.splits)
qed (use assms in \<open>auto simp: not_leased_def Let_def retry_now_if_running_def
      retry_later_if_running_def checkpoint_payload_if_running_def renew_lease_def
      split: option.splits task_state.splits dest: lease_at_lookup\<close>)

lemma not_leased_small:
  assumes "not_leased t l g"
  shows "not_leased t l (snd (insert_task x p prio deps pol g))"
    and "not_leased t l (snd (cancel_and_fail_dependents x derr g))"
    and "not_leased t l (snd (try_mark_ready x g))"
    and "not_leased t l (snd (push_ready pfx prio x g))"
    and "not_leased t l (snd (pop_ready prio g))"
    and "not_leased t l (snd (put_payload x p g))"
    and "not_leased t l (snd (schedule x n g))"
    and "not_leased t l (snd (remove_task x g))"
proof -
  show "not_leased t l (snd (cancel_and_fail_dependents x derr g))"
    using assms by (simp add: cancel_and_fail_dependents_def not_leased_cancel)
qed (use assms in \<open>auto simp: not_leased_def insert_task_def insert_state_def Let_def modify_task_def
      try_mark_ready_def push_ready_def pop_ready_def put_payload_def schedule_def remove_task_def
      split: dependency_insert_state.splits option.splits list.splits dest: lease_at_lookup\<close>)

lemma not_leased_maintenance:
  assumes "not_leased t l g"
  shows "not_leased t l (snd (promote_scheduled pfx now limit g))"
    and "not_leased t l (snd (requeue_expired_leases pfx order now limit g))"
proof -
  have "not_leased t l (snd (promote_loop pfx now limit 0 g))"
    using assms
    by (rule promote_loop_invariant [rotated -1])
       (simp_all add: not_leased_requeue_one)
  then show "not_leased t l (snd (promote_scheduled pfx now limit g))"
    by (simp add: promote_scheduled_def case_prod_unfold Let_def)
  show "not_leased t l (snd (requeue_expired_leases pfx order now limit g))"
    unfolding requeue_expired_leases_def Let_def snd_conv
    using assms by (rule fold_invariant) (auto intro: not_leased_requeue_one)
qed

lemma lease_at_take:
  "lease_at (tasks (snd (take_ready lease now x k g))) t =
     (case fst (take_ready lease now x k g) of
        Ok (Some (p, prio, a, pol)) \<Rightarrow>
          if t = x then Some (k, a, inner_next_sequence g, prio) else lease_at (tasks g) t
      | _ \<Rightarrow> lease_at (tasks g) t)"
  by (auto simp: take_ready_def take_ready_locked_def next_sequence_def Let_def record_lease_def
      split: option.splits)

lemma not_leased_exec_op:
  assumes "not_leased t l g" "op_allowed op" "\<And>now x k. op \<noteq> TakeReady now x k"
  shows "not_leased t l (snd (exec_op pfx lease op g))"
  using assms
  by (cases op) (auto simp: not_leased_attach not_leased_detach not_leased_fenced not_leased_small
      not_leased_maintenance)

lemma lease_started_by_take:
  assumes "op_allowed op" "lease_at (tasks (snd (exec_op pfx lease op g))) t = Some (tok, a, s)"
    and "\<And>now. op \<noteq> TakeReady now t tok"
  shows "lease_at (tasks g) t = Some (tok, a, s)"
proof (cases "\<exists>now x k. op = TakeReady now x k")
  case True
  then show ?thesis using assms by (auto simp: lease_at_take split: outcome.splits option.splits if_splits)
next
  case False
  then show ?thesis using not_leased_exec_op [of t "(tok, a, s)" g op pfx lease] assms(1,2) by (auto simp: not_leased_def)
qed

primrec run_ops ::
  "('id \<Rightarrow> u8 list) \<Rightarrow> duration \<Rightarrow> ('p, 'o, 'id) store_op list \<Rightarrow> ('p, 'o, 'id) inner \<Rightarrow> ('p, 'o, 'id) inner" where
  "run_ops pfx lease [] g = g"
| "run_ops pfx lease (op # ops) g = run_ops pfx lease ops (snd (exec_op pfx lease op g))"

lemma stale_run_ops:
  assumes "\<not> running_lease_matches g t tok a" "list_all op_allowed ops" "\<forall>now. TakeReady now t tok \<notin> set ops"
  shows "\<not> running_lease_matches (run_ops pfx lease ops g) t tok a"
  using assms
proof (induction ops arbitrary: g)
  case (Cons op ops)
  have "op_allowed op" "TakeReady now t tok \<noteq> op" for now using Cons.prems by auto
  then have "\<not> running_lease_matches (snd (exec_op pfx lease op g)) t tok a"
    using Cons.prems(1) lease_started_by_take [of op pfx lease g t tok a] unfolding running_lease_matches_state by blast
  then show ?case using Cons by simp
qed simp

text \<open>
  C10: a worker that has lost its lease stays locked out. Whatever sequence of operations follows,
  by whatever callers, as long as the token is not used for another take of the task, each of the
  six operations that a worker reports with answers \<open>Ok(false)\<close> and leaves the store unchanged.
\<close>

theorem stale_lease_refused_forever:
  assumes "\<not> running_lease_matches g t tok a" "list_all op_allowed ops" "\<forall>now. TakeReady now t tok \<notin> set ops"
  shows "let g' = run_ops pfx lease ops g in
     complete_success_and_release_dependents_if_running pfx t tok a out g' = (Ok False, g') \<and>
     complete_failure_and_fail_dependents_if_running t tok a err derr g' = (Ok False, g') \<and>
     retry_now_if_running pfx t tok a prio p g' = (Ok False, g') \<and>
     retry_later_if_running t tok a err p n g' = (Ok False, g') \<and>
     checkpoint_payload_if_running t tok a p pol g' = (Ok False, g') \<and>
     renew_lease lease now t tok a g' = (Ok False, g')"
  using stale_run_ops [OF assms, of pfx lease] unfolding Let_def
  by (intro conjI success_op.stale failure_op.stale retry_now_op.stale retry_later_op.stale
      checkpoint_op.stale renew_op.stale)

theorem stale_lease_refused_forever_witness:
  "let g' = run_ops example_pfx 60 [RequeueExpired [1, 2, 3] 5000 10, TakeReady 6000 1 ''w/3''] example_running in
     complete_success_and_release_dependents_if_running example_pfx 1 ''w/2'' 1 () g' = (Ok False, g') \<and>
     renew_lease 60 7000 1 ''w/2'' 1 g' = (Ok False, g')"
proof -
  have "\<not> running_lease_matches example_running 1 ''w/2'' 1"
    using example_running_leased by (auto simp: running_lease_matches_Some)
  from stale_lease_refused_forever [OF this, of "[RequeueExpired [1, 2, 3] 5000 10, TakeReady 6000 1 ''w/3'']"]
  show ?thesis by (simp add: Let_def)
qed

text \<open>
  a lease is settled at most once. When its holder has reported a success, a final failure, an
  immediate or a delayed retry, and the store has accepted the report, every later report under
  the same lease is refused and changes nothing.
\<close>

lemma lease_settled_at_most_once:
  assumes "settle \<in> {complete_success_and_release_dependents_if_running pfx t tok a out,
      complete_failure_and_fail_dependents_if_running t tok a err derr,
      retry_now_if_running pfx t tok a prio p, retry_later_if_running t tok a err p n}"
    and "settle g = (Ok True, g1)"
    and "list_all op_allowed ops" "\<forall>now. TakeReady now t tok \<notin> set ops"
  shows "let g' = run_ops pfx lease ops g1 in
     settle g' = (Ok False, g') \<and>
     complete_success_and_release_dependents_if_running pfx t tok a out' g' = (Ok False, g') \<and>
     complete_failure_and_fail_dependents_if_running t tok a err' derr' g' = (Ok False, g')"
proof -
  have "\<not> running_lease_matches (snd (settle g)) t tok a"
    using assms(1) success_op.lease_over failure_op.lease_over retry_now_op.lease_over
      retry_later_op.lease_over by (elim insertE emptyE) simp_all
  then have over: "\<not> running_lease_matches (run_ops pfx lease ops g1) t tok a"
    using stale_run_ops [OF _ assms(3,4)] assms(2) by simp
  from assms(1) have "settle (run_ops pfx lease ops g1) = (Ok False, run_ops pfx lease ops g1)"
    using success_op.stale [OF over] failure_op.stale [OF over] retry_now_op.stale [OF over]
      retry_later_op.stale [OF over] by (elim insertE emptyE) simp_all
  with over show ?thesis by (simp add: Let_def success_op.stale failure_op.stale)
qed

section \<open>The debug assertion\<close>

lemma leased_priority_run_ops:
  assumes "lease_at (tasks (run_ops pfx lease ops g)) t = Some (tok, a, s)" "list_all op_allowed ops"
    and "\<forall>now. TakeReady now t tok \<notin> set ops"
  shows "lease_at (tasks g) t = Some (tok, a, s)"
  using assms
proof (induction ops arbitrary: g)
  case (Cons op ops)
  have op: "op_allowed op" "\<And>now. op \<noteq> TakeReady now t tok" using Cons.prems(2,3) by auto
  have "lease_at (tasks (snd (exec_op pfx lease op g))) t = Some (tok, a, s)" using Cons by simp
  from lease_started_by_take [OF op(1) this op(2)] show ?case .
qed simp

text \<open>
  C40: A worker never trips the debug assertion of \<open>retry_now_if_running\<close>. If it was handed a task with
  a priority, then after any sequence of operations, as long as the token is not used for another take of
  the task, a retry under its lease and with this priority does in a debug build exactly what it does in a release build: a task
  that runs keeps its priority.
\<close>

theorem leased_retry_passes_assertion:
  assumes "take_ready lease now t tok g = (Ok (Some (p, prio, a, pol)), g1)"
    and "list_all op_allowed ops" "\<forall>now. TakeReady now t tok \<notin> set ops"
  shows "retry_now_if_running_debug pfx t tok a prio payload (run_ops pfx lease ops g1) =
    retry_now_if_running pfx t tok a prio payload (run_ops pfx lease ops g1)"
proof -
  have taken: "lease_at (tasks g1) t = Some (tok, a, inner_next_sequence g, prio)"
    using lease_at_take [of lease now t tok g t] assms(1) by simp
  have "r_priority r = prio"
    if "fmlookup (tasks (run_ops pfx lease ops g1)) t = Some r" "r_state r = Running tok a" for r
  proof -
    have "lease_at (tasks (run_ops pfx lease ops g1)) t = Some (tok, a, lease_sequence r, r_priority r)"
      using that by (simp add: lease_at_lookup record_lease_state)
    from leased_priority_run_ops [OF this assms(2,3)] taken show ?thesis by simp
  qed
  then show ?thesis
    by (auto simp: retry_now_if_running_debug_def retry_priority_asserted_def split: option.splits)
qed
theorem leased_retry_passes_assertion_witness:
  "retry_now_if_running_debug example_pfx 1 ''w/1'' 1 High ()
     (run_ops example_pfx 60 [RenewLease 2000 1 ''w/1'' 1, PutPayload 2 ()] example_running) =
   retry_now_if_running example_pfx 1 ''w/1'' 1 High ()
     (run_ops example_pfx 60 [RenewLease 2000 1 ''w/1'' 1, PutPayload 2 ()] example_running)"
proof -
  let ?g = "snd (exec_op example_pfx 60 (PopReady High) example_store)"
  have "take_ready 60 1000 1 ''w/1'' ?g =
      (Ok (Some ((), High, 1, \<lparr>lease_duration = 30, retry = RetryNone\<rparr>)), example_running)"
    unfolding example_running_def example_store_eq
    by (simp add: example_state_def with_lease_def pop_ready_def take_ready_def take_ready_locked_def
        example_record_def next_sequence_def saturating_add_def fresh_record_def)
  from leased_retry_passes_assertion [OF this, of "[RenewLease 2000 1 ''w/1'' 1, PutPayload 2 ()]"] show ?thesis by simp
qed

section \<open>Lease numbers\<close>

text \<open>
  \<open>next_sequence\<close> saturates, so leases carry distinct numbers as long as the counter has not
  reached \<open>u64::MAX\<close>.
\<close>

definition lease_number :: "('id, ('p, 'o, 'id) task_record) fmap \<Rightarrow> 'id \<Rightarrow> u64 option" where
  "lease_number ts t = map_option (\<lambda>(tok, a, s, p). s) (lease_at ts t)"

definition seq_inv :: "('p, 'o, 'id) inner \<Rightarrow> bool" where
  "seq_inv g = (inner_next_sequence g < u64_max \<longrightarrow>
     (\<forall>t s. lease_number (tasks g) t = Some s \<longrightarrow> s < inner_next_sequence g) \<and>
     (\<forall>t t' s. lease_number (tasks g) t = Some s \<longrightarrow> lease_number (tasks g) t' = Some s \<longrightarrow> t = t'))"

lemma next_sequence_cancel_all: "inner_next_sequence (snd (cancel_all ids g)) = inner_next_sequence g"
proof (induction ids arbitrary: g)
  case (Cons t ids)
  have "inner_next_sequence (snd (cancel_task_locked t ''dependency cancelled'' g)) = inner_next_sequence g"
    by (simp add: cancel_task_locked_def Let_def split: option.splits)
  then show ?case using Cons by (auto split: prod.splits outcome.splits)
qed simp

lemma next_sequence_split_retired:
  "split_retired ids (ret, kept, g) = (x, y, g') \<Longrightarrow> inner_next_sequence g' = inner_next_sequence g"
  by (induction ids "(ret, kept, g)" arbitrary: ret kept g rule: split_retired.induct) (auto split: if_splits)

lemma next_sequence_detach: "inner_next_sequence (snd (detach_owner owner mode g)) = inner_next_sequence g"
proof -
  have drop: "inner_next_sequence (fold (drop_owner owner) ids g) = inner_next_sequence g" for ids
    by (rule fold_field) simp
  have erase: "inner_next_sequence (fold erase_task ids g') = inner_next_sequence g'" for ids and g' :: "('p, 'o, 'id) inner"
    by (rule fold_field) simp
  have cancel: "inner_next_sequence g'' = inner_next_sequence g'" if "cancel_all ids g' = (r, g'')"
    for ids r and g' g'' :: "('a, 'b, 'c) inner"
    using next_sequence_cancel_all [of ids g'] that by simp
  show ?thesis
    by (auto simp: detach_owner_def Let_def drop erase
        split: option.splits prod.splits detach_mode.splits outcome.splits
        dest!: next_sequence_split_retired cancel)
qed

lemma next_sequence_attach: "inner_next_sequence (snd (attach_graph pfx owner nodes g)) = inner_next_sequence g"
proof -
  have fresh: "inner_next_sequence (fold (attach_node pfx owner) ns g) = inner_next_sequence g" for ns
    by (rule fold_field) (simp add: attach_node_def Let_def split: prod.splits)
  have node: "reset_node pfx n g' = (r, g'') \<Longrightarrow> inner_next_sequence g'' = inner_next_sequence g'"
    for n r and g' g'' :: "('a, 'b, 'c) inner"
    by (auto simp: reset_node_def Let_def split: option.splits dependency_insert_state.splits if_splits)
  have nodes: "reset_nodes pfx I ns g' = (r, g'') \<Longrightarrow> inner_next_sequence g'' = inner_next_sequence g'"
    for I ns r and g' g'' :: "('a, 'b, 'c) inner"
    by (induction ns arbitrary: g') (auto split: if_splits prod.splits outcome.splits dest!: node)
  have clear: "inner_next_sequence (fold (\<lambda>tid i. (remove_queue_memberships tid i)
      \<lparr>dependents := remove_dependent_edges tid (dependents i)\<rparr>) ids g) = inner_next_sequence g" for ids
    by (rule fold_field) simp
  have "inner_next_sequence g' = inner_next_sequence g"
    if "reset_attached_terminal_nodes pfx ns topo g = (r, g')" for ns topo r g'
    using that clear by (auto simp: reset_attached_terminal_nodes_def Let_def
        split: if_splits prod.splits outcome.splits dest!: nodes)
  with fresh show ?thesis
    by (auto simp: attach_graph_def Let_def split: outcome.splits option.splits prod.splits)
qed

lemma next_sequence_exec_op:
  assumes "\<And>now x k. op \<noteq> TakeReady now x k"
  shows "inner_next_sequence (snd (exec_op pfx lease op g)) = inner_next_sequence g"
proof -
  have "inner_next_sequence (snd (promote_loop pfx now limit 0 g)) = inner_next_sequence g" for now limit
    by (rule promote_loop_invariant [where P = "\<lambda>g'. inner_next_sequence g' = inner_next_sequence g"]) simp_all
  then have promote: "inner_next_sequence (snd (promote_scheduled pfx now limit g)) = inner_next_sequence g" for now limit
    by (simp add: promote_scheduled_def case_prod_unfold Let_def)
  have requeue: "inner_next_sequence (snd (requeue_expired_leases pfx order now limit g)) = inner_next_sequence g" for order now limit
    unfolding requeue_expired_leases_def Let_def snd_conv by (rule fold_field) (simp split: prod.splits)
  show ?thesis
    using assms
    by (cases op)
       (auto simp: next_sequence_attach next_sequence_detach promote requeue insert_task_def Let_def
         set_state_if_running_def complete_success_and_release_dependents_if_running_def
         complete_failure_and_fail_dependents_if_running_def cancel_and_fail_dependents_def cancel_task_locked_def
         retry_now_if_running_def retry_later_if_running_def try_mark_ready_def push_ready_def pop_ready_def
         put_payload_def checkpoint_payload_if_running_def renew_lease_def schedule_def remove_task_def
         split: prod.splits option.splits task_state.splits list.splits)
qed

lemma seq_inv_exec_op:
  assumes "seq_inv g" "op_allowed op"
  shows "seq_inv (snd (exec_op pfx lease op g))"
proof (cases "\<exists>now x k. op = TakeReady now x k")
  case False
  then have "lease_at (tasks g) t = Some l" if "lease_at (tasks (snd (exec_op pfx lease op g))) t = Some l" for t l
    using not_leased_exec_op [of t l g op pfx lease] assms(2) that by (auto simp: not_leased_def)
  then have "lease_number (tasks g) t = Some s" if "lease_number (tasks (snd (exec_op pfx lease op g))) t = Some s" for t s
    using that unfolding lease_number_def map_option_eq_Some by blast
  moreover have "inner_next_sequence (snd (exec_op pfx lease op g)) = inner_next_sequence g"
    using False by (intro next_sequence_exec_op) blast
  ultimately show ?thesis using assms(1) unfolding seq_inv_def by metis
next
  case True
  then obtain now x k where op: "op = TakeReady now x k" by blast
  let ?n = "inner_next_sequence g"
  have step: "?n < saturating_add ?n 1 \<and> ?n < u64_max" if "saturating_add ?n 1 < u64_max"
    using that by (auto simp: word_less_nat_alt sat_simps u64_max_def min_def split: if_splits)
  show ?thesis
  proof (cases "fst (take_ready lease now x k g)")
    case (Ok res)
    show ?thesis
    proof (cases res)
      case None
      then have "snd (take_ready lease now x k g) = g"
        using Ok take_ready_locked_None [of lease now x k g] by (metis prod.collapse take_ready_def)
      then show ?thesis using assms(1) op by simp
    next
      case (Some v)
      obtain p prio a pol where v: "v = (p, prio, a, pol)" by (rule prod_cases4)
      have n: "inner_next_sequence (snd (take_ready lease now x k g)) = saturating_add ?n 1"
        using Ok Some by (auto simp: take_ready_def take_ready_locked_def next_sequence_def Let_def
            split: option.splits if_splits)
      have l: "lease_number (tasks (snd (take_ready lease now x k g))) t =
          (if t = x then Some ?n else lease_number (tasks g) t)" for t
        using Ok Some v by (simp add: lease_number_def lease_at_take)
      show ?thesis
        using assms(1) step unfolding seq_inv_def op exec_op.simps snd_void n l
        by (auto split: if_splits) (meson order.strict_trans less_irrefl)+
    qed
  qed (use assms(1) op in \<open>auto simp: take_ready_def take_ready_locked_def next_sequence_def Let_def
         split: option.splits if_splits\<close>)
qed

lemma seq_inv_init: "seq_inv with_lease"
  by (simp add: seq_inv_def lease_number_def lease_at_def)

lemma reachable_seq_inv: "reachable pfx lease g \<Longrightarrow> seq_inv g"
  by (induction rule: reachable.induct) (auto intro: seq_inv_exec_op seq_inv_init)

section \<open>Expired leases\<close>

definition lists_keys :: "'id list \<Rightarrow> ('id, 'v) fmap \<Rightarrow> bool" where
  "lists_keys order m = (distinct order \<and> set order = fmdom' m)"

lemma expired_entry_Some_iff:
  "expired_entry now g t = Some (u, s, x) \<longleftrightarrow>
   x = t \<and> (\<exists>r. fmlookup (tasks g) t = Some r \<and> is_running (r_state r) \<and> lease_until_ms r = Some u \<and>
     u \<le> now \<and> lease_sequence r = s)"
  by (auto simp: expired_entry_def split: option.splits if_splits)

lemma expired_entry_tid: "expired_entry now g t = Some e \<Longrightarrow> snd (snd e) = t"
  by (cases e) (simp add: expired_entry_Some_iff)

lemma in_map_filter_iff: "y \<in> set (List.map_filter f xs) \<longleftrightarrow> (\<exists>x \<in> set xs. f x = Some y)"
  by (force simp: List.map_filter_def)

lemma mset_map_filter: "mset (List.map_filter f xs) = image_mset the {# y \<in># image_mset f (mset xs). y \<noteq> None #}"
  by (induction xs) (auto simp: List.map_filter_def)

lemma expired_inj:
  assumes "seq_inv g" "inner_next_sequence g < u64_max"
  shows "inj_on (\<lambda>(u, s, t). (u, s)) (set (List.map_filter (expired_entry now g) order))"
proof (rule inj_onI)
  fix e f
  assume "e \<in> set (List.map_filter (expired_entry now g) order)"
    "f \<in> set (List.map_filter (expired_entry now g) order)" "(\<lambda>(u, s, t). (u, s)) e = (\<lambda>(u, s, t). (u, s)) f"
  then obtain u s t t' where e: "e = (u, s, t)" "f = (u, s, t')"
    and "expired_entry now g t = Some (u, s, t)" "expired_entry now g t' = Some (u, s, t')"
    unfolding in_map_filter_iff by (cases e; cases f) (simp add: expired_entry_Some_iff)
  then have "lease_number (tasks g) t = Some s" "lease_number (tasks g) t' = Some s"
    by (auto simp: expired_entry_Some_iff is_running_iff lease_number_def lease_at_def record_lease_state)
  then have "t = t'" using assms unfolding seq_inv_def by blast
  then show "e = f" by (simp add: e)
qed

lemma lists_keys_mset: "lists_keys o1 m \<Longrightarrow> lists_keys o2 m \<Longrightarrow> mset o1 = mset o2"
  by (metis lists_keys_def set_eq_iff_mset_eq_distinct)

text \<open>
  which tasks are put back when leases expire, and in which order, is determined by the store
  alone: as long as fewer than \<open>u64::MAX\<close> leases were ever started, the result of
  \<open>requeue_expired_leases\<close> is the same for every iteration order of the hash map.
\<close>

lemma requeue_order_independent:
  assumes "reachable pfx lease g" "inner_next_sequence g < u64_max"
    and "lists_keys order1 (tasks g)" "lists_keys order2 (tasks g)"
  shows "requeue_expired_leases pfx order1 now limit g = requeue_expired_leases pfx order2 now limit g"
proof -
  have "mset order1 = mset order2" using assms(3,4) by (rule lists_keys_mset)
  then have m: "mset (List.map_filter (expired_entry now g) order1) = mset (List.map_filter (expired_entry now g) order2)"
    by (simp add: mset_map_filter)
  have "expired_leases now order1 g = expired_leases now order2 g"
    unfolding expired_leases_def
    by (rule sort_key_inj_key_eq)
       (use m expired_inj [OF reachable_seq_inv [OF assms(1)] assms(2)] in simp_all)
  then show ?thesis by (simp add: requeue_expired_leases_def)
qed

lemma example_running_keys:
  "distinct order \<Longrightarrow> set order = {1, 2, 3} \<Longrightarrow> lists_keys order (tasks example_running)"
  by (auto simp: lists_keys_def example_running_eq example_state_def fmdom'_alt_def)

lemma lookup_requeue_one:
  "fmlookup (tasks (requeue_one pfx t g)) x =
     (if x = t then map_option (\<lambda>r. r\<lparr>r_state := Ready, lease_until_ms := None\<rparr>) (fmlookup (tasks g) x)
      else fmlookup (tasks g) x)"
  by (auto simp: requeue_one_def split: option.splits)

lemma lookup_fold_requeue:
  "distinct ts \<Longrightarrow> fmlookup (tasks (fold (requeue_one pfx) ts g)) x =
     (if x \<in> set ts then map_option (\<lambda>r. r\<lparr>r_state := Ready, lease_until_ms := None\<rparr>) (fmlookup (tasks g) x)
      else fmlookup (tasks g) x)"
  by (induction ts arbitrary: g) (auto simp: lookup_requeue_one)

lemma mset_queue_fold_requeue:
  "distinct ts \<Longrightarrow> set ts \<subseteq> fmdom' (tasks g) \<Longrightarrow>
   mset (ready_queue p (fold (requeue_one pfx) ts g)) =
     mset (ready_queue p g) + {# t \<in># mset ts. map_option r_priority (fmlookup (tasks g) t) = Some p #}"
proof (induction ts arbitrary: g)
  case (Cons t ts)
  then obtain r where r: "fmlookup (tasks g) t = Some r" by (auto simp: in_fmdom'_iff)
  have "set ts \<subseteq> fmdom' (tasks (requeue_one pfx t g))" using Cons.prems(2) by simp
  then have "mset (ready_queue p (fold (requeue_one pfx) ts (requeue_one pfx t g))) =
      mset (ready_queue p (requeue_one pfx t g)) +
        {# x \<in># mset ts. map_option r_priority (fmlookup (tasks (requeue_one pfx t g)) x) = Some p #}"
    using Cons by simp
  also have "{# x \<in># mset ts. map_option r_priority (fmlookup (tasks (requeue_one pfx t g)) x) = Some p #} =
      {# x \<in># mset ts. map_option r_priority (fmlookup (tasks g) x) = Some p #}"
    using Cons.prems(1) by (intro filter_mset_cong refl) (auto simp: lookup_requeue_one)
  also have "mset (ready_queue p (requeue_one pfx t g)) =
      mset (ready_queue p g) + (if r_priority r = p then {#t#} else {#})"
    using r by (auto simp: requeue_one_def mset_insert_ready_sorted)
  finally show ?case using r by (auto simp: ac_simps)
qed simp

definition lease_expired :: "u64 \<Rightarrow> ('p, 'o, 'id) inner \<Rightarrow> 'id \<Rightarrow> bool" where
  "lease_expired now g t =
     (case fmlookup (tasks g) t of
        Some r \<Rightarrow> is_running (r_state r) \<and> (case lease_until_ms r of Some u \<Rightarrow> u \<le> now | None \<Rightarrow> False)
      | None \<Rightarrow> False)"

definition deadline_at :: "('p, 'o, 'id) inner \<Rightarrow> 'id \<Rightarrow> u64" where
  "deadline_at g t = the (lease_until_ms (the (fmlookup (tasks g) t)))"

lemma distinct_map_sort_key [simp]: "distinct (map f (sort_key k xs)) = distinct (map f xs)"
  by (rule mset_eq_imp_distinct_iff) simp

lemma expired_leases_spec:
  fixes now :: u64
  assumes "lists_keys order (tasks g)"
  defines "E \<equiv> expired_leases now order g"
  shows "distinct (map (snd \<circ> snd) E)" and "(snd \<circ> snd) ` set E = {t. lease_expired now g t}"
    and "sorted (map (deadline_at g \<circ> snd \<circ> snd) E)"
proof -
  let ?L = "List.map_filter (expired_entry now g) order"
  have "map (snd \<circ> snd) (List.map_filter (expired_entry now g) ts) = filter (\<lambda>t. expired_entry now g t \<noteq> None) ts" for ts
    by (induction ts) (auto simp: List.map_filter_simps dest: expired_entry_tid split: option.splits)
  then have "distinct (map (snd \<circ> snd) ?L)" using assms(1) by (simp add: lists_keys_def)
  then show "distinct (map (snd \<circ> snd) E)"
    unfolding E_def expired_leases_def by simp
  have E: "set E = {(u, s, t). expired_entry now g t = Some (u, s, t)}"
    using assms(1) by (force simp: E_def expired_leases_def in_map_filter_iff expired_entry_Some_iff lists_keys_def
        in_fmdom'_iff)
  have "t \<in> (snd \<circ> snd) ` set E \<longleftrightarrow> (\<exists>u s. expired_entry now g t = Some (u, s, t))" for t
    unfolding E by force
  moreover have "(\<exists>u s. expired_entry now g t = Some (u, s, t)) \<longleftrightarrow> lease_expired now g t" for t
    by (auto simp: lease_expired_def expired_entry_Some_iff split: option.splits)
  ultimately show "(snd \<circ> snd) ` set E = {t. lease_expired now g t}" by (intro set_eqI) simp
  have "sorted (map (\<lambda>(u, s, t). (u, s)) E)" by (simp add: E_def expired_leases_def)
  then have "sorted (map fst (map (\<lambda>(u, s, t). (u, s)) E))"
    by (rule sorted_map_mono) (auto simp: mono_on_def less_eq_prod_def)
  then have keys: "sorted (map fst E)" by (simp add: comp_def case_prod_unfold)
  have "map (deadline_at g \<circ> snd \<circ> snd) E = map fst E"
    using E by (intro map_cong refl) (auto simp: deadline_at_def expired_entry_Some_iff)
  with keys show "sorted (map (deadline_at g \<circ> snd \<circ> snd) E)" by (simp only:)
qed

text \<open>
  C28: when leases expire, \<open>requeue_expired_leases\<close> returns how many tasks it moved: all expired
  ones, at most \<open>limit\<close>. It takes those whose deadline passed first. Each moved task becomes
  \<open>Ready\<close> without a lease and is added once to the ready queue of its own priority; no other task
  and no other queue entry changes.
\<close>

theorem requeue_expired_exact:
  fixes g :: "('p, 'o, 'id) inner"
  assumes "lists_keys order (tasks g)"
  shows "\<exists>moved g'. requeue_expired_leases pfx order now limit g = (Ok (length moved), g') \<and>
    distinct moved \<and> set moved \<subseteq> {t. lease_expired now g t} \<and>
    length moved = min limit (card {t. lease_expired now g t}) \<and>
    (\<forall>t \<in> set moved. \<forall>x. lease_expired now g x \<and> x \<notin> set moved \<longrightarrow> deadline_at g t \<le> deadline_at g x) \<and>
    (\<forall>x. fmlookup (tasks g') x =
       (if x \<in> set moved then map_option (\<lambda>r. r\<lparr>r_state := Ready, lease_until_ms := None\<rparr>) (fmlookup (tasks g) x)
        else fmlookup (tasks g) x)) \<and>
    (\<forall>p. mset (ready_queue p g') = mset (ready_queue p g) +
       {# t \<in># mset moved. map_option r_priority (fmlookup (tasks g) t) = Some p #})"
proof -
  define E where "E = expired_leases now order g"
  define ts where "ts = map (snd \<circ> snd) E"
  note E = expired_leases_spec [OF assms, of now, folded E_def]
  have d: "distinct ts" and s: "set ts = {t. lease_expired now g t}" and o: "sorted (map (deadline_at g) ts)"
    using E by (simp_all add: ts_def comp_assoc)
  define moved where "moved = take limit ts"
  define g' where "g' = fold (requeue_one pfx) moved g"
  have dm: "distinct moved" using d by (simp add: moved_def)
  have sub: "set moved \<subseteq> {t. lease_expired now g t}" using set_take_subset [of limit ts] by (simp add: moved_def s)
  have len: "length moved = min limit (card {t. lease_expired now g t})"
    using distinct_card [OF d] by (simp add: moved_def s min.commute)
  have res: "requeue_expired_leases pfx order now limit g = (Ok (length moved), g')"
    by (simp add: requeue_expired_leases_def E_def [symmetric] moved_def g'_def ts_def Let_def take_map fold_map
        comp_def case_prod_unfold min.commute)
  have "deadline_at g t \<le> deadline_at g x" if "t \<in> set moved" "lease_expired now g x" "x \<notin> set moved" for t x
  proof -
    have "x \<in> set (take limit ts @ drop limit ts)" using that(2) s by simp
    then have "x \<in> set (drop limit ts)" using that(3) unfolding set_append moved_def by blast
    moreover have "sorted (map (deadline_at g) (take limit ts @ drop limit ts))" using o by simp
    ultimately show ?thesis using that(1) unfolding map_append sorted_append moved_def by auto
  qed
  moreover have "set moved \<subseteq> fmdom' (tasks g)"
    using sub by (auto simp: lease_expired_def in_fmdom'_iff split: option.splits)
  ultimately show ?thesis
    using res dm sub len lookup_fold_requeue [OF dm, of pfx g] mset_queue_fold_requeue [OF dm, of g _ pfx]
    unfolding g'_def [symmetric] by (intro exI [of _ moved] exI [of _ g']) simp
qed

theorem requeue_expired_exact_witness:
  "\<exists>g'. requeue_expired_leases example_pfx [1, 2, 3] 5000 10 example_running = (Ok 1, g') \<and>
     state_at (tasks g') 1 = Some Ready"
proof -
  have keys: "lists_keys [1, 2, 3] (tasks example_running)" by (auto intro: example_running_keys)
  have exp: "{t. lease_expired 5000 example_running t} = {1}"
    by (auto simp: example_running_eq example_state_def lease_expired_def example_record_def lease_deadline_def
        millis_u64_def as_millis_def saturating_add_def split: if_splits)
  from requeue_expired_exact [OF keys, of example_pfx 5000 10, unfolded exp] obtain moved g' where
    res: "requeue_expired_leases example_pfx [1, 2, 3] 5000 10 example_running = (Ok (length moved), g')"
    and m: "distinct moved" "set moved \<subseteq> {1}" "length moved = min 10 (card {1 :: nat})"
    and g': "\<forall>x. fmlookup (tasks g') x = (if x \<in> set moved
       then map_option (\<lambda>r. r\<lparr>r_state := Ready, lease_until_ms := None\<rparr>) (fmlookup (tasks example_running) x)
       else fmlookup (tasks example_running) x)"
    by (elim exE conjE) (rule that)
  have "moved = [1]" using m by (auto simp: length_Suc_conv)
  moreover have "state_at (tasks g') 1 = Some Ready"
    using g' \<open>moved = [1]\<close> by (simp add: state_at_def example_running_eq)
  ultimately show ?thesis using res by (intro exI [of _ g']) simp
qed

end
