(* ===== verification/Scheduler.thy ===== *)
theory Scheduler
  imports Store_Lease
begin

text \<open>
  The scheduler (\<open>crates/queue/src/scheduler/mod.rs\<close>): the operations that the engine and its
  workers call, on top of the task store. A scheduler is the store's state, the configuration and
  the log of the wake-ups it has sent: \<open>ready_notify\<close> wakes idle workers, \<open>lease_notify\<close> wakes those
  who watch a running lease. The notifier itself (\<open>tokio::sync::Notify\<close>) is not part of the
  repository; what matters to the scheduler is which calls it makes, in which order, and these
  are recorded in \<open>signals\<close>.

  The clock (\<open>now_millis\<close>), the random part of a lease token and the iteration order of the task
  map are arguments.
\<close>

section \<open>State and signals\<close>

datatype signal = ReadyWaiters | ReadyOne | LeaseWaiters

record ('p, 'o, 'id) scheduler =
  store :: "('p, 'o, 'id) inner"
  config :: scheduler_config
  signals :: "signal list"

definition with_config :: "scheduler_config \<Rightarrow> ('p, 'o, 'id) scheduler" where
  "with_config cfg = \<lparr>store = with_lease, config = cfg, signals = []\<rparr>"

definition scheduler_new :: "('p, 'o, 'id) scheduler" where
  "scheduler_new = with_config default_scheduler_config"

definition MAINTENANCE_TICK_LIMIT :: nat where
  "MAINTENANCE_TICK_LIMIT = 128"

datatype task_completion_disposition =
  DispSucceeded | DispRetrying | DispFailed | DispStale

fun applied :: "task_completion_disposition \<Rightarrow> bool" where
  "applied DispStale = False"
| "applied _ = True"

definition notify_ready_workers :: "('p, 'o, 'id) scheduler \<Rightarrow> ('p, 'o, 'id) scheduler" where
  "notify_ready_workers s = s\<lparr>signals := signals s @ [ReadyWaiters, ReadyOne]\<rparr>"

definition notify_lease_waiters :: "('p, 'o, 'id) scheduler \<Rightarrow> ('p, 'o, 'id) scheduler" where
  "notify_lease_waiters s = s\<lparr>signals := signals s @ [LeaseWaiters]\<rparr>"

text \<open>
  \<open>self.store.op(..).await?\<close> followed by the rest of the body: the store changes, an error is
  returned at once.
\<close>

definition call_store ::
  "(('p, 'o, 'id) inner \<Rightarrow> 'a store_result \<times> ('p, 'o, 'id) inner) \<Rightarrow>
   ('a \<Rightarrow> ('p, 'o, 'id) scheduler \<Rightarrow> 'b store_result \<times> ('p, 'o, 'id) scheduler) \<Rightarrow>
   ('p, 'o, 'id) scheduler \<Rightarrow> 'b store_result \<times> ('p, 'o, 'id) scheduler" where
  "call_store op k s =
     (case op (store s) of
        (Ok x, g) \<Rightarrow> k x (s\<lparr>store := g\<rparr>)
      | (Err e, g) \<Rightarrow> (Err e, s\<lparr>store := g\<rparr>)
      | (Panic m, g) \<Rightarrow> (Panic m, s\<lparr>store := g\<rparr>))"

section \<open>Projection operations\<close>

definition attach ::
  "('id \<Rightarrow> u8 list) \<Rightarrow> root_owner \<Rightarrow> ('p, 'id) nodes \<Rightarrow> ('p, 'o, 'id) scheduler \<Rightarrow>
   attach_outcome store_result \<times> ('p, 'o, 'id) scheduler" where
  "attach pfx owner graph =
     call_store (attach_graph pfx owner graph) (\<lambda>outcome s.
       (Ok outcome, if outcome = Attached then notify_ready_workers s else s))"

definition detach ::
  "root_owner \<Rightarrow> detach_mode \<Rightarrow> ('p, 'o, 'id) scheduler \<Rightarrow>
   'id detach_outcome store_result \<times> ('p, 'o, 'id) scheduler" where
  "detach owner mode =
     call_store (detach_owner owner mode) (\<lambda>outcome s.
       (Ok outcome, if detached outcome then notify_lease_waiters s else s))"

definition inspect ::
  "root_owner \<Rightarrow> ('p, 'o, 'id) scheduler \<Rightarrow> 'id projection_view option store_result" where
  "inspect owner s = inspect_owner owner (store s)"

section \<open>Submitting single tasks\<close>

definition submit_with_execution_policy ::
  "('id \<Rightarrow> u8 list) \<Rightarrow> 'id \<Rightarrow> 'p new_task \<Rightarrow> 'id list \<Rightarrow> task_execution_policy \<Rightarrow>
   ('p, 'o, 'id) scheduler \<Rightarrow> 'id store_result \<times> ('p, 'o, 'id) scheduler" where
  "submit_with_execution_policy pfx tid task deps pol =
     call_store (insert_task tid (new_payload task) (new_priority task) (dedup_seen {} deps) pol)
       (\<lambda>inserted s.
          if \<not> inserted then (Ok tid, s)
          else call_store (try_mark_ready tid) (\<lambda>marked s.
            (case marked of
               None \<Rightarrow> (Ok tid, s)
             | Some prio \<Rightarrow>
                 call_store (push_ready pfx prio tid) (\<lambda>_ s. (Ok tid, notify_ready_workers s)) s)) s)"

definition submit ::
  "('id \<Rightarrow> u8 list) \<Rightarrow> 'id \<Rightarrow> 'p new_task \<Rightarrow> 'id list \<Rightarrow> ('p, 'o, 'id) scheduler \<Rightarrow>
   'id store_result \<times> ('p, 'o, 'id) scheduler" where
  "submit pfx tid task deps s =
     submit_with_execution_policy pfx tid task deps (execution_policy (config s)) s"

section \<open>Workers\<close>

text \<open>
  \<open>format!("{worker}/{}", Uuid::new_v4())\<close>: \<open>fresh prio\<close> is the uuid drawn in the round for the
  priority, printed.
\<close>

definition lease_token_of :: "string \<Rightarrow> string \<Rightarrow> string" where
  "lease_token_of worker uuid = worker @ ''/'' @ uuid"

fun next_ready_loop ::
  "duration \<Rightarrow> u64 \<Rightarrow> (priority \<Rightarrow> string) \<Rightarrow> string \<Rightarrow> priority list \<Rightarrow> ('p, 'o, 'id) scheduler \<Rightarrow>
   ('p, 'id) task_lease option store_result \<times> ('p, 'o, 'id) scheduler" where
  "next_ready_loop lease now_ms fresh worker [] s = (Ok None, s)"
| "next_ready_loop lease now_ms fresh worker (prio # prios) s =
     (let token = lease_token_of worker (fresh prio) in
      call_store (pop_ready_and_take lease now_ms prio token) (\<lambda>taken s.
        (case taken of
           Some (tid, payload, priority, attempt, pol) \<Rightarrow>
             (Ok (Some \<lparr>lease_id = tid, lease_payload = payload, lease_priority = priority,
                        lease_attempt = attempt, lease_token = token, lease_worker = worker,
                        lease_policy = pol\<rparr>), s)
         | None \<Rightarrow> next_ready_loop lease now_ms fresh worker prios s)) s)"

definition next_ready ::
  "duration \<Rightarrow> u64 \<Rightarrow> (priority \<Rightarrow> string) \<Rightarrow> string \<Rightarrow> ('p, 'o, 'id) scheduler \<Rightarrow>
   ('p, 'id) task_lease option store_result \<times> ('p, 'o, 'id) scheduler" where
  "next_ready lease now_ms fresh worker = next_ready_loop lease now_ms fresh worker [High, Medium, Low]"

definition complete_success ::
  "('id \<Rightarrow> u8 list) \<Rightarrow> ('p, 'id) task_lease \<Rightarrow> 'o \<Rightarrow> ('p, 'o, 'id) scheduler \<Rightarrow>
   bool store_result \<times> ('p, 'o, 'id) scheduler" where
  "complete_success pfx l output =
     call_store (complete_success_and_release_dependents_if_running pfx (lease_id l) (lease_token l)
         (lease_attempt l) output)
       (\<lambda>updated s. if \<not> updated then (Ok False, s)
                    else (Ok True, notify_lease_waiters (notify_ready_workers s)))"

definition retry_now ::
  "('id \<Rightarrow> u8 list) \<Rightarrow> ('p, 'id) task_lease \<Rightarrow> ('p, 'o, 'id) scheduler \<Rightarrow>
   bool store_result \<times> ('p, 'o, 'id) scheduler" where
  "retry_now pfx l =
     call_store (retry_now_if_running pfx (lease_id l) (lease_token l) (lease_attempt l)
         (lease_priority l) (lease_payload l))
       (\<lambda>updated s. if \<not> updated then (Ok False, s)
                    else (Ok True, notify_lease_waiters (notify_ready_workers s)))"

definition retry_later ::
  "('p, 'id) task_lease \<Rightarrow> string \<Rightarrow> u64 \<Rightarrow> ('p, 'o, 'id) scheduler \<Rightarrow>
   bool store_result \<times> ('p, 'o, 'id) scheduler" where
  "retry_later l err next_ready_at_ms =
     call_store (retry_later_if_running (lease_id l) (lease_token l) (lease_attempt l) err
         (lease_payload l) next_ready_at_ms)
       (\<lambda>updated s. if \<not> updated then (Ok False, s) else (Ok True, notify_lease_waiters s))"

definition fail_completed_lease ::
  "('p, 'id) task_lease \<Rightarrow> string \<Rightarrow> ('p, 'o, 'id) scheduler \<Rightarrow>
   bool store_result \<times> ('p, 'o, 'id) scheduler" where
  "fail_completed_lease l err =
     call_store (complete_failure_and_fail_dependents_if_running (lease_id l) (lease_token l)
         (lease_attempt l) err ''dependency failed'')
       (\<lambda>updated s. if \<not> updated then (Ok False, s) else (Ok True, notify_lease_waiters s))"

datatype retry_schedule_at = RetryAtOnce | RetryAt u64

definition retry_schedule :: "u64 \<Rightarrow> duration \<Rightarrow> retry_schedule_at" where
  "retry_schedule now_ms delay =
     (if delay = 0 then RetryAtOnce else RetryAt (saturating_add now_ms (millis_u64 delay)))"

text \<open>\<open>disp_if\<close> turns the boolean answer of the store into the disposition.\<close>

fun disp_if ::
  "task_completion_disposition \<Rightarrow> bool store_result \<times> 's \<Rightarrow>
   task_completion_disposition store_result \<times> 's" where
  "disp_if d (Ok b, s) = (Ok (if b then d else DispStale), s)"
| "disp_if d (Err e, s) = (Err e, s)"
| "disp_if d (Panic m, s) = (Panic m, s)"

definition complete_failure ::
  "u64 \<Rightarrow> ('id \<Rightarrow> u8 list) \<Rightarrow> ('p, 'id) task_lease \<Rightarrow> string \<Rightarrow> ('p, 'o, 'id) scheduler \<Rightarrow>
   task_completion_disposition store_result \<times> ('p, 'o, 'id) scheduler" where
  "complete_failure now_ms pfx l err s =
     (case retry_delay (retry (lease_policy l)) (lease_attempt l) of
        None \<Rightarrow> disp_if DispFailed (fail_completed_lease l err s)
      | Some delay \<Rightarrow>
          disp_if DispRetrying
            (case retry_schedule now_ms delay of
               RetryAtOnce \<Rightarrow> retry_now pfx l s
             | RetryAt next_ready_at_ms \<Rightarrow> retry_later l err next_ready_at_ms s))"

definition complete_with_disposition ::
  "u64 \<Rightarrow> ('id \<Rightarrow> u8 list) \<Rightarrow> ('p, 'id) task_lease \<Rightarrow> string + 'o \<Rightarrow> ('p, 'o, 'id) scheduler \<Rightarrow>
   task_completion_disposition store_result \<times> ('p, 'o, 'id) scheduler" where
  "complete_with_disposition now_ms pfx l result s =
     (case result of
        Inr output \<Rightarrow> disp_if DispSucceeded (complete_success pfx l output s)
      | Inl err \<Rightarrow> complete_failure now_ms pfx l err s)"

definition complete ::
  "u64 \<Rightarrow> ('id \<Rightarrow> u8 list) \<Rightarrow> ('p, 'id) task_lease \<Rightarrow> string + 'o \<Rightarrow> ('p, 'o, 'id) scheduler \<Rightarrow>
   bool store_result \<times> ('p, 'o, 'id) scheduler" where
  "complete now_ms pfx l result s =
     (let (r, s') = complete_with_disposition now_ms pfx l result s
      in (bind_outcome r (\<lambda>d. Ok (applied d)), s'))"

definition renew_lease_sched ::
  "duration \<Rightarrow> u64 \<Rightarrow> ('p, 'id) task_lease \<Rightarrow> ('p, 'o, 'id) scheduler \<Rightarrow>
   bool store_result \<times> ('p, 'o, 'id) scheduler" where
  "renew_lease_sched lease now_ms l =
     call_store (renew_lease lease now_ms (lease_id l) (lease_token l) (lease_attempt l)) (\<lambda>b s. (Ok b, s))"

definition checkpoint_payload ::
  "('p, 'id) task_lease \<Rightarrow> 'p \<Rightarrow> task_execution_policy \<Rightarrow> ('p, 'o, 'id) scheduler \<Rightarrow>
   bool store_result \<times> ('p, 'o, 'id) scheduler" where
  "checkpoint_payload l payload pol =
     call_store (checkpoint_payload_if_running (lease_id l) (lease_token l) (lease_attempt l) payload pol)
       (\<lambda>b s. (Ok b, s))"

section \<open>Single tasks: cancel, remove, read\<close>

definition cancel_sched ::
  "'id \<Rightarrow> ('p, 'o, 'id) scheduler \<Rightarrow> unit store_result \<times> ('p, 'o, 'id) scheduler" where
  "cancel_sched tid =
     call_store (cancel_and_fail_dependents tid ''dependency cancelled'') (\<lambda>_ s. (Ok (), notify_lease_waiters s))"

definition remove_sched ::
  "'id \<Rightarrow> ('p, 'o, 'id) scheduler \<Rightarrow> unit store_result \<times> ('p, 'o, 'id) scheduler" where
  "remove_sched tid = call_store (remove_task tid) (\<lambda>_ s. (Ok (), notify_lease_waiters s))"

definition dependents_of_sched :: "'id \<Rightarrow> ('p, 'o, 'id) scheduler \<Rightarrow> 'id list store_result" where
  "dependents_of_sched tid s = dependents_of tid (store s)"

definition payload_sched :: "'id \<Rightarrow> ('p, 'o, 'id) scheduler \<Rightarrow> 'p option store_result" where
  "payload_sched tid s = get_payload tid (store s)"

record ('o, 'id) task_view =
  tv_id :: 'id
  tv_state :: "('o, 'id) task_state"
  tv_priority :: priority

record 'id task_view_state =
  tvs_id :: 'id
  tvs_state :: task_state_kind
  tvs_priority :: priority

definition get_sched :: "'id \<Rightarrow> ('p, 'o, 'id) scheduler \<Rightarrow> ('o, 'id) task_view option store_result" where
  "get_sched tid s = bind_outcome (get_view tid (store s)) (\<lambda>v.
     Ok (map_option (\<lambda>(state, prio). \<lparr>tv_id = tid, tv_state = state, tv_priority = prio\<rparr>) v))"

definition get_state_sched :: "'id \<Rightarrow> ('p, 'o, 'id) scheduler \<Rightarrow> 'id task_view_state option store_result" where
  "get_state_sched tid s = bind_outcome (get_view_state tid (store s)) (\<lambda>v.
     Ok (map_option (\<lambda>(state, prio). \<lparr>tvs_id = tid, tvs_state = state, tvs_priority = prio\<rparr>) v))"

definition list_sched :: "'id list \<Rightarrow> ('p, 'o, 'id) scheduler \<Rightarrow> 'id task_view_state list store_result" where
  "list_sched order s = bind_outcome (list_view_states order (store s)) (\<lambda>views.
     Ok (map (\<lambda>(tid, state, prio). \<lparr>tvs_id = tid, tvs_state = state, tvs_priority = prio\<rparr>) views))"

section \<open>Maintenance\<close>

definition maintenance_tick_at ::
  "('id \<Rightarrow> u8 list) \<Rightarrow> 'id list \<Rightarrow> u64 \<Rightarrow> ('p, 'o, 'id) scheduler \<Rightarrow>
   nat store_result \<times> ('p, 'o, 'id) scheduler" where
  "maintenance_tick_at pfx order now_ms =
     call_store (promote_scheduled pfx now_ms MAINTENANCE_TICK_LIMIT) (\<lambda>moved_scheduled.
       call_store (requeue_expired_leases pfx order now_ms MAINTENANCE_TICK_LIMIT) (\<lambda>moved_leases s.
         let moved = moved_scheduled + moved_leases;
             s1 = (if moved > 0 then notify_ready_workers s else s);
             s2 = (if moved_leases > 0 then notify_lease_waiters s1 else s1)
         in (Ok moved, s2)))"

end
