(* ===== verification/Scheduler_Facts.thy ===== *)
theory Scheduler_Facts
  imports Scheduler
begin

text \<open>
  What the scheduler's calls do: the disposition of a completed lease, which task a worker gets,
  that the store under the scheduler only ever goes through store operations, and that idle
  workers and lease watchers are woken whenever there is a reason to.
\<close>

section \<open>Completing a lease\<close>

lemma call_store_Ok: "op (store s) = (Ok x, g) \<Longrightarrow> call_store op k s = k x (s\<lparr>store := g\<rparr>)"
  by (simp add: call_store_def)

lemma notify_fields [simp]:
  "store (notify_ready_workers s) = store s" "store (notify_lease_waiters s) = store s"
  "config (notify_ready_workers s) = config s" "config (notify_lease_waiters s) = config s"
  "signals (notify_ready_workers s) = signals s @ [ReadyWaiters, ReadyOne]"
  "signals (notify_lease_waiters s) = signals s @ [LeaseWaiters]"
  by (simp_all add: notify_ready_workers_def notify_lease_waiters_def)

lemma release_dependents_terminal:
  assumes "fmlookup (tasks g) t = Some r" "is_terminal (r_state r)"
  shows "fmlookup (tasks (release_dependents_locked pfx root g)) t = Some r"
  unfolding release_dependents_locked_def
  using assms by (intro fold_invariant [where P = "\<lambda>g. fmlookup (tasks g) t = Some r"])
    (auto simp: release_dependent_def Let_def is_pending_iff split: option.splits)

lemma fail_dependents_terminal:
  assumes "fmlookup (tasks g) t = Some r" "is_terminal (r_state r)"
  shows "fmlookup (tasks (fail_dependents_locked root err g)) t = Some r"
  using assms by (intro fail_dependents_locked_invariant [where P = "\<lambda>g. fmlookup (tasks g) t = Some r"])
    (auto simp: fail_record_def)

text \<open>What a completed task's state is to become.\<close>

definition settled_state :: "u64 \<Rightarrow> ('p, 'id) task_lease \<Rightarrow> string + 'o \<Rightarrow> ('o, 'id) task_state" where
  "settled_state now l result =
     (case result of
        Inr out \<Rightarrow> Succeeded out
      | Inl err \<Rightarrow>
          (case retry_delay (retry (lease_policy l)) (lease_attempt l) of
             None \<Rightarrow> Failed err None
           | Some delay \<Rightarrow>
               if delay = 0 then Ready
               else Retrying err (lease_attempt l) (saturating_add now (millis_u64 delay))))"

text \<open>
  C29: completing a lease. A stale lease is answered \<open>Stale\<close> and nothing happens, not even a
  wake-up. For the holder of the lease the answer is \<open>Succeeded\<close> for a result, and for an error
  \<open>Failed\<close> exactly when the retry policy grants no further attempt and \<open>Retrying\<close> otherwise; the
  task then has the matching state (an immediate retry is \<open>Ready\<close> at once), and those who watch
  the lease are woken.
\<close>

theorem complete_with_disposition_correct:
  "if running_lease_matches (store s) (lease_id l) (lease_token l) (lease_attempt l) then
     \<exists>s'. complete_with_disposition now pfx l result s =
       (Ok (case result of
              Inr _ \<Rightarrow> DispSucceeded
            | Inl _ \<Rightarrow> if failure_is_terminal (lease_policy l) (lease_attempt l) then DispFailed else DispRetrying), s') \<and>
       state_at (tasks (store s')) (lease_id l) = Some (settled_state now l result) \<and>
       LeaseWaiters \<in> set (drop (length (signals s)) (signals s'))
   else complete_with_disposition now pfx l result s = (Ok DispStale, s)"
proof (cases "running_lease_matches (store s) (lease_id l) (lease_token l) (lease_attempt l)")
  case True
  then obtain r where r: "fmlookup (tasks (store s)) (lease_id l) = Some r"
    "r_state r = Running (lease_token l) (lease_attempt l)"
    by (auto simp: running_lease_matches_Some)
  show ?thesis
  proof (cases result)
    case (Inr out)
    show ?thesis using True Inr r
      by (simp add: complete_with_disposition_def complete_success_def call_store_def complete_success_live
          settled_state_def state_at_def release_dependents_terminal)
  next
    case (Inl err)
    show ?thesis using True Inl r
      by (auto simp: complete_with_disposition_def complete_failure_def call_store_def complete_failure_live
          fail_completed_lease_def settled_state_def state_at_def fail_dependents_terminal
          retry_now_def retry_later_def retry_schedule_def retry_now_if_running_def retry_later_if_running_def
          failure_is_terminal_def split: option.splits)
  qed
next
  case False
  then have "complete_success pfx l out s = (Ok False, s)" "fail_completed_lease l err s = (Ok False, s)"
    "retry_now pfx l s = (Ok False, s)" "retry_later l err n s = (Ok False, s)" for out err n
    by (simp_all add: complete_success_def fail_completed_lease_def retry_now_def retry_later_def call_store_def
        success_op.stale failure_op.stale retry_now_op.stale retry_later_op.stale)
  with False show ?thesis
    by (auto simp: complete_with_disposition_def complete_failure_def split: sum.splits option.splits retry_schedule_at.splits)
qed

section \<open>Taking the next task\<close>

definition ready_at :: "('p, 'o, 'id) inner \<Rightarrow> 'id \<Rightarrow> bool" where
  "ready_at g t = (state_at (tasks g) t = Some Ready)"

lemma take_ready_Ready:
  assumes "recs_ok (tasks g)" "fmlookup (tasks g) t = Some r" "r_state r = Ready"
  shows "take_ready lease now t tok g =
    (let a = saturating_add (r_attempt r) 1 in
     (Ok (Some (the (r_payload r), r_priority r, a, r_execution_policy r)),
      g\<lparr>inner_next_sequence := saturating_add (inner_next_sequence g) 1,
        tasks := fmupd t (r\<lparr>r_attempt := a, r_state := Running tok a, lease_sequence := inner_next_sequence g,
          lease_until_ms := Some (lease_deadline lease (r_execution_policy r) now)\<rparr>) (tasks g)\<rparr>))"
proof -
  have "rec_ok r" using assms(1,2) by (rule recs_ok_lookup)
  then obtain p where "r_payload r = Some p" by (auto simp: rec_ok_def)
  with assms(2,3) show ?thesis
    by (simp add: take_ready_def take_ready_locked_def next_sequence_def Let_def)
qed

lemma take_ready_skip:
  "\<not> ready_at g t \<Longrightarrow> take_ready lease now t tok g = (Ok None, g)"
  by (auto simp: ready_at_def state_at_def take_ready_def take_ready_locked_def split: option.splits)

lemma set_ready_queue_twice [simp]: "set_ready_queue p xs (set_ready_queue p ys g) = set_ready_queue p xs g"
  by (cases p) simp_all

lemma ready_at_set_ready_queue [simp]: "ready_at (set_ready_queue p xs g) t = ready_at g t"
  by (simp add: ready_at_def)

lemma set_ready_queue_id: "set_ready_queue p (ready_queue p g) g = g"
  by (cases p) simp_all

text \<open>The record of a task that a worker has taken.\<close>

definition taken_record ::
  "duration \<Rightarrow> u64 \<Rightarrow> string \<Rightarrow> u64 \<Rightarrow> ('p, 'o, 'id) task_record \<Rightarrow> ('p, 'o, 'id) task_record" where
  "taken_record lease now tok sq r =
     (let a = saturating_add (r_attempt r) 1
      in r\<lparr>r_attempt := a, r_state := Running tok a, lease_sequence := sq,
           lease_until_ms := Some (lease_deadline lease (r_execution_policy r) now)\<rparr>)"

lemma pop_ready_and_take_none:
  "\<forall>t \<in> set (ready_queue p g). \<not> ready_at g t \<Longrightarrow>
   pop_ready_and_take lease now p tok g = (Ok None, set_ready_queue p [] g)"
proof (induction "ready_queue p g" arbitrary: g)
  case Nil
  then show ?case
    using set_ready_queue_id [of p g] by (subst pop_ready_and_take.simps) (simp add: pop_ready_def)
next
  case (Cons t q)
  then have "pop_ready p g = (Ok (Some t), set_ready_queue p q g)" "\<not> ready_at g t"
    by (auto simp: pop_ready_def split: list.splits) (metis list.set_intros(1))
  then have "pop_ready_and_take lease now p tok g = pop_ready_and_take lease now p tok (set_ready_queue p q g)"
    by (subst pop_ready_and_take.simps) (simp add: take_ready_skip)
  with Cons(1) [of "set_ready_queue p q g"] Cons(2,3) show ?case by (metis list.set_intros(2)
      ready_at_set_ready_queue ready_queue_set_ready_queue set_ready_queue_twice)
qed

lemma pop_ready_and_take_some:
  assumes "ready_queue p g = skip @ t # rest" "\<forall>x \<in> set skip. \<not> ready_at g x"
    and "recs_ok (tasks g)" "fmlookup (tasks g) t = Some r" "r_state r = Ready"
  shows "pop_ready_and_take lease now p tok g =
    (Ok (Some (t, the (r_payload r), r_priority r, saturating_add (r_attempt r) 1, r_execution_policy r)),
     (set_ready_queue p rest g)
       \<lparr>inner_next_sequence := saturating_add (inner_next_sequence g) 1,
        tasks := fmupd t (taken_record lease now tok (inner_next_sequence g) r) (tasks g)\<rparr>)"
  using assms
proof (induction skip arbitrary: g)
  case Nil
  then have "pop_ready p g = (Ok (Some t), set_ready_queue p rest g)" by (simp add: pop_ready_def)
  with Nil take_ready_Ready [of "set_ready_queue p rest g" t r lease now tok] show ?case
    by (subst pop_ready_and_take.simps) (simp add: taken_record_def Let_def)
next
  case (Cons x skip)
  have pop: "pop_ready p g = (Ok (Some x), set_ready_queue p (skip @ t # rest) g)"
    using Cons.prems(1) by (simp add: pop_ready_def)
  have "pop_ready_and_take lease now p tok g =
      pop_ready_and_take lease now p tok (set_ready_queue p (skip @ t # rest) g)"
    using Cons.prems(2) pop by (subst pop_ready_and_take.simps) (simp add: take_ready_skip)
  with Cons.IH [of "set_ready_queue p (skip @ t # rest) g"] Cons.prems show ?case by simp
qed

text \<open>The first ready task in the queue of a priority.\<close>

definition first_ready :: "('p, 'o, 'id) inner \<Rightarrow> priority \<Rightarrow> 'id option" where
  "first_ready g p = List.find (ready_at g) (ready_queue p g)"

lemma find_split:
  "List.find P xs = Some y \<Longrightarrow> \<exists>skip rest. xs = skip @ y # rest \<and> (\<forall>x \<in> set skip. \<not> P x) \<and> P y"
  by (induction xs) (auto split: if_splits intro: exI [of _ "[]"], metis append_Cons set_ConsD)

lemma pop_first_ready:
  assumes "recs_ok (tasks g)"
  shows "case first_ready g p of
      None \<Rightarrow> pop_ready_and_take lease now p tok g = (Ok None, set_ready_queue p [] g)
    | Some t \<Rightarrow> \<exists>r rest. fmlookup (tasks g) t = Some r \<and> r_state r = Ready \<and>
        pop_ready_and_take lease now p tok g =
          (Ok (Some (t, the (r_payload r), r_priority r, saturating_add (r_attempt r) 1, r_execution_policy r)),
           (set_ready_queue p rest g)
             \<lparr>inner_next_sequence := saturating_add (inner_next_sequence g) 1,
              tasks := fmupd t (taken_record lease now tok (inner_next_sequence g) r) (tasks g)\<rparr>)"
proof (cases "first_ready g p")
  case None
  then have "\<forall>t \<in> set (ready_queue p g). \<not> ready_at g t" by (simp add: first_ready_def find_None_iff)
  with None show ?thesis by (simp add: pop_ready_and_take_none)
next
  case (Some t)
  then obtain skip rest where q: "ready_queue p g = skip @ t # rest" "\<forall>x \<in> set skip. \<not> ready_at g x" "ready_at g t"
    unfolding first_ready_def by (blast dest: find_split)
  then obtain r where r: "fmlookup (tasks g) t = Some r" "r_state r = Ready" by (auto simp: ready_at_def state_at_def)
  from pop_ready_and_take_some [OF q(1,2) assms r] r Some show ?thesis by auto
qed

lemma first_ready_set_ready_queue: "p \<noteq> p' \<Longrightarrow> first_ready (set_ready_queue p' xs g) p = first_ready g p"
  unfolding first_ready_def by (simp add: ready_at_def [abs_def])

lemma map_filter_eq: "(\<And>x. x \<in> set xs \<Longrightarrow> f x = g x) \<Longrightarrow> List.map_filter f xs = List.map_filter g xs"
  by (induction xs) (auto simp: List.map_filter_simps split: option.splits)

lemma next_ready_loop_correct:
  assumes "recs_ok (tasks (store s))" "distinct prios"
  shows "case List.map_filter (first_ready (store s)) prios of
      [] \<Rightarrow> fst (next_ready_loop lease now fresh worker prios s) = Ok None
    | t # _ \<Rightarrow> \<exists>l s'. next_ready_loop lease now fresh worker prios s = (Ok (Some l), s') \<and>
        lease_id l = t \<and> lease_worker l = worker \<and>
        (\<exists>r p. fmlookup (tasks (store s)) t = Some r \<and> r_payload r = Some (lease_payload l) \<and>
           r_priority r = lease_priority l \<and> r_execution_policy r = lease_policy l \<and>
           lease_attempt l = saturating_add (r_attempt r) 1 \<and> lease_token l = lease_token_of worker (fresh p)) \<and>
        running_lease_matches (store s') t (lease_token l) (lease_attempt l) \<and>
        (\<forall>x. x \<noteq> t \<longrightarrow> fmlookup (tasks (store s')) x = fmlookup (tasks (store s)) x)"
  using assms
proof (induction prios arbitrary: s)
  case (Cons p prios)
  let ?tok = "lease_token_of worker (fresh p)"
  note pop = pop_first_ready [OF Cons.prems(1), where p = p and lease = lease and now = now and tok = ?tok]
  show ?case
  proof (cases "first_ready (store s) p")
    case None
    let ?s = "s\<lparr>store := set_ready_queue p [] (store s)\<rparr>"
    have "next_ready_loop lease now fresh worker (p # prios) s = next_ready_loop lease now fresh worker prios ?s"
      using pop None by (simp add: call_store_def)
    moreover have "List.map_filter (first_ready (store ?s)) prios = List.map_filter (first_ready (store s)) prios"
      using Cons.prems(2) by (intro map_filter_eq, simp, subst first_ready_set_ready_queue) auto
    ultimately show ?thesis
      using Cons.IH [of ?s] Cons.prems None
      by (cases "List.map_filter (first_ready (store s)) prios")
         (simp_all add: List.map_filter_simps del: next_ready_loop.simps)
  next
    case (Some t)
    with pop obtain r rest where r: "fmlookup (tasks (store s)) t = Some r" "r_state r = Ready"
      and eq: "pop_ready_and_take lease now p ?tok (store s) =
          (Ok (Some (t, the (r_payload r), r_priority r, saturating_add (r_attempt r) 1, r_execution_policy r)),
           (set_ready_queue p rest (store s))
             \<lparr>inner_next_sequence := saturating_add (inner_next_sequence (store s)) 1,
              tasks := fmupd t (taken_record lease now ?tok (inner_next_sequence (store s)) r) (tasks (store s))\<rparr>)"
      by auto
    have "rec_ok r" using recs_ok_lookup [OF Cons.prems(1) r(1)] .
    then have "r_payload r = Some (the (r_payload r))" by (auto simp: rec_ok_def)
    with Some r eq show ?thesis
      by (auto simp: call_store_def List.map_filter_simps Let_def running_lease_matches_Some taken_record_def)
  qed
qed (simp add: List.map_filter_simps)

text \<open>
  C30: a worker that asks for work gets the first ready task of the highest priority that has one,
  and \<open>None\<close> only when no queue holds a ready task. The returned lease carries the task's payload,
  priority and policy and the next attempt number, it is the lease under which the store now
  records the task as running, and no other task is touched. Queue entries of tasks that are not
  ready are skipped.
\<close>

theorem next_ready_correct:
  assumes "reachable pfx lease (store s)"
  shows "case List.map_filter (first_ready (store s)) [High, Medium, Low] of
      [] \<Rightarrow> fst (next_ready lease now fresh worker s) = Ok None
    | t # _ \<Rightarrow> \<exists>l s'. next_ready lease now fresh worker s = (Ok (Some l), s') \<and>
        lease_id l = t \<and> lease_worker l = worker \<and>
        (\<exists>r p. fmlookup (tasks (store s)) t = Some r \<and> r_payload r = Some (lease_payload l) \<and>
           r_priority r = lease_priority l \<and> r_execution_policy r = lease_policy l \<and>
           lease_attempt l = saturating_add (r_attempt r) 1 \<and> lease_token l = lease_token_of worker (fresh p)) \<and>
        running_lease_matches (store s') t (lease_token l) (lease_attempt l) \<and>
        (\<forall>x. x \<noteq> t \<longrightarrow> fmlookup (tasks (store s')) x = fmlookup (tasks (store s)) x)"
  unfolding next_ready_def
  using reachable_base_inv [OF assms] by (intro next_ready_loop_correct) (simp_all add: base_inv_def)

text \<open>The example store under a scheduler.\<close>

definition example_scheduler :: "(unit, unit, nat) inner \<Rightarrow> (unit, unit, nat) scheduler" where
  "example_scheduler g = \<lparr>store = g, config = default_scheduler_config, signals = []\<rparr>"

theorem next_ready_correct_witness:
  "\<exists>l s'. next_ready 60 1000 (\<lambda>p. ''u'') ''w'' (example_scheduler example_store) = (Ok (Some l), s') \<and>
     lease_id l = 1 \<and> running_lease_matches (store s') 1 (lease_token l) (lease_attempt l)"
proof -
  have r: "reachable example_pfx 60 (store (example_scheduler example_store))"
    by (simp add: example_scheduler_def reachable_example_store)
  have "List.map_filter (first_ready (store (example_scheduler example_store))) [High, Medium, Low] = [1]"
    by (simp add: example_scheduler_def example_store_eq example_state_def with_lease_def first_ready_def
        ready_at_def example_record_def List.map_filter_simps)
  with next_ready_correct [OF r, of 1000 "\<lambda>p. ''u''" "''w''"] show ?thesis by auto
qed

end
