(* ===== verification/Scheduler_Wake.thy ===== *)
theory Scheduler_Wake
  imports Scheduler_Facts
begin

text \<open>
  Wake-ups. The calls of the scheduler are collected in the datatype \<open>sched_call\<close>. Shown here: the
  store under a scheduler stays within the reachable states of the store, no call leaves new work
  in a ready queue without waking the workers, and no call takes a lease away without waking those
  who watch leases.
\<close>

section \<open>Calls as data\<close>

datatype ('p, 'o, 'id) sched_call =
    CallAttach root_owner "('p, 'id) nodes"
  | CallDetach root_owner detach_mode
  | CallSubmit 'id "'p new_task" "'id list" task_execution_policy
  | CallNextReady u64 "priority \<Rightarrow> string" string
  | CallComplete u64 "('p, 'id) task_lease" "string + 'o"
  | CallRenew u64 "('p, 'id) task_lease"
  | CallCheckpoint "('p, 'id) task_lease" 'p task_execution_policy
  | CallCancel 'id
  | CallRemove 'id
  | CallMaintenance "'id list" u64

fun exec_call ::
  "('id \<Rightarrow> u8 list) \<Rightarrow> duration \<Rightarrow> ('p, 'o, 'id) sched_call \<Rightarrow> ('p, 'o, 'id) scheduler \<Rightarrow>
   ('p, 'o, 'id) scheduler" where
  "exec_call pfx lease (CallAttach owner graph) s = snd (attach pfx owner graph s)"
| "exec_call pfx lease (CallDetach owner mode) s = snd (detach owner mode s)"
| "exec_call pfx lease (CallSubmit t task deps pol) s =
     snd (submit_with_execution_policy pfx t task deps pol s)"
| "exec_call pfx lease (CallNextReady now fresh worker) s = snd (next_ready lease now fresh worker s)"
| "exec_call pfx lease (CallComplete now l result) s = snd (complete now pfx l result s)"
| "exec_call pfx lease (CallRenew now l) s = snd (renew_lease_sched lease now l s)"
| "exec_call pfx lease (CallCheckpoint l payload pol) s = snd (checkpoint_payload l payload pol s)"
| "exec_call pfx lease (CallCancel t) s = snd (cancel_sched t s)"
| "exec_call pfx lease (CallRemove t) s = snd (remove_sched t s)"
| "exec_call pfx lease (CallMaintenance order now) s = snd (maintenance_tick_at pfx order now s)"

section \<open>The store under a scheduler\<close>

lemma reachable_ops:
  assumes "reachable pfx lease g"
  shows "reachable pfx lease (snd (attach_graph pfx owner nodes g))"
    and "reachable pfx lease (snd (detach_owner owner mode g))"
    and "distinct deps \<Longrightarrow> reachable pfx lease (snd (insert_task t p prio deps pol g))"
    and "reachable pfx lease (snd (complete_success_and_release_dependents_if_running pfx t tok a out g))"
    and "reachable pfx lease (snd (complete_failure_and_fail_dependents_if_running t tok a err derr g))"
    and "reachable pfx lease (snd (cancel_and_fail_dependents t derr g))"
    and "reachable pfx lease (snd (retry_now_if_running pfx t tok a prio p g))"
    and "reachable pfx lease (snd (retry_later_if_running t tok a err p n g))"
    and "reachable pfx lease (snd (try_mark_ready t g))"
    and "reachable pfx lease (snd (push_ready pfx prio t g))"
    and "reachable pfx lease (snd (pop_ready prio g))"
    and "reachable pfx lease (snd (take_ready lease now t tok g))"
    and "reachable pfx lease (snd (checkpoint_payload_if_running t tok a p pol g))"
    and "reachable pfx lease (snd (renew_lease lease now t tok a g))"
    and "reachable pfx lease (snd (promote_scheduled pfx now limit g))"
    and "reachable pfx lease (snd (requeue_expired_leases pfx order now limit g))"
    and "reachable pfx lease (snd (remove_task t g))"
  using reachable_step [OF assms, of "AttachGraph owner nodes"]
    reachable_step [OF assms, of "DetachOwner owner mode"]
    reachable_step [OF assms, of "InsertTask t p prio deps pol"]
    reachable_step [OF assms, of "CompleteSuccess t tok a out"]
    reachable_step [OF assms, of "CompleteFailure t tok a err derr"]
    reachable_step [OF assms, of "CancelTask t derr"]
    reachable_step [OF assms, of "RetryNow t tok a prio p"]
    reachable_step [OF assms, of "RetryLater t tok a err p n"]
    reachable_step [OF assms, of "TryMarkReady t"]
    reachable_step [OF assms, of "PushReady prio t"]
    reachable_step [OF assms, of "PopReady prio"]
    reachable_step [OF assms, of "TakeReady now t tok"]
    reachable_step [OF assms, of "CheckpointPayload t tok a p pol"]
    reachable_step [OF assms, of "RenewLease now t tok a"]
    reachable_step [OF assms, of "PromoteScheduled now limit"]
    reachable_step [OF assms, of "RequeueExpired order now limit"]
    reachable_step [OF assms, of "RemoveTask t"]
  by simp_all

lemma reachable_pop_ready_and_take:
  "reachable pfx lease g \<Longrightarrow> reachable pfx lease (snd (pop_ready_and_take lease now p tok g))"
proof (induction "length (ready_queue p g)" arbitrary: g rule: less_induct)
  case less
  show ?case
  proof (cases "ready_queue p g")
    case Nil
    then show ?thesis using less.prems by (subst pop_ready_and_take.simps) (simp add: pop_ready_def)
  next
    case (Cons t q)
    let ?g = "set_ready_queue p q g"
    have pop: "pop_ready p g = (Ok (Some t), ?g)" using Cons by (simp add: pop_ready_def)
    have r: "reachable pfx lease ?g" using reachable_ops(11) [OF less.prems, of p] pop by simp
    obtain res g' where tk: "take_ready lease now t tok ?g = (res, g')" by fastforce
    then have g': "reachable pfx lease g'" using reachable_ops(12) [OF r, of now t tok] by simp
    show ?thesis
    proof (cases "res = Ok None")
      case True
      then have "g' = ?g" using tk take_ready_locked_None by (fastforce simp: take_ready_def)
      then show ?thesis using pop tk True r less.hyps [of ?g] Cons by (subst pop_ready_and_take.simps) simp
    next
      case False
      then show ?thesis using pop tk g'
        by (subst pop_ready_and_take.simps) (auto split: outcome.splits option.splits)
    qed
  qed
qed

lemma store_call_store:
  assumes "reachable pfx lease (snd (op (store s)))"
    and "\<And>x s'. op (store s) = (Ok x, store s') \<Longrightarrow> reachable pfx lease (store s') \<Longrightarrow>
      reachable pfx lease (store (snd (k x s')))"
  shows "reachable pfx lease (store (snd (call_store op k s)))"
  using assms by (auto simp: call_store_def split: prod.splits outcome.splits)

lemma reachable_next_ready_loop:
  "reachable pfx lease (store s) \<Longrightarrow> reachable pfx lease (store (snd (next_ready_loop lease now fresh worker prios s)))"
proof (induction prios arbitrary: s)
  case (Cons p prios)
  then show ?case
    by (auto simp: Let_def intro!: store_call_store reachable_pop_ready_and_take split: option.splits)
qed simp

lemma snd_disp_if [simp]: "snd (disp_if d r) = snd r"
  by (cases "fst r"; cases r) simp_all

lemma reachable_exec_call:
  assumes "reachable pfx lease (store s)"
  shows "reachable pfx lease (store (exec_call pfx lease call s))"
proof (cases call)
  case (CallSubmit t task deps pol)
  then show ?thesis
    using assms
    by (auto simp: submit_with_execution_policy_def distinct_dedup_seen
        intro!: store_call_store reachable_ops(3,9,10) split: option.splits)
next
  case (CallNextReady now fresh worker)
  then show ?thesis using assms by (simp add: next_ready_def reachable_next_ready_loop del: next_ready_loop.simps)
next
  case (CallComplete now l result)
  show ?thesis
    using assms CallComplete
    by (auto simp: complete_def complete_with_disposition_def complete_failure_def complete_success_def
        retry_now_def retry_later_def fail_completed_lease_def case_prod_unfold Let_def
        intro!: store_call_store reachable_ops split: sum.splits option.splits retry_schedule_at.splits)
qed (use assms in \<open>auto simp: attach_def detach_def renew_lease_sched_def checkpoint_payload_def cancel_sched_def
      remove_sched_def maintenance_tick_at_def Let_def intro!: store_call_store reachable_ops\<close>)

section \<open>Store operations that add no work\<close>

definition no_new_ready :: "('p, 'o, 'id) inner \<Rightarrow> ('p, 'o, 'id) inner \<Rightarrow> bool" where
  "no_new_ready g g' = (\<forall>p. set (ready_queue p g') \<subseteq> set (ready_queue p g))"

lemma no_new_ready_refl [simp]: "no_new_ready g g"
  by (simp add: no_new_ready_def)

lemma no_new_ready_trans: "no_new_ready g g' \<Longrightarrow> no_new_ready g' g'' \<Longrightarrow> no_new_ready g g''"
  by (fastforce simp: no_new_ready_def)

lemma no_new_ready_same: "(\<And>p. ready_queue p g' = ready_queue p g) \<Longrightarrow> no_new_ready g g'"
  by (simp add: no_new_ready_def)

lemma no_new_ready_unqueue: "no_new_ready g (remove_queue_memberships t g)"
  by (auto simp: no_new_ready_def retain_task_id_def)

lemma no_new_ready_fail: "no_new_ready g (fail_dependents_locked root err g)"
proof (rule fail_dependents_locked_invariant)
  fix t and g' :: "('a, 'b, 'c) inner"
  have "no_new_ready g' (fail_dependent root err t g')" by (auto simp: no_new_ready_def fail_dependent_queues)
  then show "no_new_ready g g' \<Longrightarrow> no_new_ready g (fail_dependent root err t g')" by (rule no_new_ready_trans [rotated])
qed simp

lemma no_new_ready_cancel: "no_new_ready g (snd (cancel_task_locked t err g))"
proof -
  have "no_new_ready g ((remove_queue_memberships t g)\<lparr>tasks := T\<rparr>)" for T
    by (auto simp: no_new_ready_def retain_task_id_def)
  from no_new_ready_trans [OF this no_new_ready_fail] show ?thesis
    by (auto simp: cancel_task_locked_def Let_def split: option.splits)
qed

lemma no_new_ready_erase: "no_new_ready g (erase_task t g)"
  by (auto simp: no_new_ready_def retain_task_id_def)

lemma no_new_ready_fold: "(\<And>x g. no_new_ready g (f x g)) \<Longrightarrow> no_new_ready g (fold f xs g)"
  by (rule fold_invariant [where P = "no_new_ready g"]) (simp, rule no_new_ready_trans)

lemma ready_queue_released [simp]: "ready_queue p (released owner ts g) = ready_queue p g"
  by (simp add: released_def Let_def fold_field)

lemma no_new_ready_detach:
  assumes "own_inv g"
  shows "no_new_ready g (snd (detach_owner owner mode g))"
proof (cases "\<exists>graph. fmlookup (owner_graphs g) owner = Some graph \<and> (og_attached graph \<or> mode = RemoveMode)")
  case False
  then show ?thesis by (cases mode) (auto simp: detach_owner_def Let_def split: option.splits)
next
  case True
  then obtain graph where graph: "fmlookup (owner_graphs g) owner = Some graph"
    and mode: "og_attached graph \<or> mode = RemoveMode" by blast
  have 1: "no_new_ready g (released owner ts g)" for ts by (simp add: no_new_ready_def)
  have 2: "no_new_ready g' (fold (\<lambda>t g. snd (cancel_task_locked t err g)) ts g')" for ts err and g' :: "('a, 'b, 'c) inner"
    by (rule no_new_ready_fold) (rule no_new_ready_cancel)
  have 3: "no_new_ready g' (fold erase_task ts g')" for ts and g' :: "('a, 'b, 'c) inner"
    by (rule no_new_ready_fold) (rule no_new_ready_erase)
  have 4: "no_new_ready g' (g'\<lparr>owner_graphs := G\<rparr>)" for G and g' :: "('a, 'b, 'c) inner"
    by (simp add: no_new_ready_def)
  show ?thesis
    unfolding detach_owner_eq [OF assms graph mode]
    by (cases mode) (auto simp: Let_def intro!: no_new_ready_trans [OF 1 no_new_ready_trans [OF 2 4]]
        no_new_ready_trans [OF 1 no_new_ready_trans [OF 3 4]])
qed

lemma reset_nodes_no_Err: "fst (reset_nodes pfx ids ns g) \<noteq> Err e"
proof (induction ns arbitrary: g)
  case (Cons n ns)
  have node: "fst (reset_node pfx n g) \<noteq> Err e"
    by (auto simp: reset_node_def Let_def split: option.splits dependency_insert_state.splits)
  obtain r g' where rg: "reset_node pfx n g = (r, g')" by fastforce
  with node Cons show ?case by (cases r) auto
qed simp

lemma reset_attached_cases:
  "(\<exists>m. fst (reset_attached_terminal_nodes pfx ns topo g) = Panic m) \<or>
   fst (reset_attached_terminal_nodes pfx ns topo g) = Ok True \<or>
   reset_attached_terminal_nodes pfx ns topo g = (Ok False, g)"
proof -
  define ordered where "ordered = map (\<lambda>index. ns ! index) topo"
  define ids where "ids = filter (\<lambda>tid. case fmlookup (tasks g) tid of
      Some record \<Rightarrow> is_resettable (r_state record) | None \<Rightarrow> False) (map node_id ordered)"
  define g1 where "g1 = fold (\<lambda>tid i. (remove_queue_memberships tid i)
      \<lparr>dependents := remove_dependent_edges tid (dependents i)\<rparr>) ids g"
  obtain r g' where rg: "reset_nodes pfx (set ids) ordered g1 = (r, g')" by fastforce
  then have "r \<noteq> Err e" for e using reset_nodes_no_Err [of pfx "set ids" ordered g1 e] by simp
  then show ?thesis
    using rg unfolding reset_attached_terminal_nodes_def Let_def
    unfolding ordered_def [symmetric] unfolding ids_def [symmetric] g1_def [symmetric] by (cases r) auto
qed

lemma attach_graph_quiet:
  assumes "own_inv g"
  shows "fst (attach_graph pfx owner nodes g) = Ok Attached \<or> snd (attach_graph pfx owner nodes g) = g"
proof -
  have clean: "clean (fst (attach_graph pfx owner nodes g))" using assms by (rule clean_attach_graph)
  show ?thesis
  proof (cases "normalize_and_validate_graph owner nodes")
    case (Ok ns)
    show ?thesis
    proof (cases "graph_topological_indices ns")
      case (Some topo)
      from reset_attached_cases [of pfx ns topo g] show ?thesis
        using clean by (cases "reset_attached_terminal_nodes pfx ns topo g")
          (auto simp: attach_graph_def Ok Some Let_def split: option.splits)
    qed (simp add: attach_graph_def Ok)
  qed (simp_all add: attach_graph_def)
qed

lemma promote_ids_quiet:
  "promote_ids pfx now limit ids moved g = (ids', moved', g') \<Longrightarrow>
   moved \<le> moved' \<and> (moved' = moved \<longrightarrow> no_new_ready g g')"
proof (induction ids arbitrary: moved g)
  case (Cons t ids)
  have sched: "no_new_ready (g\<lparr>scheduled := sch\<rparr>) g' = no_new_ready g g'" for sch by (simp add: no_new_ready_def)
  show ?case
    using Cons.prems Cons.IH [of moved g] Cons.IH [of "Suc moved" "requeue_one pfx t g"]
      Cons.IH [of moved "g\<lparr>scheduled := schedule_at n t (scheduled g)\<rparr>" for n]
    by (auto simp: promote_ids_Cons sched simp del: promote_ids.simps
        split: if_splits option.splits task_state.splits)
qed simp

lemma promote_loop_quiet:
  "moved \<le> fst (promote_loop pfx now limit moved g) \<and>
   (fst (promote_loop pfx now limit moved g) = moved \<longrightarrow> no_new_ready g (snd (promote_loop pfx now limit moved g)))"
proof (induction pfx now limit moved g rule: promote_loop.induct)
  case (1 pfx now limit moved g)
  show ?case
  proof (cases "limit \<le> moved \<or> scheduled g = [] \<or> now < fst (hd (scheduled g))")
    case True
    then show ?thesis by (subst (1 2 3) promote_loop.simps) (auto split: list.splits)
  next
    case False
    then obtain ts ids rest where sch: "scheduled g = (ts, ids) # rest" and ts: "\<not> now < ts"
      and lim: "\<not> limit \<le> moved" by (cases "scheduled g") auto
    obtain ids' moved' g' where p: "promote_ids pfx now limit ids moved (g\<lparr>scheduled := rest\<rparr>) = (ids', moved', g')"
      by (rule prod_cases3)
    define g'' where "g'' = (if ids' = [] then g' else g'\<lparr>scheduled := scheduled_insert ts ids' (scheduled g')\<rparr>)"
    have step: "promote_loop pfx now limit moved g = promote_loop pfx now limit moved' g''"
      using sch ts lim p by (subst promote_loop.simps) (simp add: g''_def)
    have IH: "moved' \<le> fst (promote_loop pfx now limit moved' g'') \<and>
        (fst (promote_loop pfx now limit moved' g'') = moved' \<longrightarrow>
           no_new_ready g'' (snd (promote_loop pfx now limit moved' g'')))"
      unfolding g''_def by (rule 1 [OF lim sch refl ts p [symmetric] refl refl])
    have q: "moved \<le> moved' \<and> (moved' = moved \<longrightarrow> no_new_ready g g'')"
      using promote_ids_quiet [OF p] by (simp add: g''_def no_new_ready_def)
    show ?thesis using IH q unfolding step by (auto intro: no_new_ready_trans)
  qed
qed

lemma no_new_ready_pop_ready_and_take: "no_new_ready g (snd (pop_ready_and_take lease now p tok g))"
proof (induction "length (ready_queue p g)" arbitrary: g rule: less_induct)
  case less
  show ?case
  proof (cases "ready_queue p g")
    case Nil
    then show ?thesis by (subst pop_ready_and_take.simps) (simp add: pop_ready_def)
  next
    case (Cons t q)
    let ?g = "set_ready_queue p q g"
    have pop: "pop_ready p g = (Ok (Some t), ?g)" using Cons by (simp add: pop_ready_def)
    have 1: "no_new_ready g ?g" using Cons by (auto simp: no_new_ready_def)
    obtain res g' where tk: "take_ready lease now t tok ?g = (res, g')" by fastforce
    have "ready_queue p' (snd (take_ready lease now t tok ?g)) = ready_queue p' ?g" for p'
      by (auto simp: take_ready_def take_ready_locked_def next_sequence_def Let_def split: option.splits)
    then have 2: "no_new_ready g g'" using 1 tk by (simp add: no_new_ready_def)
    show ?thesis
    proof (cases "res = Ok None")
      case True
      then have "g' = ?g" using tk take_ready_locked_None by (fastforce simp: take_ready_def)
      then show ?thesis using pop tk True less.hyps [of ?g] Cons no_new_ready_trans [OF 1]
        by (subst pop_ready_and_take.simps) simp
    next
      case False
      then show ?thesis using pop tk 2
        by (subst pop_ready_and_take.simps) (auto split: outcome.splits option.splits)
    qed
  qed
qed

lemma no_new_ready_store:
  "no_new_ready g (snd (insert_task t p prio deps pol g))"
  "no_new_ready g (snd (try_mark_ready t g))"
  "no_new_ready g (snd (retry_later_if_running t tok a err p n g))"
  "no_new_ready g (snd (checkpoint_payload_if_running t tok a p pol g))"
  "no_new_ready g (snd (renew_lease lease now t tok a g))"
  "no_new_ready g (snd (remove_task t g))"
  "no_new_ready g (snd (cancel_and_fail_dependents t derr g))"
  by (auto simp: no_new_ready_def insert_task_def try_mark_ready_def retry_later_if_running_def
      checkpoint_payload_if_running_def renew_lease_def remove_task_def Let_def retain_task_id_def
      split: prod.splits option.splits task_state.splits)
     (auto simp: cancel_and_fail_dependents_def split: if_splits
       dest!: no_new_ready_cancel [unfolded no_new_ready_def, THEN spec, THEN subsetD])

lemma no_new_ready_complete_failure:
  "no_new_ready g (snd (complete_failure_and_fail_dependents_if_running t tok a err derr g))"
proof (cases "running_lease_matches g t tok a")
  case True
  have "no_new_ready g ((remove_queue_memberships t g)\<lparr>tasks := T\<rparr>)" for T
    by (auto simp: no_new_ready_def retain_task_id_def)
  from no_new_ready_trans [OF this no_new_ready_fail] True show ?thesis
    by (auto simp: running_lease_matches_Some complete_failure_live)
qed (simp add: complete_stale)

section \<open>Workers are woken\<close>

definition workers_woken :: "('p, 'o, 'id) scheduler \<Rightarrow> ('p, 'o, 'id) scheduler \<Rightarrow> bool" where
  "workers_woken s s' = (\<exists>pre post. signals s' = signals s @ pre @ [ReadyWaiters, ReadyOne] @ post)"

definition work_signalled :: "('p, 'o, 'id) scheduler \<Rightarrow> ('p, 'o, 'id) scheduler \<Rightarrow> bool" where
  "work_signalled s s' = (no_new_ready (store s) (store s') \<or> workers_woken s s')"

lemma work_signalled_quiet: "no_new_ready (store s) (store s') \<Longrightarrow> work_signalled s s'"
  by (simp add: work_signalled_def)

lemma workers_woken_notify:
  "signals s' = signals s \<Longrightarrow> workers_woken s (notify_ready_workers s')"
  "signals s' = signals s \<Longrightarrow> workers_woken s (notify_lease_waiters (notify_ready_workers s'))"
  unfolding workers_woken_def by (rule exI [of _ "[]"], simp)+

lemma work_signalled_call_store:
  assumes "no_new_ready (store s) (snd (op (store s)))"
    and "\<And>x. fst (op (store s)) = Ok x \<Longrightarrow>
      work_signalled s (snd (k x (s\<lparr>store := snd (op (store s))\<rparr>)))"
  shows "work_signalled s (snd (call_store op k s))"
  using assms by (cases "op (store s)"; cases "fst (op (store s))") (auto simp: call_store_def work_signalled_def)

lemma work_signalled_call_quiet:
  "no_new_ready (store s) (snd (op (store s))) \<Longrightarrow> (\<And>x s'. store (snd (k x s')) = store s') \<Longrightarrow>
   work_signalled s (snd (call_store op k s))"
  by (rule work_signalled_call_store) (auto intro: work_signalled_quiet)

lemma work_signalled_next_ready_loop:
  "no_new_ready (store s0) (store s) \<Longrightarrow>
   no_new_ready (store s0) (store (snd (next_ready_loop lease now fresh worker prios s)))"
proof (induction prios arbitrary: s)
  case (Cons p prios)
  let ?op = "pop_ready_and_take lease now p (lease_token_of worker (fresh p))"
  obtain res g where op: "?op (store s) = (res, g)" by fastforce
  then have "no_new_ready (store s0) g"
    using no_new_ready_trans [OF Cons.prems no_new_ready_pop_ready_and_take [of "store s" lease now p]]
    by (metis snd_conv)
  then show ?case using Cons.IH [of "s\<lparr>store := g\<rparr>"] op
    by (cases res) (auto simp: Let_def call_store_def split: option.splits)
qed simp

lemma work_signalled_complete: "work_signalled s (snd (complete now pfx l result s))"
proof -
  have "work_signalled s (snd (complete_success pfx l out s))" for out
    by (cases "running_lease_matches (store s) (lease_id l) (lease_token l) (lease_attempt l)")
       (auto simp: complete_success_def call_store_def running_lease_matches_Some complete_success_live complete_stale
         work_signalled_def workers_woken_notify)
  moreover have "work_signalled s (snd (retry_now pfx l s))"
    using retry_now_op.stale [of "store s" "lease_id l" "lease_token l" "lease_attempt l" pfx "lease_priority l" "lease_payload l"]
      retry_now_op.live [of "store s" "lease_id l" "lease_token l" "lease_attempt l" pfx "lease_priority l" "lease_payload l"]
    by (cases "retry_now_if_running pfx (lease_id l) (lease_token l) (lease_attempt l) (lease_priority l)
          (lease_payload l) (store s)";
        cases "running_lease_matches (store s) (lease_id l) (lease_token l) (lease_attempt l)")
       (auto simp: retry_now_def call_store_def work_signalled_def workers_woken_notify)
  moreover have "work_signalled s (snd (retry_later l err n s))" "work_signalled s (snd (fail_completed_lease l err s))" for err n
    unfolding retry_later_def fail_completed_lease_def
    by (rule work_signalled_call_quiet; simp add: no_new_ready_store no_new_ready_complete_failure)+
  ultimately show ?thesis
    by (auto simp: complete_def complete_with_disposition_def complete_failure_def case_prod_unfold Let_def
        split: sum.splits option.splits retry_schedule_at.splits)
qed

lemma work_signalled_maintenance: "work_signalled s (snd (maintenance_tick_at pfx order now s))"
proof -
  obtain m1 g1 where p: "promote_loop pfx now MAINTENANCE_TICK_LIMIT 0 (store s) = (m1, g1)" by fastforce
  define m2 where "m2 = min (length (expired_leases now order g1)) MAINTENANCE_TICK_LIMIT"
  obtain g2 where r: "requeue_expired_leases pfx order now MAINTENANCE_TICK_LIMIT g1 = (Ok m2, g2)"
    by (simp add: requeue_expired_leases_def m2_def Let_def)
  have 1: "no_new_ready (store s) g1" if "m1 = 0"
    using promote_loop_quiet [of 0 pfx now MAINTENANCE_TICK_LIMIT "store s"] p that by simp
  have 2: "g2 = g1" if "m2 = 0"
    using r that by (auto simp: requeue_expired_leases_def m2_def Let_def MAINTENANCE_TICK_LIMIT_def min_def
        split: if_splits)
  show ?thesis
    using 1 2 p r
    by (auto simp: maintenance_tick_at_def call_store_def promote_scheduled_def Let_def work_signalled_def
        workers_woken_notify)
qed

lemma insert_task_Ok: "\<exists>b. fst (insert_task t p prio deps pol g) = Ok b"
  by (auto simp: insert_task_def Let_def case_prod_unfold)

lemma try_mark_ready_Ok: "\<exists>m. fst (try_mark_ready t g) = Ok m"
  by (simp add: try_mark_ready_def split: option.splits)

lemma work_signalled_submit: "work_signalled s (snd (submit_with_execution_policy pfx t task deps pol s))"
proof -
  obtain b g1 where ins: "insert_task t (new_payload task) (new_priority task) (dedup_seen {} deps) pol (store s) = (Ok b, g1)"
    using insert_task_Ok [of t "new_payload task" "new_priority task" "dedup_seen {} deps" pol "store s"]
    by (metis prod.collapse)
  obtain m g2 where mark: "try_mark_ready t g1 = (Ok m, g2)"
    using try_mark_ready_Ok [of t g1] by (metis prod.collapse)
  have 1: "no_new_ready (store s) g1"
    using no_new_ready_store(1) [of "store s" t "new_payload task" "new_priority task" "dedup_seen {} deps" pol] ins by simp
  have 2: "no_new_ready (store s) g2"
    using no_new_ready_trans [OF 1] no_new_ready_store(2) [of g1 t] mark by simp
  show ?thesis
    using 1 2 ins mark
    by (auto simp: submit_with_execution_policy_def call_store_def push_ready_def work_signalled_def
        workers_woken_notify split: option.splits)
qed

text \<open>
  C31: no work is left behind silently. Whenever a call of the scheduler puts a task id into a ready
  queue that did not hold it before, the call has woken the workers, with \<open>notify_waiters\<close> directly
  followed by \<open>notify_one\<close>, so a worker that is about to wait finds a permit.
\<close>

theorem new_work_wakes_workers:
  assumes "reachable pfx lease (store s)"
    and "t \<in> set (ready_queue p (store (exec_call pfx lease call s)))" "t \<notin> set (ready_queue p (store s))"
  shows "\<exists>pre post. signals (exec_call pfx lease call s) = signals s @ pre @ [ReadyWaiters, ReadyOne] @ post"
proof -
  have own: "own_inv (store s)" using assms(1) by (rule reachable_own_inv)
  have "work_signalled s (exec_call pfx lease call s)"
  proof (cases call)
    case (CallAttach owner graph)
    then show ?thesis
      using attach_graph_quiet [OF own, of pfx owner graph]
      by (cases "attach_graph pfx owner graph (store s)"; cases "fst (attach_graph pfx owner graph (store s))")
         (auto simp: attach_def call_store_def work_signalled_def workers_woken_notify)
  next
    case (CallDetach owner mode)
    then show ?thesis using no_new_ready_detach [OF own] by (simp add: detach_def work_signalled_call_quiet)
  next
    case (CallNextReady now fresh worker)
    then show ?thesis
      by (simp add: next_ready_def work_signalled_quiet work_signalled_next_ready_loop del: next_ready_loop.simps)
  qed (auto simp: work_signalled_submit work_signalled_complete work_signalled_maintenance renew_lease_sched_def
      checkpoint_payload_def cancel_sched_def remove_sched_def no_new_ready_store work_signalled_call_quiet)
  with assms(2,3) show ?thesis by (auto simp: work_signalled_def workers_woken_def no_new_ready_def)
qed

theorem new_work_wakes_workers_witness:
  "\<exists>pre post. signals (exec_call example_pfx 60 (CallMaintenance [1, 2, 3] 5000) (example_scheduler example_running)) =
     pre @ [ReadyWaiters, ReadyOne] @ post"
proof -
  let ?s = "example_scheduler example_running" and ?c = "CallMaintenance [1, 2, 3] 5000"
  have r: "reachable example_pfx 60 (store ?s)" by (simp add: example_scheduler_def reachable_example_running)
  have "1 \<in> set (ready_queue High (store (exec_call example_pfx 60 ?c ?s)))"
    by (simp add: example_scheduler_def maintenance_tick_at_def call_store_def promote_scheduled_def
        promote_loop.simps example_running_eq example_state_def with_lease_def MAINTENANCE_TICK_LIMIT_def
        requeue_expired_leases_def expired_leases_def expired_entry_def List.map_filter_simps
        example_record_def lease_deadline_def millis_u64_def as_millis_def saturating_add_def requeue_one_def)
  moreover have "1 \<notin> set (ready_queue High (store ?s))"
    by (simp add: example_scheduler_def example_running_eq)
  ultimately have "\<exists>pre post. signals (exec_call example_pfx 60 ?c ?s) = signals ?s @ pre @ [ReadyWaiters, ReadyOne] @ post"
    by (rule new_work_wakes_workers [OF r])
  then show ?thesis by (simp add: example_scheduler_def)
qed

section \<open>Watchers are woken\<close>

definition keeps_leases :: "('p, 'o, 'id) inner \<Rightarrow> ('p, 'o, 'id) inner \<Rightarrow> bool" where
  "keeps_leases g g' = (\<forall>t l. lease_at (tasks g) t = Some l \<longrightarrow> lease_at (tasks g') t = Some l)"

lemma keeps_leases_refl [simp]: "keeps_leases g g"
  by (simp add: keeps_leases_def)

lemma keeps_leases_trans: "keeps_leases g g' \<Longrightarrow> keeps_leases g' g'' \<Longrightarrow> keeps_leases g g''"
  by (simp add: keeps_leases_def)

lemma keeps_leases_upd: "keeps_leases g g' \<Longrightarrow> keeps_leases g (g'\<lparr>owner_graphs := G\<rparr>)"
  by (simp add: keeps_leases_def)

lemma keeps_leases_attach_node: "keeps_leases g (attach_node pfx owner node g)"
  unfolding keeps_leases_def
proof (intro allI impI)
  fix t l
  assume l: "lease_at (tasks g) t = Some l"
  show "lease_at (tasks (attach_node pfx owner node g)) t = Some l"
  proof (cases "t = node_id node")
    case True
    obtain tok a s where "l = (tok, a, s)" by (rule prod_cases3)
    with l obtain r where r: "fmlookup (tasks g) t = Some r" "r_state r = Running tok a"
      by (auto simp: lease_at_Some_iff)
    then have "attach_node pfx owner node g = add_owner owner t g" using True by (simp add: attach_node_keep)
    with l show ?thesis by simp
  qed (use l in \<open>simp add: lease_at_def attach_node_other\<close>)
qed

lemma lookup_reset_nodes:
  "t \<notin> ids \<Longrightarrow> fmlookup (tasks (snd (reset_nodes pfx ids ns g))) t = fmlookup (tasks g) t"
proof (induction ns arbitrary: g)
  case (Cons n ns)
  obtain r g' where rg: "reset_node pfx n g = (r, g')" by fastforce
  have "fmlookup (tasks (snd (reset_node pfx n g))) t = fmlookup (tasks g) t" if "node_id n \<in> ids"
    using that Cons.prems
    by (auto simp: reset_node_def Let_def split: option.splits dependency_insert_state.splits)
  with rg Cons show ?case by (cases r) auto
qed simp

lemma keeps_leases_reset: "keeps_leases g (snd (reset_attached_terminal_nodes pfx ns topo g))"
proof -
  define ordered where "ordered = map (\<lambda>index. ns ! index) topo"
  define ids where "ids = filter (\<lambda>tid. case fmlookup (tasks g) tid of
      Some record \<Rightarrow> is_resettable (r_state record) | None \<Rightarrow> False) (map node_id ordered)"
  define g1 where "g1 = fold (\<lambda>tid i. (remove_queue_memberships tid i)
      \<lparr>dependents := remove_dependent_edges tid (dependents i)\<rparr>) ids g"
  have g1: "tasks g1 = tasks g" unfolding g1_def by (rule fold_field) simp
  have "keeps_leases g (snd (reset_nodes pfx (set ids) ordered g1))"
    unfolding keeps_leases_def
  proof (intro allI impI)
    fix t l
    assume l: "lease_at (tasks g) t = Some l"
    obtain tok a s where "l = (tok, a, s)" by (rule prod_cases3)
    with l have "t \<notin> set ids" by (auto simp: ids_def lease_at_Some_iff)
    then show "lease_at (tasks (snd (reset_nodes pfx (set ids) ordered g1))) t = Some l"
      using l by (simp add: lease_at_def lookup_reset_nodes g1)
  qed
  then show ?thesis
    unfolding reset_attached_terminal_nodes_def Let_def
    unfolding ordered_def [symmetric] unfolding ids_def [symmetric] g1_def [symmetric]
    by (auto split: prod.splits outcome.splits)
qed

lemma keeps_leases_attach: "keeps_leases g (snd (attach_graph pfx owner nodes g))"
proof (cases "normalize_and_validate_graph owner nodes")
  case (Ok ns)
  show ?thesis
  proof (cases "graph_topological_indices ns")
    case (Some topo)
    have "keeps_leases g (fold (attach_node pfx owner) xs g)" for xs
      by (rule fold_invariant) (auto intro: keeps_leases_trans keeps_leases_attach_node)
    with keeps_leases_reset [of g pfx ns topo] show ?thesis
      by (cases "reset_attached_terminal_nodes pfx ns topo g")
         (auto simp: attach_graph_def Ok Some Let_def keeps_leases_upd split: option.splits outcome.splits)
  qed (simp add: attach_graph_def Ok)
qed (simp_all add: attach_graph_def)

lemma keeps_leases_requeue_retrying:
  "fmlookup (tasks g) t = Some r \<Longrightarrow> r_state r = Retrying e a n \<Longrightarrow> keeps_leases g (requeue_one pfx t g)"
  by (auto simp: keeps_leases_def requeue_one_def lease_at_def record_lease_def split: option.splits)

lemma keeps_leases_promote: "keeps_leases g (snd (promote_loop pfx now limit moved g))"
  by (rule promote_loop_invariant)
     (auto intro: keeps_leases_trans keeps_leases_requeue_retrying, auto simp: keeps_leases_def)

lemma keeps_leases_take: "keeps_leases g (snd (take_ready lease now t tok g))"
  by (auto simp: keeps_leases_def take_ready_def take_ready_locked_def next_sequence_def Let_def lease_at_def
      record_lease_def split: option.splits)

lemma keeps_leases_pop_ready_and_take: "keeps_leases g (snd (pop_ready_and_take lease now p tok g))"
proof (induction "length (ready_queue p g)" arbitrary: g rule: less_induct)
  case less
  show ?case
  proof (cases "ready_queue p g")
    case Nil
    then show ?thesis by (subst pop_ready_and_take.simps) (simp add: pop_ready_def)
  next
    case (Cons t q)
    let ?g = "set_ready_queue p q g"
    have pop: "pop_ready p g = (Ok (Some t), ?g)" using Cons by (simp add: pop_ready_def)
    have 1: "keeps_leases g ?g" by (simp add: keeps_leases_def)
    obtain res g' where tk: "take_ready lease now t tok ?g = (res, g')" by fastforce
    then have 2: "keeps_leases g g'" using keeps_leases_trans [OF 1 keeps_leases_take [of ?g lease now t tok]] by simp
    show ?thesis
    proof (cases "res = Ok None")
      case True
      then have "g' = ?g" using tk take_ready_locked_None by (fastforce simp: take_ready_def)
      then show ?thesis using pop tk True less.hyps [of ?g] Cons keeps_leases_trans [OF 1]
        by (subst pop_ready_and_take.simps) simp
    next
      case False
      then show ?thesis using pop tk 2
        by (subst pop_ready_and_take.simps) (auto split: outcome.splits option.splits)
    qed
  qed
qed

lemma keeps_leases_store:
  "keeps_leases g (snd (insert_task t p prio deps pol g))"
  "keeps_leases g (snd (try_mark_ready t g))"
  "keeps_leases g (snd (push_ready pfx prio t g))"
  "keeps_leases g (snd (checkpoint_payload_if_running t tok a p pol g))"
  "keeps_leases g (snd (renew_lease lease now t tok a g))"
proof -
  show "keeps_leases g (snd (insert_task t p prio deps pol g))"
    by (auto simp: keeps_leases_def insert_task_def Let_def lease_at_def record_lease_def modify_task_def
        split: prod.splits option.splits task_state.splits)
qed (auto simp: keeps_leases_def try_mark_ready_def push_ready_def checkpoint_payload_if_running_def
      renew_lease_def lease_at_def record_lease_def split: option.splits task_state.splits if_splits)

definition watchers_woken :: "('p, 'o, 'id) scheduler \<Rightarrow> ('p, 'o, 'id) scheduler \<Rightarrow> bool" where
  "watchers_woken s s' = (\<exists>new. signals s' = signals s @ new \<and> LeaseWaiters \<in> set new)"

definition loss_signalled :: "('p, 'o, 'id) scheduler \<Rightarrow> ('p, 'o, 'id) scheduler \<Rightarrow> bool" where
  "loss_signalled s s' = (keeps_leases (store s) (store s') \<or> watchers_woken s s')"

lemma watchers_woken_notify:
  "signals s' = signals s \<Longrightarrow> watchers_woken s (notify_lease_waiters s')"
  "signals s' = signals s \<Longrightarrow> watchers_woken s (notify_lease_waiters (notify_ready_workers s'))"
  by (auto simp: watchers_woken_def)

lemma loss_signalled_call_quiet:
  "keeps_leases (store s) (snd (op (store s))) \<Longrightarrow> (\<And>x s'. store (snd (k x s')) = store s') \<Longrightarrow>
   loss_signalled s (snd (call_store op k s))"
  by (cases "op (store s)"; cases "fst (op (store s))") (auto simp: call_store_def loss_signalled_def)

lemma keeps_leases_next_ready_loop:
  "keeps_leases (store s0) (store s) \<Longrightarrow>
   keeps_leases (store s0) (store (snd (next_ready_loop lease now fresh worker prios s)))"
proof (induction prios arbitrary: s)
  case (Cons p prios)
  let ?op = "pop_ready_and_take lease now p (lease_token_of worker (fresh p))"
  obtain res g where op: "?op (store s) = (res, g)" by fastforce
  then have "keeps_leases (store s0) g"
    using keeps_leases_trans [OF Cons.prems keeps_leases_pop_ready_and_take [of "store s" lease now p]]
    by (metis snd_conv)
  then show ?case using Cons.IH [of "s\<lparr>store := g\<rparr>"] op
    by (cases res) (auto simp: Let_def call_store_def split: option.splits)
qed simp

text \<open>A fenced call changes the store only when it answers \<open>Ok(true)\<close>, and then it notifies.\<close>

lemma loss_signalled_fenced:
  assumes "\<not> running_lease_matches (store s) t tok a \<Longrightarrow> op (store s) = (Ok False, store s)"
    and "running_lease_matches (store s) t tok a \<Longrightarrow> fst (op (store s)) = Ok True"
    and "\<And>s'. signals s' = signals s \<Longrightarrow> watchers_woken s (snd (k True s'))" "\<And>s'. store (snd (k False s')) = store s'"
  shows "loss_signalled s (snd (call_store op k s))"
  using assms
  by (cases "running_lease_matches (store s) t tok a"; cases "op (store s)")
     (auto simp: call_store_def loss_signalled_def)

lemma loss_signalled_complete: "loss_signalled s (snd (complete now pfx l result s))"
proof -
  have "loss_signalled s (snd (complete_success pfx l out s))" for out
    unfolding complete_success_def
    by (rule loss_signalled_fenced, erule success_op.stale, erule success_op.live)
       (simp_all add: watchers_woken_notify)
  moreover have "loss_signalled s (snd (retry_now pfx l s))"
    unfolding retry_now_def
    by (rule loss_signalled_fenced, erule retry_now_op.stale, erule retry_now_op.live)
       (simp_all add: watchers_woken_notify)
  moreover have "loss_signalled s (snd (retry_later l err n s))" for err n
    unfolding retry_later_def
    by (rule loss_signalled_fenced, erule retry_later_op.stale, erule retry_later_op.live)
       (simp_all add: watchers_woken_notify)
  moreover have "loss_signalled s (snd (fail_completed_lease l err s))" for err
    unfolding fail_completed_lease_def
    by (rule loss_signalled_fenced, erule failure_op.stale, erule failure_op.live)
       (simp_all add: watchers_woken_notify)
  ultimately show ?thesis
    by (auto simp: complete_def complete_with_disposition_def complete_failure_def case_prod_unfold Let_def
        split: sum.splits option.splits retry_schedule_at.splits)
qed

lemma loss_signalled_maintenance: "loss_signalled s (snd (maintenance_tick_at pfx order now s))"
proof -
  obtain m1 g1 where p: "promote_loop pfx now MAINTENANCE_TICK_LIMIT 0 (store s) = (m1, g1)" by fastforce
  define m2 where "m2 = min (length (expired_leases now order g1)) MAINTENANCE_TICK_LIMIT"
  obtain g2 where r: "requeue_expired_leases pfx order now MAINTENANCE_TICK_LIMIT g1 = (Ok m2, g2)"
    by (simp add: requeue_expired_leases_def m2_def Let_def)
  have 1: "keeps_leases (store s) g1"
    using keeps_leases_promote [of "store s" pfx now MAINTENANCE_TICK_LIMIT 0] p by simp
  have 2: "g2 = g1" if "m2 = 0"
    using r that by (auto simp: requeue_expired_leases_def m2_def Let_def MAINTENANCE_TICK_LIMIT_def min_def
        split: if_splits)
  show ?thesis
    using 1 2 p r
    by (auto simp: maintenance_tick_at_def call_store_def promote_scheduled_def Let_def loss_signalled_def
        watchers_woken_notify)
qed

lemma loss_signalled_submit: "loss_signalled s (snd (submit_with_execution_policy pfx t task deps pol s))"
proof -
  obtain b g1 where ins: "insert_task t (new_payload task) (new_priority task) (dedup_seen {} deps) pol (store s) = (Ok b, g1)"
    using insert_task_Ok [of t "new_payload task" "new_priority task" "dedup_seen {} deps" pol "store s"]
    by (metis prod.collapse)
  obtain m g2 where mark: "try_mark_ready t g1 = (Ok m, g2)"
    using try_mark_ready_Ok [of t g1] by (metis prod.collapse)
  have 1: "keeps_leases (store s) g1"
    using keeps_leases_store(1) [of "store s" t "new_payload task" "new_priority task" "dedup_seen {} deps" pol] ins by simp
  have 2: "keeps_leases (store s) g2"
    using keeps_leases_trans [OF 1] keeps_leases_store(2) [of g1 t] mark by simp
  have 3: "keeps_leases (store s) (push_ready_locked pfx prio t g2)" for prio
    using 2 by (simp add: keeps_leases_def)
  show ?thesis
    using 1 2 3 ins mark
    by (auto simp: submit_with_execution_policy_def call_store_def push_ready_def loss_signalled_def
        split: option.splits)
qed

lemma loss_signalled_detach:
  assumes "own_inv (store s)"
  shows "loss_signalled s (snd (detach owner mode s))"
proof (cases "\<exists>graph. fmlookup (owner_graphs (store s)) owner = Some graph \<and> (og_attached graph \<or> mode = RemoveMode)")
  case False
  then show ?thesis
    by (cases mode) (auto simp: detach_def call_store_def detach_owner_def Let_def loss_signalled_def not_attached_def
        split: option.splits)
next
  case True
  then obtain graph where "fmlookup (owner_graphs (store s)) owner = Some graph" "og_attached graph \<or> mode = RemoveMode"
    by blast
  from detach_owner_eq [OF assms this] show ?thesis
    by (simp add: detach_def call_store_def loss_signalled_def watchers_woken_notify)
qed

lemma loss_signalled_single:
  "loss_signalled s (snd (cancel_sched t s))" "loss_signalled s (snd (remove_sched t s))"
proof -
  show "loss_signalled s (snd (cancel_sched t s))"
    using clean_cancel [of t "''dependency cancelled''" "store s"]
    by (auto simp: cancel_sched_def call_store_def cancel_and_fail_dependents_def cancel_task_locked_def Let_def
        loss_signalled_def watchers_woken_notify split: option.splits)
  show "loss_signalled s (snd (remove_sched t s))"
    by (auto simp: remove_sched_def call_store_def remove_task_def loss_signalled_def watchers_woken_notify)
qed

text \<open>
  C32: nobody loses a lease silently. When a call of the scheduler ends a lease that was running
  (completion, retry, expiry, cancellation, removal or detachment, directly or as a dependent of
  another task), those who watch leases are woken by that call.
\<close>

theorem lost_lease_wakes_watchers:
  assumes "reachable pfx lease (store s)"
    and "running_lease_matches (store s) t tok a"
    and "\<not> running_lease_matches (store (exec_call pfx lease call s)) t tok a"
  shows "\<exists>new. signals (exec_call pfx lease call s) = signals s @ new \<and> LeaseWaiters \<in> set new"
proof -
  have own: "own_inv (store s)" using assms(1) by (rule reachable_own_inv)
  have "loss_signalled s (exec_call pfx lease call s)"
  proof (cases call)
    case (CallNextReady now fresh worker)
    then show ?thesis
      by (simp add: next_ready_def loss_signalled_def keeps_leases_next_ready_loop del: next_ready_loop.simps)
  qed (auto simp: loss_signalled_submit loss_signalled_complete loss_signalled_maintenance loss_signalled_detach [OF own]
      loss_signalled_single attach_def renew_lease_sched_def checkpoint_payload_def keeps_leases_store
      keeps_leases_attach loss_signalled_call_quiet)
  with assms(2,3) show ?thesis
    unfolding loss_signalled_def watchers_woken_def keeps_leases_def running_lease_matches_state by blast
qed

theorem lost_lease_wakes_watchers_witness:
  "\<exists>new. signals (exec_call example_pfx 60 (CallDetach example_owner RemoveMode) (example_scheduler example_running)) = new \<and>
     LeaseWaiters \<in> set new"
proof -
  let ?s = "example_scheduler example_running" and ?c = "CallDetach example_owner RemoveMode"
  have r: "reachable example_pfx 60 (store ?s)" by (simp add: example_scheduler_def reachable_example_running)
  have l: "running_lease_matches (store ?s) 1 ''w/1'' 1" using example_running_leased by (simp add: example_scheduler_def)
  have graph: "fmlookup (owner_graphs example_running) example_owner = Some \<lparr>og_task_ids = [1, 2, 3], og_attached = True\<rparr>"
    by (simp add: example_running_eq example_state_def)
  have none: "\<not> other_owner example_running example_owner 1"
    by (auto simp: other_owner_def example_running_eq example_state_def owned_def)
  have "store (exec_call example_pfx 60 ?c ?s) = snd (detach_owner example_owner RemoveMode example_running)"
    using detach_owner_eq [OF reachable_own_inv [OF reachable_example_running] graph, of RemoveMode]
    by (simp add: detach_def call_store_def example_scheduler_def)
  moreover have "fmlookup (tasks (snd (detach_owner example_owner RemoveMode example_running))) 1 = None"
    using detach_owner_eq [OF reachable_own_inv [OF reachable_example_running] graph, of RemoveMode] none
    by (simp add: Let_def tasks_fold_erase)
  ultimately have "\<not> running_lease_matches (store (exec_call example_pfx 60 ?c ?s)) 1 ''w/1'' 1"
    by (simp add: running_lease_matches_Some)
  from lost_lease_wakes_watchers [OF r l this] show ?thesis by (simp add: example_scheduler_def)
qed

end
