(* ===== verification/Shasta_Base.thy ===== *)
theory Shasta_Base
  imports Prelude
begin

text \<open>
  What the theories of the Shasta proof core share: the byte and address types, the
  checked \<open>usize\<close> addition at the width of the target (the guest programs are built for
  32-bit machines, the server for 64-bit ones, so the largest \<open>usize\<close> is an argument),
  slices by \<open>get(a..b)\<close>, and the collection \<open>ok_iff\<close> of facts of the form
  ``this check returns \<open>Ok\<close> exactly when ...'', by which a chain of fallible checks is
  turned into the conjunction of its conditions.
\<close>

named_theorems ok_iff \<open>when a fallible check returns Ok\<close>

type_synonym b256 = "256 word"
type_synonym address = "160 word"
type_synonym bytes = "u8 list"

declare bind_outcome_Ok_iff [ok_iff]
declare ensure_Ok_iff [ok_iff]

lemma if_Err_eq_Ok [ok_iff]: "(if b then Err e else r) = Ok x \<longleftrightarrow> \<not> b \<and> r = Ok x"
  by simp

lemma if_Panic_eq_Ok [ok_iff]: "(if b then Panic e else r) = Ok x \<longleftrightarrow> \<not> b \<and> r = Ok x"
  by simp

lemma case_option_Err_eq_Ok [ok_iff]:
  "(case v of None \<Rightarrow> Err e | Some y \<Rightarrow> f y) = Ok x \<longleftrightarrow> (\<exists>y. v = Some y \<and> f y = Ok x)"
  by (cases v) auto

lemma case_option_Panic_eq_Ok [ok_iff]:
  "(case v of None \<Rightarrow> Panic e | Some y \<Rightarrow> f y) = Ok x \<longleftrightarrow> (\<exists>y. v = Some y \<and> f y = Ok x)"
  by (cases v) auto

text \<open>\<open>ok_or_else\<close>: a missing value as an error.\<close>

definition ok_or :: "'a option \<Rightarrow> 'e \<Rightarrow> ('e, 'a) outcome" where
  "ok_or v e = (case v of None \<Rightarrow> Err e | Some x \<Rightarrow> Ok x)"

lemma ok_or_Ok_iff [ok_iff]: "ok_or v e = Ok x \<longleftrightarrow> v = Some x"
  by (auto simp: ok_or_def split: option.splits)

lemma ok_or_simps [simp]: "ok_or None e = Err e" "ok_or (Some x) e = Ok x"
  by (simp_all add: ok_or_def)

text \<open>\<open>map_err\<close>.\<close>

fun map_err :: "('e \<Rightarrow> 'f) \<Rightarrow> ('e, 'a) outcome \<Rightarrow> ('f, 'a) outcome" where
  "map_err h (Ok x) = Ok x"
| "map_err h (Err e) = Err (h e)"
| "map_err h (Panic p) = Panic p"

lemma map_err_Ok_iff [ok_iff]: "map_err h r = Ok x \<longleftrightarrow> r = Ok x"
  by (cases r) auto

section \<open>\<open>usize\<close> and slices\<close>

definition checked_add_usize :: "nat \<Rightarrow> nat \<Rightarrow> nat \<Rightarrow> nat option" where
  "checked_add_usize usize_max a b = (if a + b \<le> usize_max then Some (a + b) else None)"

lemma checked_add_usize_Some_iff [ok_iff]:
  "checked_add_usize usize_max a b = Some c \<longleftrightarrow> c = a + b \<and> a + b \<le> usize_max"
  by (auto simp: checked_add_usize_def)

definition get_range :: "'a list \<Rightarrow> nat \<Rightarrow> nat \<Rightarrow> 'a list option" where
  "get_range xs a b = (if a \<le> b \<and> b \<le> length xs then Some (take (b - a) (drop a xs)) else None)"

lemma get_range_Some_iff [ok_iff]:
  "get_range xs a b = Some ys \<longleftrightarrow> a \<le> b \<and> b \<le> length xs \<and> ys = take (b - a) (drop a xs)"
  by (auto simp: get_range_def)

section \<open>Running a check over a list\<close>

text \<open>
  A \<open>for\<close> loop whose body can fail and that carries a state: the first failure ends it.
\<close>

fun try_fold :: "('s \<Rightarrow> 'a \<Rightarrow> ('e, 's) outcome) \<Rightarrow> 's \<Rightarrow> 'a list \<Rightarrow> ('e, 's) outcome" where
  "try_fold f s [] = Ok s"
| "try_fold f s (x # xs) = bind_outcome (f s x) (\<lambda>s'. try_fold f s' xs)"

text \<open>A fallible function on every element of a list.\<close>

fun try_map :: "('a \<Rightarrow> ('e, 'b) outcome) \<Rightarrow> 'a list \<Rightarrow> ('e, 'b list) outcome" where
  "try_map f [] = Ok []"
| "try_map f (x # xs) = bind_outcome (f x) (\<lambda>y. bind_outcome (try_map f xs) (\<lambda>ys. Ok (y # ys)))"

lemma try_map_Ok_iff [ok_iff]: "try_map f xs = Ok ys \<longleftrightarrow> list_all2 (\<lambda>x y. f x = Ok y) xs ys"
  by (induction xs arbitrary: ys) (auto simp: ok_iff list_all2_Cons1)

lemma try_map_Ok_elem: "try_map f xs = Ok ys \<Longrightarrow> y \<in> set ys \<Longrightarrow> \<exists>x \<in> set xs. f x = Ok y"
  by (induction xs arbitrary: ys) (auto simp: bind_outcome_Ok_iff)

lemma try_map_id: "\<forall>x \<in> set xs. \<exists>y. f x = Ok y \<and> g y = Ok (h x) \<Longrightarrow>
    \<exists>ys. try_map f xs = Ok ys \<and> try_map g ys = Ok (map h xs)"
  by (induction xs) fastforce+

lemma try_fold_append:
  "try_fold f s (xs @ ys) = bind_outcome (try_fold f s xs) (\<lambda>s'. try_fold f s' ys)"
proof (induction xs arbitrary: s)
  case Nil
  then show ?case by simp
next
  case (Cons x xs)
  then show ?case by (cases "f s x") simp_all
qed

text \<open>A loop that carries no state returns \<open>Ok\<close> exactly when every round does.\<close>

lemma try_fold_unit_Ok_iff:
  "try_fold (\<lambda>_. f) () xs = Ok () \<longleftrightarrow> (\<forall>x \<in> set xs. f x = Ok ())"
  by (induction xs) (auto simp: bind_outcome_Ok_iff)

text \<open>A property of the carried state that every round keeps holds at the end.\<close>

lemma try_fold_invariant:
  assumes "try_fold f s xs = Ok s'" and "P s"
    and "\<And>a x b. x \<in> set xs \<Longrightarrow> P a \<Longrightarrow> f a x = Ok b \<Longrightarrow> P b"
  shows "P s'"
  using assms by (induction xs arbitrary: s) (auto simp: bind_outcome_Ok_iff)

text \<open>A loop whose rounds do not panic does not panic.\<close>

lemma try_fold_no_panic:
  assumes "P s" and "\<And>a x b. x \<in> set xs \<Longrightarrow> P a \<Longrightarrow> f a x = Ok b \<Longrightarrow> P b"
    and "\<And>a x. x \<in> set xs \<Longrightarrow> P a \<Longrightarrow> \<not> panics (f a x)"
  shows "\<not> panics (try_fold f s xs)"
  using assms
proof (induction xs arbitrary: s)
  case Nil
  then show ?case by (simp add: panics_def)
next
  case (Cons x xs)
  have np: "\<not> panics (f s x)" using Cons.prems(1,3) by simp
  show ?case
  proof (cases "f s x")
    case (Ok s')
    have "P s'" using Cons.prems(1,2) Ok by (metis list.set_intros(1))
    then have "\<not> panics (try_fold f s' xs)"
      using Cons.IH Cons.prems(2,3) by (meson list.set_intros(2))
    then show ?thesis using Ok by simp
  qed (use np in \<open>simp_all add: panics_def\<close>)
qed

lemma panics_simps [simp]: "\<not> panics (Ok x)" "\<not> panics (Err e)" "panics (Panic p)"
  by (simp_all add: panics_def)

lemma panics_bind_iff:
  "panics (bind_outcome r f) \<longleftrightarrow> panics r \<or> (\<exists>x. r = Ok x \<and> panics (f x))"
  by (cases r) auto

lemma panics_ensure [simp]: "\<not> panics (ensure b e)"
  by (simp add: ensure_def)

lemma panics_ok_or [simp]: "\<not> panics (ok_or v e)"
  by (cases v) simp_all

lemma panics_map_err [simp]: "panics (map_err h r) \<longleftrightarrow> panics r"
  by (cases r) auto

end
