(* ===== verification/Anchor.thy ===== *)
theory Anchor
  imports Shasta_Base
begin

text \<open>
  The anchor rules of a Shasta proposal (\<open>crates/primitives-shasta/src/anchor.rs\<close>): every L2
  block anchors to an L1 block. The blocks of the forced-inclusion sources, which come
  first, inherit the parent's anchor; those of the final normal source move the anchor
  forward inside a window below the origin block of the proposal.
\<close>

section \<open>Data\<close>

definition ANCHOR_MAX_OFFSET :: u64 where
  "ANCHOR_MAX_OFFSET = 128"

definition MAINNET_ANCHOR_MAX_OFFSET :: u64 where
  "MAINNET_ANCHOR_MAX_OFFSET = 512"

definition TAIKO_MAINNET_CHAIN_ID :: u64 where
  "TAIKO_MAINNET_CHAIN_ID = 167000"

definition anchor_max_offset_for_chain :: "u64 \<Rightarrow> u64" where
  "anchor_max_offset_for_chain chain_id =
     (if chain_id = TAIKO_MAINNET_CHAIN_ID then MAINNET_ANCHOR_MAX_OFFSET else ANCHOR_MAX_OFFSET)"

record anchor_source_span =
  span_is_forced_inclusion :: bool
  span_block_count :: nat

record source_aware_anchor_plan =
  l1_header_anchor_start_index :: nat
  requires_parent_checkpoint :: bool

text \<open>One constructor for each message that the source builds.\<close>

datatype anchor_error =
    AnchorsEmpty
  | AnchorBelowLast u64 u64
  | AnchorOutsideRange u64 u64 u64
  | AnchorRegressed u64 u64
  | SpansEmpty
  | LastSourceNotNormal
  | NormalSourceEmpty
  | SourceNotForced nat
  | ForcedSourceEmpty nat
  | ForcedSourceOverflow nat
  | SpansExceedAnchors nat
  | ForcedAnchorMismatch nat u64 u64
  | NormalSourceOverflow
  | SpansCover nat nat

section \<open>The checks\<close>

definition should_bypass_stalled_anchor_linkage :: "u64 list \<Rightarrow> u64 \<Rightarrow> u64 \<Rightarrow> u64 \<Rightarrow> bool" where
  "should_bypass_stalled_anchor_linkage anchors last_anchor origin chain_id =
     (case anchors of
        [] \<Rightarrow> False
      | first_anchor # _ \<Rightarrow>
          first_anchor = last_anchor
          \<and> saturating_sub origin first_anchor > anchor_max_offset_for_chain chain_id
          \<and> list_all (\<lambda>a. a = first_anchor) anchors)"

definition check_anchor ::
    "u64 \<Rightarrow> u64 \<Rightarrow> u64 \<Rightarrow> u64 option \<Rightarrow> u64 \<Rightarrow> (anchor_error, u64 option) outcome" where
  "check_anchor last_anchor origin min_anchor previous a =
     (if a < last_anchor then Err (AnchorBelowLast a last_anchor)
      else if a < min_anchor \<or> a > origin then Err (AnchorOutsideRange a min_anchor origin)
      else case previous of
             Some p \<Rightarrow> if a < p then Err (AnchorRegressed a p) else Ok (Some a)
           | None \<Rightarrow> Ok (Some a))"

definition validate_anchor_progression ::
    "u64 list \<Rightarrow> u64 \<Rightarrow> u64 \<Rightarrow> u64 \<Rightarrow> (anchor_error, unit) outcome" where
  "validate_anchor_progression anchors last_anchor origin chain_id =
     (if anchors = [] then Err AnchorsEmpty
      else let min_anchor = saturating_sub origin (anchor_max_offset_for_chain chain_id)
           in bind_outcome (try_fold (check_anchor last_anchor origin min_anchor) None anchors)
                (\<lambda>_. Ok ()))"

definition check_forced_anchor :: "nat \<Rightarrow> u64 \<Rightarrow> u64 \<Rightarrow> (anchor_error, unit) outcome" where
  "check_forced_anchor i last_anchor a =
     (if a \<noteq> last_anchor then Err (ForcedAnchorMismatch i a last_anchor) else Ok ())"

definition check_forced_source ::
    "nat \<Rightarrow> u64 list \<Rightarrow> u64 \<Rightarrow> nat \<Rightarrow> nat \<times> anchor_source_span \<Rightarrow> (anchor_error, nat) outcome" where
  "check_forced_source usize_max anchors last_anchor cursor = (\<lambda>(i, span).
     if \<not> span_is_forced_inclusion span then Err (SourceNotForced i)
     else if span_block_count span = 0 then Err (ForcedSourceEmpty i)
     else bind_outcome
            (ok_or (checked_add_usize usize_max cursor (span_block_count span))
              (ForcedSourceOverflow i))
            (\<lambda>end'. bind_outcome (ok_or (get_range anchors cursor end') (SpansExceedAnchors i))
              (\<lambda>as. bind_outcome (try_fold (\<lambda>_. check_forced_anchor i last_anchor) () as)
                (\<lambda>_. Ok end'))))"

definition validate_source_aware_anchor_progression ::
    "nat \<Rightarrow> u64 list \<Rightarrow> anchor_source_span list \<Rightarrow> u64 \<Rightarrow> u64 \<Rightarrow> u64
      \<Rightarrow> (anchor_error, source_aware_anchor_plan) outcome" where
  "validate_source_aware_anchor_progression usize_max anchors spans last_anchor origin chain_id =
     (if anchors = [] then Err AnchorsEmpty
      else if spans = [] then Err SpansEmpty
      else let normal = last spans; forced = butlast spans in
        if span_is_forced_inclusion normal then Err LastSourceNotNormal
        else if span_block_count normal = 0 then Err NormalSourceEmpty
        else bind_outcome
               (try_fold (check_forced_source usize_max anchors last_anchor) 0
                 (enumerate 0 forced))
               (\<lambda>cursor. bind_outcome
                 (ok_or (checked_add_usize usize_max cursor (span_block_count normal))
                   NormalSourceOverflow)
                 (\<lambda>end'. if end' \<noteq> length anchors then Err (SpansCover end' (length anchors))
                    else bind_outcome
                           (validate_anchor_progression (take (end' - cursor) (drop cursor anchors))
                             last_anchor origin chain_id)
                           (\<lambda>_. Ok \<lparr>l1_header_anchor_start_index = cursor,
                                   requires_parent_checkpoint = (cursor > 0)\<rparr>))))"

section \<open>What the checks accept\<close>

lemma check_anchor_Ok_iff [ok_iff]:
  "check_anchor l t m p a = Ok q \<longleftrightarrow>
     q = Some a \<and> l \<le> a \<and> m \<le> a \<and> a \<le> t \<and> (\<forall>b. p = Some b \<longrightarrow> b \<le> a)"
  by (auto simp: check_anchor_def not_less split: option.splits if_splits)

lemma try_fold_check_anchor:
  "(\<exists>q. try_fold (check_anchor l t m) p as = Ok q) \<longleftrightarrow>
     sorted as \<and> (\<forall>a \<in> set as. l \<le> a \<and> m \<le> a \<and> a \<le> t \<and> (\<forall>b. p = Some b \<longrightarrow> b \<le> a))"
proof (induction as arbitrary: p)
  case Nil
  then show ?case by simp
next
  case (Cons a as)
  have "(\<exists>q. try_fold (check_anchor l t m) p (a # as) = Ok q) \<longleftrightarrow>
          l \<le> a \<and> m \<le> a \<and> a \<le> t \<and> (\<forall>b. p = Some b \<longrightarrow> b \<le> a)
          \<and> (\<exists>q. try_fold (check_anchor l t m) (Some a) as = Ok q)"
    by (auto simp: ok_iff)
  then show ?case
    unfolding Cons.IH by (auto intro: order.trans)
qed

lemma validate_anchor_progression_Ok_iff [ok_iff]:
  "validate_anchor_progression as l t c = Ok u \<longleftrightarrow>
     as \<noteq> [] \<and> sorted as
     \<and> (\<forall>a \<in> set as. l \<le> a \<and> saturating_sub t (anchor_max_offset_for_chain c) \<le> a \<and> a \<le> t)"
  using try_fold_check_anchor [of l t "saturating_sub t (anchor_max_offset_for_chain c)" None as]
  by (auto simp: validate_anchor_progression_def Let_def ok_iff)

lemma check_forced_source_Ok_iff [ok_iff]:
  "check_forced_source M as l cur (i, s) = Ok e \<longleftrightarrow>
     span_is_forced_inclusion s \<and> 0 < span_block_count s
     \<and> e = cur + span_block_count s \<and> e \<le> M \<and> e \<le> length as
     \<and> (\<forall>a \<in> set (take (span_block_count s) (drop cur as)). a = l)"
  by (auto simp: check_forced_source_def ok_iff try_fold_unit_Ok_iff check_forced_anchor_def)

lemma take_split_at: "take (m + n) xs = take m xs @ take n (drop m xs)"
  by (simp add: take_add)

lemma forced_sources_Ok_iff:
  assumes "\<forall>a \<in> set (take cur as). a = l" and "cur \<le> length as" "cur \<le> M"
  shows "try_fold (check_forced_source M as l) cur (enumerate n ss) = Ok e \<longleftrightarrow>
     (\<forall>s \<in> set ss. span_is_forced_inclusion s \<and> 0 < span_block_count s)
     \<and> e = cur + sum_list (map span_block_count ss) \<and> e \<le> M \<and> e \<le> length as
     \<and> (\<forall>a \<in> set (take e as). a = l)"
  using assms
proof (induction ss arbitrary: cur n)
  case Nil
  then show ?case by auto
next
  case (Cons s ss)
  let ?c = "cur + span_block_count s"
  let ?slice = "set (take (span_block_count s) (drop cur as))"
  let ?Q = "span_is_forced_inclusion s \<and> 0 < span_block_count s \<and> ?c \<le> M \<and> ?c \<le> length as
            \<and> (\<forall>a \<in> ?slice. a = l)"
  have step: "try_fold (check_forced_source M as l) cur (enumerate n (s # ss)) = Ok e \<longleftrightarrow>
      ?Q \<and> try_fold (check_forced_source M as l) ?c (enumerate (Suc n) ss) = Ok e"
    by (auto simp: ok_iff)
  have slice: "?slice \<subseteq> set (take (?c + k) as)" for k
    using set_take_subset_set_take [of ?c "?c + k" as] by (auto simp: take_add)
  show ?case
  proof (cases ?Q)
    case True
    then have "\<forall>a \<in> set (take ?c as). a = l"
      using Cons.prems(1) by (auto simp: take_add)
    with True show ?thesis
      unfolding step by (subst Cons.IH) (auto simp: add.assoc)
  next
    case False
    have "?Q" if "\<forall>x \<in> set (s # ss). span_is_forced_inclusion x \<and> 0 < span_block_count x"
      "e = cur + sum_list (map span_block_count (s # ss))" "e \<le> M" "e \<le> length as"
      "\<forall>a \<in> set (take e as). a = l"
      using that slice [of "sum_list (map span_block_count ss)"] by (auto simp: add.assoc)
    with False show ?thesis unfolding step by blast
  qed
qed

text \<open>The layout a proposal must have: forced sources of at least one block, then a normal one.\<close>

definition canonical_spans :: "anchor_source_span list \<Rightarrow> bool" where
  "canonical_spans spans =
     (spans \<noteq> [] \<and> \<not> span_is_forced_inclusion (last spans)
      \<and> (\<forall>s \<in> set (butlast spans). span_is_forced_inclusion s)
      \<and> (\<forall>s \<in> set spans. 0 < span_block_count s))"

definition forced_blocks :: "anchor_source_span list \<Rightarrow> nat" where
  "forced_blocks spans = sum_list (map span_block_count (butlast spans))"

lemma set_butlast_last: "xs \<noteq> [] \<Longrightarrow> set xs = insert (last xs) (set (butlast xs))"
  by (metis append_butlast_last_id insert_commute list.simps(15) rotate1.simps(2) set_rotate1)

lemma sum_list_butlast_last:
  "xs \<noteq> [] \<Longrightarrow> sum_list (map f (butlast xs)) + f (last xs) = (sum_list (map f xs) :: nat)"
  by (induction xs) auto

lemma sorted_le_last: "sorted xs \<Longrightarrow> x \<in> set xs \<Longrightarrow> x \<le> last xs"
  by (induction xs) auto

text \<open>
  The anchor check of a normal source accepts a list of anchors exactly when it is
  non-empty, never decreases, starts at or above the parent's anchor and stays inside the
  window of the chain below the origin block (512 blocks on mainnet, 128 elsewhere).
\<close>

lemma validate_anchor_progression_exact:
  "validate_anchor_progression anchors last_anchor origin chain_id = Ok () \<longleftrightarrow>
     anchors \<noteq> [] \<and> sorted anchors
     \<and> unat last_anchor \<le> unat (hd anchors) \<and> unat (last anchors) \<le> unat origin
     \<and> unat origin \<le> unat (hd anchors) + (if chain_id = 167000 then 512 else 128)"
proof (cases anchors)
  case Nil
  then show ?thesis by (simp add: ok_iff)
next
  case (Cons a as)
  have window: "saturating_sub origin (anchor_max_offset_for_chain chain_id) \<le> a \<longleftrightarrow>
      unat origin \<le> unat a + (if chain_id = 167000 then 512 else 128)"
    by (auto simp: word_le_nat_alt sat_simps anchor_max_offset_for_chain_def
        TAIKO_MAINNET_CHAIN_ID_def MAINNET_ANCHOR_MAX_OFFSET_def ANCHOR_MAX_OFFSET_def)
  have ends: "(\<forall>x \<in> set anchors. l \<le> x \<and> m \<le> x \<and> x \<le> t) \<longleftrightarrow> l \<le> a \<and> m \<le> a \<and> last anchors \<le> t"
    if "sorted anchors" for l m t
  proof -
    have "\<forall>x \<in> set anchors. a \<le> x \<and> x \<le> last anchors" and "last anchors \<in> set anchors"
      using that sorted_le_last [OF that] Cons by auto
    then show ?thesis using Cons by (meson list.set_intros(1) order.trans)
  qed
  have "validate_anchor_progression anchors last_anchor origin chain_id = Ok () \<longleftrightarrow>
      sorted anchors \<and> last_anchor \<le> a
      \<and> saturating_sub origin (anchor_max_offset_for_chain chain_id) \<le> a \<and> last anchors \<le> origin"
    unfolding validate_anchor_progression_Ok_iff using ends Cons by blast
  then show ?thesis
    unfolding window by (auto simp: word_le_nat_alt Cons)
qed

text \<open>
  C33: The source-aware check accepts a batch and returns a plan exactly when the sources are
  forced sources followed by one normal source, none of them empty, that together cover
  all anchors; the anchors of the forced sources equal the parent's anchor; those of the
  normal source pass the progression check; and the plan then starts the L1 header linkage
  at the first block of the normal source. Every other batch is refused.
\<close>

theorem validate_source_aware_exact:
  assumes "length anchors \<le> usize_max"
  shows "validate_source_aware_anchor_progression usize_max anchors spans last_anchor origin chain_id
           = Ok plan \<longleftrightarrow>
     canonical_spans spans
     \<and> sum_list (map span_block_count spans) = length anchors
     \<and> (\<forall>i < forced_blocks spans. anchors ! i = last_anchor)
     \<and> validate_anchor_progression (drop (forced_blocks spans) anchors) last_anchor origin chain_id
         = Ok ()
     \<and> plan = \<lparr>l1_header_anchor_start_index = forced_blocks spans,
               requires_parent_checkpoint = (forced_blocks spans > 0)\<rparr>"
    (is "?run = Ok plan \<longleftrightarrow> ?spec")
proof (cases "spans = [] \<or> anchors = []")
  case True
  then show ?thesis
    by (auto simp: validate_source_aware_anchor_progression_def canonical_spans_def ok_iff)
next
  case False
  let ?f = "forced_blocks spans" and ?n = "span_block_count (last spans)"
  let ?Q = "canonical_spans spans \<and> ?f + ?n = length anchors \<and> (\<forall>a \<in> set (take ?f anchors). a = last_anchor)"
  have total: "?f + ?n = sum_list (map span_block_count spans)"
    using False sum_list_butlast_last [of spans span_block_count] by (simp add: forced_blocks_def)
  have forced: "(\<forall>a \<in> set (take ?f anchors). a = last_anchor) \<longleftrightarrow> (\<forall>i < ?f. anchors ! i = last_anchor)"
    if "?f \<le> length anchors"
    using that nth_mem [of _ "take ?f anchors"] by (force simp: in_set_conv_nth)
  have "?run = Ok plan \<longleftrightarrow> ?Q
      \<and> validate_anchor_progression (drop ?f anchors) last_anchor origin chain_id = Ok ()
      \<and> plan = \<lparr>l1_header_anchor_start_index = ?f, requires_parent_checkpoint = (?f > 0)\<rparr>"
    using False assms forced_sources_Ok_iff [of 0 anchors last_anchor usize_max 0 "butlast spans"]
    by (auto simp: validate_source_aware_anchor_progression_def Let_def ok_iff forced_blocks_def
        canonical_spans_def set_butlast_last [of spans])
  then show ?thesis
    using total forced by auto
qed

text \<open>
  Two forced blocks at the parent's anchor 1000 and a normal source of two blocks that
  moves to 1100 and 1120, with origin block 1200.
\<close>

theorem validate_source_aware_exact_witness:
  "validate_source_aware_anchor_progression 10 [1000, 1000, 1100, 1120]
     [\<lparr>span_is_forced_inclusion = True, span_block_count = 2\<rparr>,
      \<lparr>span_is_forced_inclusion = False, span_block_count = 2\<rparr>] 1000 1200 7
   = Ok \<lparr>l1_header_anchor_start_index = 2, requires_parent_checkpoint = True\<rparr>"
  by (subst validate_source_aware_exact)
    (simp_all add: canonical_spans_def forced_blocks_def validate_anchor_progression_Ok_iff
      less_Suc_eq nth_Cons' saturating_sub_def anchor_max_offset_for_chain_def
      TAIKO_MAINNET_CHAIN_ID_def ANCHOR_MAX_OFFSET_def)

section \<open>The stalled-anchor exception\<close>

text \<open>
  The exception applies only to batches that the regular progression check refuses.
\<close>

lemma bypass_not_regular:
  assumes "should_bypass_stalled_anchor_linkage anchors last_anchor origin chain_id"
  shows "validate_anchor_progression anchors last_anchor origin chain_id \<noteq> Ok ()"
proof (cases anchors)
  case Nil
  then show ?thesis by (simp add: ok_iff)
next
  case (Cons a as)
  have "\<not> saturating_sub origin (anchor_max_offset_for_chain chain_id) \<le> a"
    using assms Cons
    by (auto simp: should_bypass_stalled_anchor_linkage_def word_le_nat_alt word_less_nat_alt sat_simps)
  then show ?thesis using Cons by (simp add: ok_iff)
qed

end
