(* ===== verification/Derivation.thy ===== *)
theory Derivation
  imports Anchor
begin

text \<open>
  Derivation of the block manifests of a Shasta proposal
  (\<open>crates/protocol-shasta/src/shasta/derivation.rs\<close>): the payload of a derivation source is
  decoded from its blobs, replaced by the default payload where it is unusable, given
  inherited metadata where the protocol says so, validated, and defaulted again when the
  validation refuses it.

  The constants of the protocol, the default payload and the blob and payload codecs come
  from the \<open>taiko-client-rs\<close> packages; they are the fields of the record \<open>protocol\<close>, an
  argument of the definitions that use them.
\<close>

section \<open>Data\<close>

record 'tx block_manifest =
  bm_timestamp :: u64
  bm_coinbase :: address
  bm_anchor_block_number :: u64
  bm_gas_limit :: u64
  bm_transactions :: "'tx list"

record 'tx source_manifest =
  sm_blocks :: "'tx block_manifest list"

record blob_slice =
  blob_hashes :: "b256 list"
  blob_offset :: "24 word"
  blob_timestamp :: "48 word"

record derivation_source =
  is_forced_inclusion :: bool
  blob_slice_of :: blob_slice

record input_data_source =
  tx_data_from_calldata :: bytes
  tx_data_from_blob :: "bytes list"
  blob_commitments :: "bytes list"
  blob_proofs :: "bytes list"
  ds_is_forced_inclusion :: bool

record 'tx protocol =
  GAS_LIMIT_DENOMINATOR :: u64
  BLOCK_GAS_LIMIT_MAX_CHANGE :: u64
  MAX_BLOCK_GAS_LIMIT :: u64
  MIN_BLOCK_GAS_LIMIT :: u64
  ANCHOR_V3_V4_GAS_LIMIT :: u64
  UNZEN_DERIVATION_SOURCE_MAX_BLOCKS :: nat
  BYTES_PER_BLOB :: nat
  max_anchor_offset_for_chain :: "u64 \<Rightarrow> u64"
  timestamp_max_offset_for_chain :: "u64 \<Rightarrow> u64"
  default_manifest :: "'tx source_manifest"
  decode_blobs :: "bytes list \<Rightarrow> bytes list option"
  decompress_and_decode_with_max_blocks :: "bytes \<Rightarrow> nat \<Rightarrow> nat \<Rightarrow> 'tx source_manifest option"

record proposal_metadata =
  pm_proposal_timestamp :: u64
  pm_origin_block_number :: u64
  pm_proposer :: address
  pm_chain_id :: u64

record parent_block_context =
  pb_timestamp :: u64
  pb_gas_limit :: u64
  pb_block_number :: u64
  pb_anchor_block_number :: u64

record validation_context =
  vc_parent_timestamp :: u64
  vc_parent_gas_limit :: u64
  vc_parent_block_number :: u64
  vc_parent_anchor_block_number :: u64
  vc_proposal_timestamp :: u64
  vc_origin_block_number :: u64
  vc_is_forced_inclusion :: bool
  vc_fork_timestamp :: u64
  vc_chain_id :: u64

record inherited_metadata_input =
  im_parent_timestamp :: u64
  im_proposal_timestamp :: u64
  im_fork_timestamp :: u64
  im_proposer :: address
  im_anchor_block_number :: u64
  im_parent_block_number :: u64
  im_parent_gas_limit :: u64
  im_chain_id :: u64

datatype validation_error = EmptyManifest | DefaultManifest

datatype source_derivation_error =
    InlinePayloadUnsupported
  | MissingBlobData
  | InvalidBlobLength nat nat nat

section \<open>Metadata checks\<close>

definition block_count :: "'tx source_manifest \<Rightarrow> nat" where
  "block_count m = length (sm_blocks m)"

definition compute_timestamp_lower_bound ::
    "'tx protocol \<Rightarrow> u64 \<Rightarrow> u64 \<Rightarrow> u64 \<Rightarrow> u64 \<Rightarrow> u64" where
  "compute_timestamp_lower_bound pr parent_ts proposal_ts fork_ts chain_id =
     (let off = timestamp_max_offset_for_chain pr chain_id;
          lower = saturating_add parent_ts 1;
          lower = (if proposal_ts > off then max lower (proposal_ts - off) else lower)
      in max lower fork_ts)"

fun validate_timestamps_from ::
    "'tx protocol \<Rightarrow> u64 \<Rightarrow> u64 \<Rightarrow> u64 \<Rightarrow> u64 \<Rightarrow> 'tx block_manifest list \<Rightarrow> bool" where
  "validate_timestamps_from pr parent_ts proposal_ts fork_ts chain_id [] = True"
| "validate_timestamps_from pr parent_ts proposal_ts fork_ts chain_id (b # bs) =
     (let lower = compute_timestamp_lower_bound pr parent_ts proposal_ts fork_ts chain_id
      in if lower > proposal_ts then False
         else if bm_timestamp b < lower \<or> bm_timestamp b > proposal_ts then False
         else validate_timestamps_from pr (bm_timestamp b) proposal_ts fork_ts chain_id bs)"

definition validate_timestamps ::
    "'tx protocol \<Rightarrow> 'tx source_manifest \<Rightarrow> u64 \<Rightarrow> u64 \<Rightarrow> u64 \<Rightarrow> u64 \<Rightarrow> bool" where
  "validate_timestamps pr m parent_ts proposal_ts fork_ts chain_id =
     validate_timestamps_from pr parent_ts proposal_ts fork_ts chain_id (sm_blocks m)"

text \<open>The loop over the anchors returns the highest anchor, or \<open>None\<close> when a block is refused.\<close>

fun anchor_numbers_from ::
    "u64 \<Rightarrow> u64 \<Rightarrow> u64 \<Rightarrow> u64 \<Rightarrow> 'tx block_manifest list \<Rightarrow> u64 option" where
  "anchor_numbers_from origin off parent_anchor highest [] = Some highest"
| "anchor_numbers_from origin off parent_anchor highest (b # bs) =
     (let anchor = bm_anchor_block_number b
      in if anchor < parent_anchor \<or> anchor > origin then None
         else if origin > off \<and> anchor < origin - off then None
         else anchor_numbers_from origin off anchor
                (if anchor > highest then anchor else highest) bs)"

definition validate_anchor_numbers ::
    "'tx protocol \<Rightarrow> 'tx source_manifest \<Rightarrow> u64 \<Rightarrow> u64 \<Rightarrow> bool \<Rightarrow> u64 \<Rightarrow> bool" where
  "validate_anchor_numbers pr m origin parent_anchor forced chain_id =
     (case anchor_numbers_from origin (max_anchor_offset_for_chain pr chain_id)
             parent_anchor parent_anchor (sm_blocks m) of
        None \<Rightarrow> False
      | Some highest \<Rightarrow> forced \<or> highest > parent_anchor)"

definition effective_parent_gas_limit :: "'tx protocol \<Rightarrow> u64 \<Rightarrow> u64 \<Rightarrow> u64" where
  "effective_parent_gas_limit pr parent_block_number parent_gas_limit =
     (if parent_block_number = 0 then parent_gas_limit
      else saturating_sub parent_gas_limit (ANCHOR_V3_V4_GAS_LIMIT pr))"

text \<open>\<open>u64::try_from\<close> of a \<open>u128\<close>, and the division that panics on a zero divisor.\<close>

definition u64_try_from :: "u128 \<Rightarrow> u64 option" where
  "u64_try_from x = (if unat x < 2 ^ 64 then Some (ucast x) else None)"

definition gas_limit_bounds :: "'tx protocol \<Rightarrow> u64 \<Rightarrow> (validation_error, u64 \<times> u64) outcome" where
  "gas_limit_bounds pr parent_gas_limit =
     (let parent = ucast parent_gas_limit :: u128;
          denominator = ucast (GAS_LIMIT_DENOMINATOR pr);
          change = ucast (BLOCK_GAS_LIMIT_MAX_CHANGE pr)
      in if denominator = 0 then Panic ''attempt to divide by zero''
         else case u64_try_from (min
                     (saturating_mul parent (saturating_add denominator change) div denominator)
                     (ucast (MAX_BLOCK_GAS_LIMIT pr))) of
                None \<Rightarrow> Panic ''bounded gas limit''
              | Some upper \<Rightarrow>
                  (case u64_try_from (min (max
                          (saturating_mul parent (saturating_sub denominator change) div denominator)
                          (ucast (MIN_BLOCK_GAS_LIMIT pr))) (ucast upper)) of
                     None \<Rightarrow> Panic ''bounded gas limit''
                   | Some lower \<Rightarrow> Ok (lower, upper)))"

fun validate_gas_limit_from ::
    "'tx protocol \<Rightarrow> u64 \<Rightarrow> 'tx block_manifest list \<Rightarrow> (validation_error, bool) outcome" where
  "validate_gas_limit_from pr parent_gas [] = Ok True"
| "validate_gas_limit_from pr parent_gas (b # bs) =
     bind_outcome (gas_limit_bounds pr parent_gas) (\<lambda>(lower, upper).
       if bm_gas_limit b < lower \<or> bm_gas_limit b > upper then Ok False
       else validate_gas_limit_from pr (bm_gas_limit b) bs)"

definition validate_gas_limit ::
    "'tx protocol \<Rightarrow> 'tx source_manifest \<Rightarrow> u64 \<Rightarrow> u64 \<Rightarrow> (validation_error, bool) outcome" where
  "validate_gas_limit pr m parent_block_number parent_gas_limit =
     validate_gas_limit_from pr
       (effective_parent_gas_limit pr parent_block_number parent_gas_limit) (sm_blocks m)"

definition validate_source_manifest ::
    "'tx protocol \<Rightarrow> 'tx source_manifest \<Rightarrow> validation_context \<Rightarrow> (validation_error, unit) outcome" where
  "validate_source_manifest pr m ctx =
     (if block_count m = 0 then Err EmptyManifest
      else if \<not> validate_timestamps pr m (vc_parent_timestamp ctx) (vc_proposal_timestamp ctx)
                 (vc_fork_timestamp ctx) (vc_chain_id ctx) then Err DefaultManifest
      else if \<not> validate_anchor_numbers pr m (vc_origin_block_number ctx)
                 (vc_parent_anchor_block_number ctx) (vc_is_forced_inclusion ctx) (vc_chain_id ctx)
           then Err DefaultManifest
      else bind_outcome
             (validate_gas_limit pr m (vc_parent_block_number ctx) (vc_parent_gas_limit ctx))
             (\<lambda>ok. if ok then Ok () else Err DefaultManifest))"

definition manifest_is_default :: "'tx source_manifest \<Rightarrow> bool" where
  "manifest_is_default m =
     (case sm_blocks m of
        [b] \<Rightarrow> bm_timestamp b = 0 \<and> bm_coinbase b = 0 \<and> bm_anchor_block_number b = 0
               \<and> bm_gas_limit b = 0 \<and> bm_transactions b = []
      | _ \<Rightarrow> False)"

section \<open>Inherited metadata\<close>

fun inherit_blocks ::
    "'tx protocol \<Rightarrow> inherited_metadata_input \<Rightarrow> u64 \<Rightarrow> u64 \<Rightarrow> 'tx block_manifest list
      \<Rightarrow> 'tx block_manifest list" where
  "inherit_blocks pr i parent_gas parent_ts [] = []"
| "inherit_blocks pr i parent_gas parent_ts (b # bs) =
     (let lower = compute_timestamp_lower_bound pr parent_ts (im_proposal_timestamp i)
                    (im_fork_timestamp i) (im_chain_id i)
      in b\<lparr>bm_timestamp := lower, bm_coinbase := im_proposer i,
           bm_anchor_block_number := im_anchor_block_number i, bm_gas_limit := parent_gas\<rparr>
         # inherit_blocks pr i parent_gas lower bs)"

definition apply_inherited_metadata ::
    "'tx protocol \<Rightarrow> 'tx source_manifest \<Rightarrow> inherited_metadata_input \<Rightarrow> 'tx source_manifest" where
  "apply_inherited_metadata pr m i =
     m\<lparr>sm_blocks := inherit_blocks pr i
         (effective_parent_gas_limit pr (im_parent_block_number i) (im_parent_gas_limit i))
         (im_parent_timestamp i) (sm_blocks m)\<rparr>"

section \<open>From a source to its manifest\<close>

definition ensure_no_inline_payload ::
    "input_data_source option \<Rightarrow> (source_derivation_error, unit) outcome" where
  "ensure_no_inline_payload ds =
     (case ds of
        None \<Rightarrow> Ok ()
      | Some d \<Rightarrow>
          if tx_data_from_calldata d = [] \<and> tx_data_from_blob d = []
             \<and> blob_commitments d = [] \<and> blob_proofs d = [] then Ok ()
          else Err InlinePayloadUnsupported)"

definition check_blob_length ::
    "'tx protocol \<Rightarrow> bytes list \<Rightarrow> nat \<times> bytes \<Rightarrow> (source_derivation_error, bytes list) outcome" where
  "check_blob_length pr blobs = (\<lambda>(index, raw).
     if length raw = BYTES_PER_BLOB pr then Ok (blobs @ [raw])
     else Err (InvalidBlobLength index (length raw) (BYTES_PER_BLOB pr)))"

definition decode_blob_backed_manifest ::
    "'tx protocol \<Rightarrow> input_data_source \<Rightarrow> nat \<Rightarrow> nat
      \<Rightarrow> (source_derivation_error, 'tx source_manifest) outcome" where
  "decode_blob_backed_manifest pr ds offset max_blocks =
     (if tx_data_from_blob ds = [] then Err MissingBlobData
      else bind_outcome (try_fold (check_blob_length pr) [] (enumerate 0 (tx_data_from_blob ds)))
        (\<lambda>blobs. case decode_blobs pr blobs of
            None \<Rightarrow> Ok (default_manifest pr)
          | Some decoded \<Rightarrow>
              Ok (case decompress_and_decode_with_max_blocks pr (concat decoded) offset max_blocks of
                    None \<Rightarrow> default_manifest pr
                  | Some m \<Rightarrow> m)))"

definition MAX_MANIFEST_OFFSET :: "'tx protocol \<Rightarrow> nat" where
  "MAX_MANIFEST_OFFSET pr = BYTES_PER_BLOB pr - 64"

definition is_source_offset_valid :: "'tx protocol \<Rightarrow> derivation_source \<Rightarrow> bool" where
  "is_source_offset_valid pr source =
     (unat (blob_offset (blob_slice_of source)) \<le> MAX_MANIFEST_OFFSET pr)"

definition inherited_input ::
    "parent_block_context \<Rightarrow> proposal_metadata \<Rightarrow> u64 \<Rightarrow> inherited_metadata_input" where
  "inherited_input parent meta fork_ts =
     \<lparr>im_parent_timestamp = pb_timestamp parent,
      im_proposal_timestamp = pm_proposal_timestamp meta,
      im_fork_timestamp = fork_ts,
      im_proposer = pm_proposer meta,
      im_anchor_block_number = pb_anchor_block_number parent,
      im_parent_block_number = pb_block_number parent,
      im_parent_gas_limit = pb_gas_limit parent,
      im_chain_id = pm_chain_id meta\<rparr>"

definition source_context ::
    "derivation_source \<Rightarrow> parent_block_context \<Rightarrow> proposal_metadata \<Rightarrow> u64 \<Rightarrow> validation_context" where
  "source_context source parent meta fork_ts =
     \<lparr>vc_parent_timestamp = pb_timestamp parent,
      vc_parent_gas_limit = pb_gas_limit parent,
      vc_parent_block_number = pb_block_number parent,
      vc_parent_anchor_block_number = pb_anchor_block_number parent,
      vc_proposal_timestamp = pm_proposal_timestamp meta,
      vc_origin_block_number = pm_origin_block_number meta,
      vc_is_forced_inclusion = is_forced_inclusion source,
      vc_fork_timestamp = fork_ts,
      vc_chain_id = pm_chain_id meta\<rparr>"

definition source_payload ::
    "'tx protocol \<Rightarrow> derivation_source \<Rightarrow> input_data_source option \<Rightarrow> nat
      \<Rightarrow> (source_derivation_error, 'tx source_manifest) outcome" where
  "source_payload pr source ds max_blocks =
     (if blob_hashes (blob_slice_of source) = [] then
        bind_outcome (ensure_no_inline_payload ds) (\<lambda>_. Ok (default_manifest pr))
      else if \<not> is_source_offset_valid pr source then Ok (default_manifest pr)
      else bind_outcome (ok_or ds MissingBlobData) (\<lambda>d.
             decode_blob_backed_manifest pr d (unat (blob_offset (blob_slice_of source))) max_blocks))"

definition prepare_source_manifest_with_max_blocks ::
    "'tx protocol \<Rightarrow> derivation_source \<Rightarrow> input_data_source option \<Rightarrow> parent_block_context
      \<Rightarrow> proposal_metadata \<Rightarrow> u64 \<Rightarrow> nat \<Rightarrow> (source_derivation_error, 'tx source_manifest) outcome" where
  "prepare_source_manifest_with_max_blocks pr source ds parent meta fork_ts max_blocks =
     bind_outcome (source_payload pr source ds max_blocks) (\<lambda>m0.
       let m1 = (if is_forced_inclusion source \<and> length (sm_blocks m0) \<noteq> 1
                 then default_manifest pr else m0);
           m2 = (if is_forced_inclusion source \<or> manifest_is_default m1
                 then apply_inherited_metadata pr m1 (inherited_input parent meta fork_ts) else m1)
       in case validate_source_manifest pr m2 (source_context source parent meta fork_ts) of
            Ok _ \<Rightarrow> Ok m2
          | Err _ \<Rightarrow> Ok (apply_inherited_metadata pr (default_manifest pr)
                          (inherited_input parent meta fork_ts))
          | Panic p \<Rightarrow> Panic p)"

definition prepare_source_manifest ::
    "'tx protocol \<Rightarrow> derivation_source \<Rightarrow> input_data_source option \<Rightarrow> parent_block_context
      \<Rightarrow> proposal_metadata \<Rightarrow> u64 \<Rightarrow> (source_derivation_error, 'tx source_manifest) outcome" where
  "prepare_source_manifest pr source ds parent meta fork_ts =
     prepare_source_manifest_with_max_blocks pr source ds parent meta fork_ts
       (UNZEN_DERIVATION_SOURCE_MAX_BLOCKS pr)"

end
