(* ===== verification/Bytes.thy ===== *)
theory Bytes
  imports Shasta_Base
begin

text \<open>
  Words as big-endian and little-endian byte strings (\<open>be_bytes\<close>, \<open>from_be_bytes\<close>,
  \<open>le_bytes\<close> of the standard library, \<open>as_slice\<close> of a \<open>B256\<close>), and encodings by blocks of a
  fixed size, of which the 32-byte words that are hashed and the 4-byte words of an image
  id are instances.
\<close>

unbundle bit_operations_syntax

definition be_bytes :: "nat \<Rightarrow> 'a::len word \<Rightarrow> bytes" where
  "be_bytes n w = map (\<lambda>i. ucast (drop_bit (8 * (n - 1 - i)) w)) [0..<n]"

definition le_bytes :: "nat \<Rightarrow> 'a::len word \<Rightarrow> bytes" where
  "le_bytes n w = rev (be_bytes n w)"

definition from_be_bytes :: "bytes \<Rightarrow> 'a::len word" where
  "from_be_bytes bs = foldl (\<lambda>acc b. push_bit 8 acc OR ucast b) 0 bs"

lemma length_be_bytes [simp]: "length (be_bytes n w) = n"
  by (simp add: be_bytes_def)

lemma length_le_bytes [simp]: "length (le_bytes n w) = n"
  by (simp add: le_bytes_def)

lemma bit_be_bytes:
  assumes "i < n"
  shows "bit (be_bytes n w ! i) k \<longleftrightarrow> k < 8 \<and> bit w (8 * (n - 1 - i) + k)"
  using assms by (auto simp: be_bytes_def bit_simps)

lemma bit_from_be_bytes:
  "bit (from_be_bytes bs :: 'a::len word) k \<longleftrightarrow>
     k < LENGTH('a) \<and> k < 8 * length bs \<and> bit (bs ! (length bs - 1 - k div 8)) (k mod 8)"
proof (induction bs arbitrary: k rule: rev_induct)
  case Nil
  then show ?case by (simp add: from_be_bytes_def)
next
  case (snoc b bs)
  have step: "from_be_bytes (bs @ [b]) = (push_bit 8 (from_be_bytes bs) OR ucast b :: 'a word)"
    by (simp add: from_be_bytes_def)
  show ?case
  proof (cases "k < 8")
    case True
    then show ?thesis unfolding step by (auto simp: bit_simps snoc.IH nth_append)
  next
    case False
    then obtain j where k: "k = j + 8" using le_Suc_ex [of 8 k] by (auto simp: add.commute)
    have b: "\<not> bit b k" using False bit_imp_le_length [of b k] by auto
    have idx: "(bs @ [b]) ! (length (bs @ [b]) - 1 - k div 8) = bs ! (length bs - 1 - j div 8)"
      if "j < 8 * length bs"
    proof -
      have "length bs - Suc (j div 8) < length bs" "k div 8 = Suc (j div 8)"
        using that k by linarith+
      then show ?thesis by (simp add: nth_append)
    qed
    have "bit (from_be_bytes (bs @ [b]) :: 'a word) k \<longleftrightarrow> k < LENGTH('a) \<and> bit (from_be_bytes bs :: 'a word) j"
      unfolding step using b by (auto simp: bit_simps k)
    also have "\<dots> \<longleftrightarrow> k < LENGTH('a) \<and> j < 8 * length bs \<and> bit (bs ! (length bs - 1 - j div 8)) (j mod 8)"
      unfolding snoc.IH by (auto simp: k)
    also have "\<dots> \<longleftrightarrow> k < LENGTH('a) \<and> k < 8 * length (bs @ [b])
        \<and> bit ((bs @ [b]) ! (length (bs @ [b]) - 1 - k div 8)) (k mod 8)"
      using idx by (auto simp: k)
    finally show ?thesis .
  qed
qed

lemma from_to_be_bytes:
  assumes "\<And>k. bit w k \<Longrightarrow> k < 8 * n"
  shows "from_be_bytes (be_bytes n w) = (w :: 'a::len word)"
proof (rule bit_word_eqI)
  fix k
  assume "k < LENGTH('a)"
  moreover have "n - 1 - (n - 1 - k div 8) = k div 8" if "k < 8 * n"
    using that by linarith
  moreover have "8 * (k div 8) + k mod 8 = k" by simp
  ultimately show "bit (from_be_bytes (be_bytes n w) :: 'a word) k = bit w k"
    using assms [of k] by (auto simp: bit_from_be_bytes bit_be_bytes)
qed

lemma to_from_be_bytes:
  assumes "8 * length bs \<le> LENGTH('a)"
  shows "be_bytes (length bs) (from_be_bytes bs :: 'a::len word) = bs"
proof (rule nth_equalityI)
  fix i
  assume i: "i < length (be_bytes (length bs) (from_be_bytes bs :: 'a word))"
  show "be_bytes (length bs) (from_be_bytes bs :: 'a word) ! i = bs ! i"
  proof (rule bit_word_eqI)
    fix k :: nat
    assume k: "k < LENGTH(8)"
    let ?j = "8 * (length bs - 1 - i) + k"
    have "?j div 8 = length bs - 1 - i" "?j mod 8 = k" "?j < 8 * length bs"
      using k i by (auto simp: div_mult2_eq)
    moreover from this have "length bs - 1 - ?j div 8 = i" "?j < LENGTH('a)"
      using i assms by auto
    ultimately show "bit (be_bytes (length bs) (from_be_bytes bs :: 'a word) ! i) k = bit (bs ! i) k"
      using i k by (simp add: bit_be_bytes bit_from_be_bytes)
  qed
qed simp

lemma from_to_be_bytes_all:
  "LENGTH('a) \<le> 8 * n \<Longrightarrow> from_be_bytes (be_bytes n w) = (w :: 'a::len word)"
  using bit_imp_le_length by (intro from_to_be_bytes) fastforce

lemma be_bytes_inject:
  assumes "LENGTH('a) \<le> 8 * n"
  shows "be_bytes n v = be_bytes n w \<longleftrightarrow> v = (w :: 'a::len word)"
  using from_to_be_bytes_all [OF assms] by metis

section \<open>Encodings by blocks of a fixed size\<close>

locale block_codec =
  fixes enc :: "'a \<Rightarrow> bytes" and size' :: nat
  assumes enc_length: "length (enc x) = size'"
    and enc_inject: "enc x = enc y \<longleftrightarrow> x = y"
    and size_pos: "0 < size'"
begin

lemma length_concat: "length (concat (map enc xs)) = size' * length xs"
  by (induction xs) (simp_all add: enc_length)

lemma concat_inject: "concat (map enc xs) = concat (map enc ys) \<longleftrightarrow> xs = ys"
proof (induction xs arbitrary: ys)
  case Nil
  have "length (concat (map enc ys)) = 0 \<longleftrightarrow> ys = []"
    unfolding length_concat using size_pos by simp
  then show ?case by auto
next
  case (Cons x xs)
  show ?case
  proof (cases ys)
    case Nil
    then show ?thesis using size_pos enc_length [of x] by auto
  next
    case (Cons y ys')
    then show ?thesis
      using Cons.IH [of ys'] enc_length [of x] enc_length [of y]
      by (simp add: append_eq_append_conv enc_inject)
  qed
qed

end

text \<open>\<open>B256::as_slice\<close>, and the two byte orders of a \<open>u32\<close>.\<close>

definition as_slice :: "b256 \<Rightarrow> bytes" where
  "as_slice w = be_bytes 32 w"

interpretation word_codec: block_codec as_slice 32
  by unfold_locales (simp_all add: as_slice_def be_bytes_inject)

interpretation u32_be_codec: block_codec "be_bytes 4 :: u32 \<Rightarrow> bytes" 4
  by unfold_locales (simp_all add: be_bytes_inject)

interpretation u32_le_codec: block_codec "le_bytes 4 :: u32 \<Rightarrow> bytes" 4
  by unfold_locales (simp_all add: le_bytes_def be_bytes_inject)

end
