(* ===== verification/Proposal.thy ===== *)
theory Proposal
  imports Derivation Bytes
begin

text \<open>
  The Shasta proposal and the data that a sub-proof carries
  (\<open>crates/protocol-shasta/src/shasta/mod.rs\<close>): the contract structures, the proposal id in
  the extra data of a block header, and the encoding of a proposal for the guest programs.
  The field names of the Solidity structures get a prefix that names the structure.
\<close>

section \<open>Structures\<close>

record checkpoint =
  cp_blockNumber :: "48 word"
  cp_blockHash :: b256
  cp_stateRoot :: b256

record proposal =
  pr_id :: "48 word"
  pr_timestamp :: "48 word"
  pr_endOfSubmissionWindowTimestamp :: "48 word"
  pr_proposer :: address
  pr_parentProposalHash :: b256
  pr_originBlockNumber :: "48 word"
  pr_originBlockHash :: b256
  pr_basefeeSharingPctg :: u8
  pr_sources :: "derivation_source list"

record transition =
  tr_proposer :: address
  tr_timestamp :: "48 word"
  tr_blockHash :: b256

record commitment =
  cm_firstProposalId :: "48 word"
  cm_firstProposalParentBlockHash :: b256
  cm_lastProposalHash :: b256
  cm_actualProver :: address
  cm_endBlockNumber :: "48 word"
  cm_endStateRoot :: b256
  cm_transitions :: "transition list"

record core_state =
  cs_nextProposalId :: "48 word"
  cs_lastProposalBlockId :: "48 word"
  cs_lastFinalizedProposalId :: "48 word"
  cs_lastFinalizedTimestamp :: "48 word"
  cs_lastCheckpointTimestamp :: "48 word"
  cs_lastFinalizedBlockHash :: b256

record proposed_event =
  ev_id :: "48 word"
  ev_proposer :: address
  ev_parentProposalHash :: b256
  ev_endOfSubmissionWindowTimestamp :: "48 word"
  ev_basefeeSharingPctg :: u8
  ev_sources :: "derivation_source list"

record shasta_transition_input =
  st_proposer :: address
  st_timestamp :: u64

record transition_input_data =
  td_proposal_id :: u64
  td_proposal_hash :: b256
  td_parent_proposal_hash :: b256
  td_parent_block_hash :: b256
  td_actual_prover :: address
  td_transition :: shasta_transition_input
  td_checkpoint :: checkpoint

record proof_carry_data =
  pc_chain_id :: u64
  pc_verifier :: address
  pc_transition_input :: transition_input_data

record shasta_event_data =
  se_proposal :: proposal

section \<open>Extra data\<close>

definition SHASTA_EXTRA_DATA_LEN :: nat where
  "SHASTA_EXTRA_DATA_LEN = 7"

definition decode_proposal_id_from_extra_data :: "bytes \<Rightarrow> u64 option" where
  "decode_proposal_id_from_extra_data extra_data =
     (if length extra_data < SHASTA_EXTRA_DATA_LEN then None
      else Some (from_be_bytes ([0, 0] @ take (SHASTA_EXTRA_DATA_LEN - 1) (drop 1 extra_data))))"

section \<open>The event\<close>

definition from_proposal_event :: "proposed_event \<Rightarrow> shasta_event_data" where
  "from_proposal_event ev =
     \<lparr>se_proposal =
        \<lparr>pr_id = ev_id ev,
         pr_timestamp = 0,
         pr_endOfSubmissionWindowTimestamp = ev_endOfSubmissionWindowTimestamp ev,
         pr_proposer = ev_proposer ev,
         pr_parentProposalHash = ev_parentProposalHash ev,
         pr_originBlockNumber = 0,
         pr_originBlockHash = 0,
         pr_basefeeSharingPctg = ev_basefeeSharingPctg ev,
         pr_sources = ev_sources ev\<rparr>\<rparr>"

section \<open>The encoding for the guest programs\<close>

record blob_slice_bin =
  bb_blobHashes :: "b256 list"
  bb_offset :: u32
  bb_timestamp :: u64

record derivation_source_bin =
  db_isForcedInclusion :: bool
  db_blobSlice :: blob_slice_bin

record proposal_bin =
  pb_id :: u64
  pb_timestamp' :: u64
  pb_endOfSubmissionWindowTimestamp :: u64
  pb_proposer :: address
  pb_parentProposalHash :: b256
  pb_originBlockNumber :: u64
  pb_originBlockHash :: b256
  pb_basefeeSharingPctg :: u8
  pb_sources :: "derivation_source_bin list"

definition u48_from_u64 :: "u64 \<Rightarrow> 48 word" where
  "u48_from_u64 n = ucast (n AND 0xffffffffffff)"

definition u24_from_u32 :: "u32 \<Rightarrow> 24 word" where
  "u24_from_u32 n = ucast ((ucast n :: u64) AND 0x00ffffff)"

definition source_to_bin :: "derivation_source \<Rightarrow> derivation_source_bin" where
  "source_to_bin src =
     \<lparr>db_isForcedInclusion = is_forced_inclusion src,
      db_blobSlice = \<lparr>bb_blobHashes = blob_hashes (blob_slice_of src),
                      bb_offset = ucast (blob_offset (blob_slice_of src)),
                      bb_timestamp = ucast (blob_timestamp (blob_slice_of src))\<rparr>\<rparr>"

definition to_bin :: "proposal \<Rightarrow> proposal_bin" where
  "to_bin p =
     \<lparr>pb_id = ucast (pr_id p),
      pb_timestamp' = ucast (pr_timestamp p),
      pb_endOfSubmissionWindowTimestamp = ucast (pr_endOfSubmissionWindowTimestamp p),
      pb_proposer = pr_proposer p,
      pb_parentProposalHash = pr_parentProposalHash p,
      pb_originBlockNumber = ucast (pr_originBlockNumber p),
      pb_originBlockHash = pr_originBlockHash p,
      pb_basefeeSharingPctg = pr_basefeeSharingPctg p,
      pb_sources = map source_to_bin (pr_sources p)\<rparr>"

definition source_from_bin :: "derivation_source_bin \<Rightarrow> derivation_source" where
  "source_from_bin src =
     \<lparr>is_forced_inclusion = db_isForcedInclusion src,
      blob_slice_of = \<lparr>blob_hashes = bb_blobHashes (db_blobSlice src),
                       blob_offset = u24_from_u32 (bb_offset (db_blobSlice src)),
                       blob_timestamp = u48_from_u64 (bb_timestamp (db_blobSlice src))\<rparr>\<rparr>"

definition from_bin :: "proposal_bin \<Rightarrow> proposal" where
  "from_bin b =
     \<lparr>pr_id = u48_from_u64 (pb_id b),
      pr_timestamp = u48_from_u64 (pb_timestamp' b),
      pr_endOfSubmissionWindowTimestamp = u48_from_u64 (pb_endOfSubmissionWindowTimestamp b),
      pr_proposer = pb_proposer b,
      pr_parentProposalHash = pb_parentProposalHash b,
      pr_originBlockNumber = u48_from_u64 (pb_originBlockNumber b),
      pr_originBlockHash = pb_originBlockHash b,
      pr_basefeeSharingPctg = pb_basefeeSharingPctg b,
      pr_sources = map source_from_bin (pb_sources b)\<rparr>"

section \<open>Round trips\<close>

lemma mask48: "0xffffffffffff = (mask 48 :: u64)"
  by (simp add: mask_eq_exp_minus_1)

lemma mask24: "0x00ffffff = (mask 24 :: u64)"
  by (simp add: mask_eq_exp_minus_1)

lemma u48_from_u64_ucast [simp]: "u48_from_u64 (ucast n) = n"
  unfolding u48_from_u64_def mask48 by (rule bit_word_eqI) (auto simp: bit_simps)

lemma u24_from_u32_ucast [simp]: "u24_from_u32 (ucast n) = n"
  unfolding u24_from_u32_def mask24 by (rule bit_word_eqI) (auto simp: bit_simps)

lemma unat_u48_from_u64: "unat (u48_from_u64 n) = unat n mod 2 ^ 48"
proof -
  have "unat (u48_from_u64 n) = take_bit 48 (unat n)"
    unfolding u48_from_u64_def mask48 take_bit_eq_mask [symmetric]
    by (simp add: unsigned_ucast_eq unsigned_take_bit_eq)
  then show ?thesis by (simp add: take_bit_eq_mod)
qed

lemma unat_u24_from_u32: "unat (u24_from_u32 n) = unat n mod 2 ^ 24"
proof -
  have "unat (u24_from_u32 n) = take_bit 24 (unat n)"
    unfolding u24_from_u32_def mask24 take_bit_eq_mask [symmetric]
    by (simp add: unsigned_ucast_eq unsigned_take_bit_eq)
  then show ?thesis by (simp add: take_bit_eq_mod)
qed

lemma unat_ucast_48: "unat (ucast (n :: 48 word) :: u64) = unat n"
  using unat_lt2p [of n] by (simp add: unsigned_ucast_eq take_bit_nat_eq_self)

lemma unat_ucast_24: "unat (ucast (n :: 24 word) :: u32) = unat n"
  using unat_lt2p [of n] by (simp add: unsigned_ucast_eq take_bit_nat_eq_self)

lemma ucast_u48_from_u64_iff: "ucast (u48_from_u64 n) = n \<longleftrightarrow> unat n < 2 ^ 48"
  by (simp add: word_unat_eq_iff unat_ucast_48 unat_u48_from_u64 mod_eq_self_iff_div_eq_0 div_eq_0_iff)

lemma ucast_u24_from_u32_iff: "ucast (u24_from_u32 n) = n \<longleftrightarrow> unat n < 2 ^ 24"
  by (simp add: word_unat_eq_iff unat_ucast_24 unat_u24_from_u32 mod_eq_self_iff_div_eq_0 div_eq_0_iff)

lemma source_from_to_bin [simp]: "source_from_bin (source_to_bin s) = s"
  by (simp add: source_from_bin_def source_to_bin_def)

text \<open>The encoded values that a decoded proposal can hold.\<close>

definition source_bin_fits :: "derivation_source_bin \<Rightarrow> bool" where
  "source_bin_fits s = (unat (bb_offset (db_blobSlice s)) < 2 ^ 24
                        \<and> unat (bb_timestamp (db_blobSlice s)) < 2 ^ 48)"

definition bin_fits :: "proposal_bin \<Rightarrow> bool" where
  "bin_fits b =
     (unat (pb_id b) < 2 ^ 48 \<and> unat (pb_timestamp' b) < 2 ^ 48
      \<and> unat (pb_endOfSubmissionWindowTimestamp b) < 2 ^ 48 \<and> unat (pb_originBlockNumber b) < 2 ^ 48
      \<and> (\<forall>s \<in> set (pb_sources b). source_bin_fits s))"

lemma source_to_from_bin_iff: "source_to_bin (source_from_bin s) = s \<longleftrightarrow> source_bin_fits s"
  by (cases s) (simp add: source_from_bin_def source_to_bin_def source_bin_fits_def
      blob_slice_bin.splits ucast_u48_from_u64_iff ucast_u24_from_u32_iff)

lemma sources_to_from_bin_iff:
  "map (\<lambda>s. source_to_bin (source_from_bin s)) ss = ss \<longleftrightarrow> (\<forall>s \<in> set ss. source_bin_fits s)"
  by (induction ss) (simp_all add: source_to_from_bin_iff)

text \<open>
  C36: A proposal survives the encoding for the guest programs, and an encoded proposal
  survives decoding exactly when its 48-bit and 24-bit fields are in range; the decoder
  reduces the others to their low bits.
\<close>

theorem proposal_bin_roundtrip:
  "from_bin (to_bin p) = p \<and> (to_bin (from_bin b) = b \<longleftrightarrow> bin_fits b)"
proof
  show "from_bin (to_bin p) = p"
    by (simp add: from_bin_def to_bin_def comp_def map_idI)
  show "to_bin (from_bin b) = b \<longleftrightarrow> bin_fits b"
    by (cases b) (simp add: from_bin_def to_bin_def bin_fits_def ucast_u48_from_u64_iff comp_def
        sources_to_from_bin_iff)
qed

lemma unat_less_if_bits:
  assumes "\<And>k. bit (w :: 'a::len word) k \<Longrightarrow> k < m"
  shows "unat w < 2 ^ m"
proof -
  have "w = take_bit m w" by (rule bit_word_eqI) (auto simp: bit_simps dest: assms)
  then have "unat w = take_bit m (unat w)" by (metis unsigned_take_bit_eq)
  then show ?thesis by (metis take_bit_nat_less_exp)
qed

lemma bit_unat_less:
  assumes "unat (w :: 'a::len word) < 2 ^ m" and "bit w k"
  shows "k < m"
proof -
  have "take_bit m (unat w) = unat w" using assms(1) by (simp add: take_bit_nat_eq_self)
  moreover have "bit (unat w) k" using assms(2) by (simp add: bit_unsigned_iff bit_imp_le_length)
  ultimately show ?thesis by (metis bit_take_bit_iff)
qed

lemma be_bytes_u48:
  assumes "unat (n :: u64) < 2 ^ 48"
  shows "[0, 0] @ drop 2 (be_bytes 8 n) = be_bytes 8 n"
proof (rule nth_equalityI)
  fix i
  assume i: "i < length ([0, 0] @ drop 2 (be_bytes 8 n))"
  show "([0, 0] @ drop 2 (be_bytes 8 n)) ! i = be_bytes 8 n ! i"
  proof (cases "i < 2")
    case True
    then have "\<not> bit n (8 * (7 - i) + k)" for k
      using bit_unat_less [OF assms, of "8 * (7 - i) + k"] by linarith
    then have "be_bytes 8 n ! i = 0"
      using i by (intro bit_word_eqI) (simp add: bit_be_bytes)
    then show ?thesis using True by (auto simp: less_2_cases_iff)
  next
    case False
    then obtain j where "i = Suc (Suc j)" by (metis Suc_less_eq less_2_cases_iff not0_implies_Suc One_nat_def)
    then show ?thesis using i by simp
  qed
qed simp

lemma decoded_id_bound: "unat (from_be_bytes ([0, 0] @ bs) :: u64) < 2 ^ 48" if "length bs = 6"
proof (rule unat_less_if_bits)
  fix k
  assume "bit (from_be_bytes ([0, 0] @ bs) :: u64) k"
  then have "k < 64" and b: "bit (([0, 0] @ bs) ! (7 - k div 8)) (k mod 8)"
    using that by (simp_all add: bit_from_be_bytes del: append.simps)
  show "k < 48"
  proof (rule ccontr)
    assume "\<not> k < 48"
    then have "7 - k div 8 < 2" using \<open>k < 64\<close> by linarith
    then show False using b by (auto simp: less_2_cases_iff)
  qed
qed

text \<open>
  The proposal id is read back from the extra data of a header exactly as it was
  written after the first byte, for every id below \<open>2^48\<close>, whatever follows; shorter extra
  data holds no id, and a decoded id is always below \<open>2^48\<close>.
\<close>

lemma extra_data_roundtrip:
  assumes "unat pid < 2 ^ 48"
  shows "decode_proposal_id_from_extra_data (pctg # drop 2 (be_bytes 8 pid) @ rest) = Some pid
       \<and> (decode_proposal_id_from_extra_data ed = None \<longleftrightarrow> length ed < 7)
       \<and> (decode_proposal_id_from_extra_data ed = Some n \<longrightarrow> unat n < 2 ^ 48)"
proof (intro conjI impI)
  show "decode_proposal_id_from_extra_data (pctg # drop 2 (be_bytes 8 pid) @ rest) = Some pid"
    using be_bytes_u48 [OF assms]
    by (simp add: decode_proposal_id_from_extra_data_def SHASTA_EXTRA_DATA_LEN_def
        from_to_be_bytes_all)
  show "unat n < 2 ^ 48" if "decode_proposal_id_from_extra_data ed = Some n"
    using that decoded_id_bound [of "take 6 (drop 1 ed)"]
    by (auto simp: decode_proposal_id_from_extra_data_def SHASTA_EXTRA_DATA_LEN_def
        simp del: append.simps split: if_splits)
qed (simp add: decode_proposal_id_from_extra_data_def SHASTA_EXTRA_DATA_LEN_def)

text \<open>The id 2670, as in the tests of the repository: the bytes \<open>0x0a\<close>, \<open>0x6e\<close>.\<close>

end
