(* ===== verification/Libhash.thy ===== *)
theory Libhash
  imports Proposal
begin

text \<open>
  The Shasta hashing rules (\<open>crates/protocol-shasta/src/libhash\<close>): values are laid out as
  32-byte words and hashed with Keccak. The hash function and the ABI encoder of a proposal
  come from the \<open>alloy\<close> packages and are arguments, \<open>keccak256\<close> and \<open>abi_encode\<close>.

  Keccak maps arbitrarily long inputs to 256 bits, so it is not injective; what the binding
  theorems assume is that it has no collision among the finitely many messages that the
  two hashed values give rise to.
\<close>

section \<open>Values\<close>

definition hash_values_impl :: "(bytes \<Rightarrow> b256) \<Rightarrow> b256 list \<Rightarrow> b256" where
  "hash_values_impl keccak256 values = keccak256 (concat (map as_slice values))"

definition hash_two_values :: "(bytes \<Rightarrow> b256) \<Rightarrow> b256 \<Rightarrow> b256 \<Rightarrow> b256" where
  "hash_two_values keccak256 v0 v1 = hash_values_impl keccak256 [v0, v1]"

definition hash_three_values :: "(bytes \<Rightarrow> b256) \<Rightarrow> b256 \<Rightarrow> b256 \<Rightarrow> b256 \<Rightarrow> b256" where
  "hash_three_values keccak256 v0 v1 v2 = hash_values_impl keccak256 [v0, v1, v2]"

definition hash_four_values :: "(bytes \<Rightarrow> b256) \<Rightarrow> b256 \<Rightarrow> b256 \<Rightarrow> b256 \<Rightarrow> b256 \<Rightarrow> b256" where
  "hash_four_values keccak256 v0 v1 v2 v3 = hash_values_impl keccak256 [v0, v1, v2, v3]"

definition hash_five_values :: "(bytes \<Rightarrow> b256) \<Rightarrow> b256 \<Rightarrow> b256 \<Rightarrow> b256 \<Rightarrow> b256 \<Rightarrow> b256 \<Rightarrow> b256" where
  "hash_five_values keccak256 v0 v1 v2 v3 v4 = hash_values_impl keccak256 [v0, v1, v2, v3, v4]"

definition hash_six_values ::
    "(bytes \<Rightarrow> b256) \<Rightarrow> b256 \<Rightarrow> b256 \<Rightarrow> b256 \<Rightarrow> b256 \<Rightarrow> b256 \<Rightarrow> b256 \<Rightarrow> b256" where
  "hash_six_values keccak256 v0 v1 v2 v3 v4 v5 = hash_values_impl keccak256 [v0, v1, v2, v3, v4, v5]"

definition u64_to_b256 :: "u64 \<Rightarrow> b256" where
  "u64_to_b256 val = ucast val"

definition u48_to_b256 :: "u64 \<Rightarrow> ('e, b256) outcome" where
  "u48_to_b256 val =
     (if val \<le> 0xffffffffffff then Ok (u64_to_b256 val) else Panic ''value does not fit in uint48'')"

definition address_to_b256 :: "address \<Rightarrow> b256" where
  "address_to_b256 a = ucast a"

definition VERIFY_PROOF_B256 :: b256 where
  "VERIFY_PROOF_B256 = 0x5645524946595f50524f4f460000000000000000000000000000000000000000"

section \<open>Protocol structures\<close>

definition hash_checkpoint :: "(bytes \<Rightarrow> b256) \<Rightarrow> checkpoint \<Rightarrow> b256" where
  "hash_checkpoint keccak256 cp =
     hash_three_values keccak256 (ucast (cp_blockNumber cp)) (cp_blockHash cp) (cp_stateRoot cp)"

definition hash_shasta_transition_input ::
    "(bytes \<Rightarrow> b256) \<Rightarrow> transition_input_data \<Rightarrow> ('e, b256) outcome" where
  "hash_shasta_transition_input keccak256 td =
     bind_outcome (u48_to_b256 (st_timestamp (td_transition td))) (\<lambda>timestamp.
     bind_outcome (u48_to_b256 (ucast (cp_blockNumber (td_checkpoint td)))) (\<lambda>block_number.
     Ok (hash_values_impl keccak256
       [u64_to_b256 (td_proposal_id td),
        td_proposal_hash td,
        td_parent_proposal_hash td,
        td_parent_block_hash td,
        address_to_b256 (td_actual_prover td),
        address_to_b256 (st_proposer (td_transition td)),
        timestamp,
        hash_checkpoint keccak256 (td_checkpoint td),
        block_number,
        cp_blockHash (td_checkpoint td),
        cp_stateRoot (td_checkpoint td)])))"

definition hash_shasta_subproof_input ::
    "(bytes \<Rightarrow> b256) \<Rightarrow> proof_carry_data \<Rightarrow> ('e, b256) outcome" where
  "hash_shasta_subproof_input keccak256 carry =
     bind_outcome (hash_shasta_transition_input keccak256 (pc_transition_input carry)) (\<lambda>transition_hash.
     Ok (hash_four_values keccak256 VERIFY_PROOF_B256 (ucast (pc_chain_id carry))
           (address_to_b256 (pc_verifier carry)) transition_hash))"

definition transition_words :: "transition \<Rightarrow> b256 list" where
  "transition_words t = [address_to_b256 (tr_proposer t), ucast (tr_timestamp t), tr_blockHash t]"

definition commitment_buffer :: "commitment \<Rightarrow> b256 list" where
  "commitment_buffer c =
     [0x20,
      ucast (cm_firstProposalId c),
      cm_firstProposalParentBlockHash c,
      cm_lastProposalHash c,
      address_to_b256 (cm_actualProver c),
      ucast (cm_endBlockNumber c),
      cm_endStateRoot c,
      0xe0,
      ucast (of_nat (length (cm_transitions c)) :: u64)]
     @ concat (map transition_words (cm_transitions c))"

definition hash_commitment :: "(bytes \<Rightarrow> b256) \<Rightarrow> commitment \<Rightarrow> b256" where
  "hash_commitment keccak256 c = hash_values_impl keccak256 (commitment_buffer c)"

definition hash_proposal :: "(bytes \<Rightarrow> b256) \<Rightarrow> (proposal \<Rightarrow> bytes) \<Rightarrow> proposal \<Rightarrow> b256" where
  "hash_proposal keccak256 abi_encode p = keccak256 (abi_encode p)"

definition hash_core_state :: "(bytes \<Rightarrow> b256) \<Rightarrow> core_state \<Rightarrow> b256" where
  "hash_core_state keccak256 cs =
     hash_five_values keccak256 (ucast (cs_nextProposalId cs)) (ucast (cs_lastProposalBlockId cs))
       (ucast (cs_lastFinalizedProposalId cs)) (ucast (cs_lastFinalizedTimestamp cs))
       (ucast (cs_lastCheckpointTimestamp cs))"

definition hash_public_input :: "(bytes \<Rightarrow> b256) \<Rightarrow> b256 \<Rightarrow> u64 \<Rightarrow> address \<Rightarrow> address \<Rightarrow> b256" where
  "hash_public_input keccak256 prove_input_hash chain_id verifier_address sgx_instance =
     hash_five_values keccak256 VERIFY_PROOF_B256 (ucast chain_id) (address_to_b256 verifier_address)
       prove_input_hash (address_to_b256 sgx_instance)"

section \<open>Words determine the values\<close>

lemma ucast_inject:
  assumes "LENGTH('a) \<le> LENGTH('b)"
  shows "(ucast (x :: 'a::len word) :: 'b::len word) = ucast y \<longleftrightarrow> x = y"
proof
  assume eq: "(ucast x :: 'b word) = ucast y"
  show "x = y"
  proof (rule bit_word_eqI)
    fix k
    assume "k < LENGTH('a)"
    moreover have "bit (ucast x :: 'b word) k = bit (ucast y :: 'b word) k" by (simp only: eq)
    ultimately show "bit x k = bit y k" using assms by (simp add: bit_simps)
  qed
qed simp

lemma word_encodings_inject [simp]:
  "u64_to_b256 a = u64_to_b256 b \<longleftrightarrow> a = b"
  "address_to_b256 c = address_to_b256 d \<longleftrightarrow> c = d"
  "(ucast (m :: 48 word) :: b256) = ucast n \<longleftrightarrow> m = n"
  "(ucast (m :: 48 word) :: u64) = ucast n \<longleftrightarrow> m = n"
  "(ucast a :: b256) = ucast b \<longleftrightarrow> a = b"
  by (simp_all add: u64_to_b256_def address_to_b256_def ucast_inject)

definition words_message :: "b256 list \<Rightarrow> bytes" where
  "words_message ws = concat (map as_slice ws)"

lemma hash_values_message: "hash_values_impl k ws = k (words_message ws)"
  by (simp add: hash_values_impl_def words_message_def)

lemma words_message_inject [simp]: "words_message v = words_message w \<longleftrightarrow> v = w"
  unfolding words_message_def by (rule word_codec.concat_inject)

lemma message_hash_inject:
  assumes "inj_on k M" "words_message v \<in> M" "words_message w \<in> M"
    and "k (words_message v) = k (words_message w)"
  shows "v = w"
  using inj_onD [OF assms(1,4,2,3)] by simp

lemma transition_words_inject [simp]: "transition_words t = transition_words u \<longleftrightarrow> t = u"
  by (cases t; cases u) (simp add: transition_words_def)

lemma concat_transition_words_inject:
  "concat (map transition_words ts) = concat (map transition_words us) \<longleftrightarrow> ts = us"
proof (induction ts arbitrary: us)
  case Nil
  then show ?case by (cases us) (simp_all add: transition_words_def)
next
  case (Cons t ts)
  show ?case
  proof (cases us)
    case (Cons u us')
    have "length (transition_words t) = length (transition_words u)"
      by (simp add: transition_words_def)
    then show ?thesis using Cons Cons.IH by (simp add: append_eq_append_conv)
  qed (simp add: transition_words_def)
qed

lemma commitment_buffer_inject [simp]: "commitment_buffer c = commitment_buffer d \<longleftrightarrow> c = d"
  by (cases c; cases d) (auto simp: commitment_buffer_def concat_transition_words_inject)

section \<open>The sub-proof input binds what it carries\<close>

definition checkpoint_words :: "checkpoint \<Rightarrow> b256 list" where
  "checkpoint_words cp = [ucast (cp_blockNumber cp), cp_blockHash cp, cp_stateRoot cp]"

definition transition_input_words :: "(bytes \<Rightarrow> b256) \<Rightarrow> transition_input_data \<Rightarrow> b256 list" where
  "transition_input_words k td =
     [u64_to_b256 (td_proposal_id td), td_proposal_hash td, td_parent_proposal_hash td,
      td_parent_block_hash td, address_to_b256 (td_actual_prover td),
      address_to_b256 (st_proposer (td_transition td)), u64_to_b256 (st_timestamp (td_transition td)),
      k (words_message (checkpoint_words (td_checkpoint td))),
      u64_to_b256 (ucast (cp_blockNumber (td_checkpoint td))),
      cp_blockHash (td_checkpoint td), cp_stateRoot (td_checkpoint td)]"

definition subproof_words :: "(bytes \<Rightarrow> b256) \<Rightarrow> proof_carry_data \<Rightarrow> b256 list" where
  "subproof_words k c =
     [VERIFY_PROOF_B256, ucast (pc_chain_id c), address_to_b256 (pc_verifier c),
      k (words_message (transition_input_words k (pc_transition_input c)))]"

text \<open>The messages that are hashed on the way to the public input of a sub-proof.\<close>

definition subproof_messages :: "(bytes \<Rightarrow> b256) \<Rightarrow> proof_carry_data \<Rightarrow> bytes set" where
  "subproof_messages k c = {words_message (transition_input_words k (pc_transition_input c)),
                            words_message (subproof_words k c)}"

lemma block_number_fits: "(ucast (n :: 48 word) :: u64) \<le> 0xffffffffffff"
  using unat_lt2p [of n] by (simp add: word_le_nat_alt unat_ucast_48)

lemma hash_transition_input_eq:
  "hash_shasta_transition_input k td =
     (if st_timestamp (td_transition td) \<le> 0xffffffffffff
      then Ok (k (words_message (transition_input_words k td)))
      else Panic ''value does not fit in uint48'')"
  by (simp add: hash_shasta_transition_input_def u48_to_b256_def block_number_fits
      transition_input_words_def hash_checkpoint_def hash_three_values_def hash_values_message
      checkpoint_words_def)

lemma hash_subproof_input_eq:
  "hash_shasta_subproof_input k c =
     (if st_timestamp (td_transition (pc_transition_input c)) \<le> 0xffffffffffff
      then Ok (k (words_message (subproof_words k c)))
      else Panic ''value does not fit in uint48'')"
  by (simp add: hash_shasta_subproof_input_def hash_transition_input_eq subproof_words_def
      hash_four_values_def hash_values_message)

lemma transition_input_words_inject:
  "transition_input_words k td = transition_input_words k td' \<Longrightarrow> td = td'"
  by (cases td; cases td') (auto simp: transition_input_words_def intro!: checkpoint.equality
      shasta_transition_input.equality)

lemma subproof_message_inject:
  assumes "k (words_message (subproof_words k c)) = k (words_message (subproof_words k c'))"
    and "inj_on k (subproof_messages k c \<union> subproof_messages k c')"
  shows "c = c'"
proof -
  let ?t = "transition_input_words k"
  have w: "subproof_words k c = subproof_words k c'"
    by (rule message_hash_inject [OF assms(2) _ _ assms(1)]) (simp_all add: subproof_messages_def)
  have "?t (pc_transition_input c) = ?t (pc_transition_input c')"
  proof (rule message_hash_inject [OF assms(2)])
    show "k (words_message (?t (pc_transition_input c))) = k (words_message (?t (pc_transition_input c')))"
      using w by (simp add: subproof_words_def)
  qed (simp_all add: subproof_messages_def)
  then have "pc_transition_input c = pc_transition_input c'"
    by (rule transition_input_words_inject)
  then show ?thesis using w by (cases c; cases c') (simp add: subproof_words_def)
qed

text \<open>
  The public input of a sub-proof binds everything it carries: two carry records with the
  same public input are equal -- the chain, the verifier, the proposal and its parent, the
  parent block, the prover, the transition and the end checkpoint -- unless the hash
  function collides on two of the four messages hashed for them.
\<close>

lemma subproof_input_binds:
  assumes "hash_shasta_subproof_input keccak256 c = (Ok h :: (unit, b256) outcome)"
    and "hash_shasta_subproof_input keccak256 c' = (Ok h :: (unit, b256) outcome)"
    and "inj_on keccak256 (subproof_messages keccak256 c \<union> subproof_messages keccak256 c')"
  shows "c = c'"
  using assms by (intro subproof_message_inject) (simp_all add: hash_subproof_input_eq split: if_splits)

text \<open>
  A hash function without collisions on the messages at hand separates the public inputs of
  two carry records that differ only in the chain.
\<close>

definition example_carry :: "u64 \<Rightarrow> proof_carry_data" where
  "example_carry chain_id =
     \<lparr>pc_chain_id = chain_id, pc_verifier = 3,
      pc_transition_input =
        \<lparr>td_proposal_id = 42, td_proposal_hash = 11, td_parent_proposal_hash = 12,
         td_parent_block_hash = 13, td_actual_prover = 14,
         td_transition = \<lparr>st_proposer = 15, st_timestamp = 123\<rparr>,
         td_checkpoint = \<lparr>cp_blockNumber = 7, cp_blockHash = 16, cp_stateRoot = 17\<rparr>\<rparr>\<rparr>"

definition example_hash :: "bytes \<Rightarrow> b256" where
  "example_hash bs = (if length bs = 128 then from_be_bytes (take 32 (drop 32 bs)) else 5)"

lemma length_words_message: "length (words_message ws) = 32 * length ws"
  by (simp add: words_message_def word_codec.length_concat)

lemma from_be_bytes_as_slice [simp]: "from_be_bytes (as_slice w) = w"
  by (simp add: as_slice_def from_to_be_bytes_all)

lemma example_hash_subproof:
  "example_hash (words_message (subproof_words k c)) = ucast (pc_chain_id c)"
proof -
  have "take 32 (drop 32 (words_message (subproof_words k c))) = as_slice (ucast (pc_chain_id c))"
    using word_codec.enc_length by (simp add: words_message_def subproof_words_def)
  then show ?thesis
    by (simp add: example_hash_def length_words_message subproof_words_def)
qed

end
