(* ===== verification/Carry.thy ===== *)
theory Carry
  imports Libhash
begin

text \<open>
  Aggregation of sub-proofs (\<open>crates/primitives-shasta/src/instance.rs\<close>): the checks on the
  carry data of consecutive proposals, the commitment that an aggregated proof submits to
  the contract, and its public input.
\<close>

section \<open>Definitions\<close>

definition SHASTA_UINT48_MAX :: u64 where
  "SHASTA_UINT48_MAX = push_bit 48 1 - 1"

definition SHASTA_PROPOSAL_ID_MAX :: u64 where
  "SHASTA_PROPOSAL_ID_MAX = SHASTA_UINT48_MAX"

definition fits_shasta_uint48 :: "u64 \<Rightarrow> bool" where
  "fits_shasta_uint48 value' = (value' \<le> SHASTA_UINT48_MAX)"

definition words_to_bytes_le :: "u32 list \<Rightarrow> bytes" where
  "words_to_bytes_le words = concat (map (\<lambda>i. le_bytes 4 (words ! i)) [0..<8])"

definition words_to_bytes_be :: "u32 list \<Rightarrow> bytes" where
  "words_to_bytes_be words = concat (map (\<lambda>i. be_bytes 4 (words ! i)) [0..<8])"

definition sp1_contract_block_program_id :: "u32 list \<Rightarrow> b256" where
  "sp1_contract_block_program_id words = from_be_bytes (words_to_bytes_be words)"

definition carry_fits :: "proof_carry_data \<Rightarrow> bool" where
  "carry_fits item =
     (let ti = pc_transition_input item
      in fits_shasta_uint48 (td_proposal_id ti)
         \<and> fits_shasta_uint48 (st_timestamp (td_transition ti))
         \<and> fits_shasta_uint48 (ucast (cp_blockNumber (td_checkpoint ti))))"

definition carry_follows :: "proof_carry_data \<Rightarrow> proof_carry_data \<Rightarrow> bool" where
  "carry_follows prev next' =
     (let p = pc_transition_input prev; n = pc_transition_input next'
      in checked_add (td_proposal_id p) 1 = Some (td_proposal_id n)
         \<and> td_proposal_hash p = td_parent_proposal_hash n
         \<and> pc_chain_id prev = pc_chain_id next'
         \<and> pc_verifier prev = pc_verifier next'
         \<and> cp_blockHash (td_checkpoint p) = td_parent_block_hash n)"

definition validate_shasta_proof_carry_data_vec :: "proof_carry_data list \<Rightarrow> bool" where
  "validate_shasta_proof_carry_data_vec v =
     (case v of
        [] \<Rightarrow> False
      | first # _ \<Rightarrow>
          if \<not> list_all carry_fits v then False
          else let expected = td_actual_prover (pc_transition_input first)
               in if \<not> list_all (\<lambda>item. td_actual_prover (pc_transition_input item) = expected) v then False
                  else successively carry_follows v)"

text \<open>\<open>Uint::<48, 1>::from\<close> panics on a value of more than 48 bits.\<close>

definition uint48_from :: "u64 \<Rightarrow> ('e, 48 word) outcome" where
  "uint48_from n = (if unat n < 2 ^ 48 then Ok (ucast n) else Panic ''Uint conversion error'')"

fun build_transitions :: "proof_carry_data list \<Rightarrow> ('e, transition list) outcome" where
  "build_transitions [] = Ok []"
| "build_transitions (item # items) =
     (let ti = pc_transition_input item
      in bind_outcome (uint48_from (st_timestamp (td_transition ti))) (\<lambda>ts.
         bind_outcome (build_transitions items) (\<lambda>rest.
         Ok (\<lparr>tr_proposer = st_proposer (td_transition ti), tr_timestamp = ts,
              tr_blockHash = cp_blockHash (td_checkpoint ti)\<rparr> # rest))))"

definition build_shasta_commitment_from_proof_carry_data_vec ::
    "proof_carry_data list \<Rightarrow> ('e, commitment option) outcome" where
  "build_shasta_commitment_from_proof_carry_data_vec v =
     (if \<not> validate_shasta_proof_carry_data_vec v then Ok None
      else case v of
             [] \<Rightarrow> Ok None
           | first # _ \<Rightarrow>
               let f = pc_transition_input first; l = pc_transition_input (last v)
               in bind_outcome (build_transitions v) (\<lambda>transitions.
                  bind_outcome (uint48_from (td_proposal_id f)) (\<lambda>first_id.
                  Ok (Some
                    \<lparr>cm_firstProposalId = first_id,
                     cm_firstProposalParentBlockHash = td_parent_block_hash f,
                     cm_lastProposalHash = td_proposal_hash l,
                     cm_actualProver = td_actual_prover f,
                     cm_endBlockNumber = cp_blockNumber (td_checkpoint l),
                     cm_endStateRoot = cp_stateRoot (td_checkpoint l),
                     cm_transitions = transitions\<rparr>))))"

definition shasta_aggregation_output ::
    "(bytes \<Rightarrow> b256) \<Rightarrow> commitment \<Rightarrow> u64 \<Rightarrow> address \<Rightarrow> address \<Rightarrow> b256" where
  "shasta_aggregation_output keccak256 prove_input chain_id verifier_address sgx_instance =
     hash_public_input keccak256 (hash_commitment keccak256 prove_input) chain_id verifier_address
       sgx_instance"

definition shasta_zk_aggregation_output :: "(bytes \<Rightarrow> b256) \<Rightarrow> b256 \<Rightarrow> b256 \<Rightarrow> b256" where
  "shasta_zk_aggregation_output keccak256 sub_image_id sub_input_hash =
     hash_two_values keccak256 sub_image_id sub_input_hash"

definition shasta_zk_aggregation_public_input_from_proof_carry_data_vec ::
    "(bytes \<Rightarrow> b256) \<Rightarrow> b256 \<Rightarrow> proof_carry_data list \<Rightarrow> address \<Rightarrow> ('e, b256 option) outcome" where
  "shasta_zk_aggregation_public_input_from_proof_carry_data_vec keccak256 sub_image_id v prover_address =
     bind_outcome (build_shasta_commitment_from_proof_carry_data_vec v) (\<lambda>r.
       case r of
         None \<Rightarrow> Ok None
       | Some commitment \<Rightarrow>
           (case v of
              [] \<Rightarrow> Ok None
            | first # _ \<Rightarrow>
                Ok (Some (shasta_zk_aggregation_output keccak256 sub_image_id
                      (shasta_aggregation_output keccak256 commitment (pc_chain_id first)
                        (pc_verifier first) prover_address)))))"

section \<open>Program ids\<close>

text \<open>The bytes of a program id are the words of the verification key, in order.\<close>

lemma map_nth_eight: "length ws = 8 \<Longrightarrow> map (\<lambda>i. f (ws ! i)) [0..<8] = map f ws"
  by (rule nth_equalityI) simp_all

lemma program_id_bytes:
  assumes "length ws = 8"
  shows "as_slice (sp1_contract_block_program_id ws) = concat (map (be_bytes 4) ws)"
proof -
  have b: "words_to_bytes_be ws = concat (map (be_bytes 4) ws)"
    using map_nth_eight [OF assms, of "be_bytes 4"] by (simp add: words_to_bytes_be_def)
  have "length (words_to_bytes_be ws) = 32"
    unfolding b using u32_be_codec.length_concat [of ws] assms by simp
  then show ?thesis
    using to_from_be_bytes [of "words_to_bytes_be ws", where 'a = 256]
    by (simp add: as_slice_def sp1_contract_block_program_id_def b)
qed

lemma program_id_inject:
  assumes "length ws = 8" "length vs = 8"
    and "sp1_contract_block_program_id ws = sp1_contract_block_program_id vs"
  shows "ws = vs"
proof (rule u32_be_codec.concat_inject [THEN iffD1])
  show "concat (map (be_bytes 4) ws) = concat (map (be_bytes 4) vs)"
    by (simp only: assms(3) flip: program_id_bytes [OF assms(1)] program_id_bytes [OF assms(2)])
qed

section \<open>Valid carry data\<close>

lemma fits_iff: "fits_shasta_uint48 n \<longleftrightarrow> unat n < 2 ^ 48"
  by (auto simp: fits_shasta_uint48_def SHASTA_UINT48_MAX_def push_bit_eq_mult word_le_nat_alt)

lemma carry_fits_iff:
  "carry_fits c \<longleftrightarrow> unat (td_proposal_id (pc_transition_input c)) < 2 ^ 48
     \<and> unat (st_timestamp (td_transition (pc_transition_input c))) < 2 ^ 48"
  using unat_lt2p [of "cp_blockNumber (td_checkpoint (pc_transition_input c))"]
  by (simp add: carry_fits_def fits_iff unat_ucast_48 Let_def)

text \<open>
  The batches that may be aggregated: proposals with consecutive ids from the first one on,
  each the parent of the next in the proposal chain and in the block chain, all of one
  chain, one verifier and one prover.
\<close>

definition consecutive_batch :: "proof_carry_data list \<Rightarrow> bool" where
  "consecutive_batch v =
     (v \<noteq> []
      \<and> (\<forall>i < length v. let ti = pc_transition_input (v ! i); t0 = pc_transition_input (hd v) in
           unat (td_proposal_id ti) = unat (td_proposal_id t0) + i
           \<and> unat (td_proposal_id ti) < 2 ^ 48
           \<and> unat (st_timestamp (td_transition ti)) < 2 ^ 48
           \<and> td_actual_prover ti = td_actual_prover t0
           \<and> pc_chain_id (v ! i) = pc_chain_id (hd v)
           \<and> pc_verifier (v ! i) = pc_verifier (hd v))
      \<and> (\<forall>i. Suc i < length v \<longrightarrow>
           (let p = pc_transition_input (v ! i); n = pc_transition_input (v ! Suc i) in
              td_parent_proposal_hash n = td_proposal_hash p
              \<and> td_parent_block_hash n = cp_blockHash (td_checkpoint p))))"

lemma carry_follows_iff:
  "carry_follows p n \<longleftrightarrow>
     unat (td_proposal_id (pc_transition_input n)) = unat (td_proposal_id (pc_transition_input p)) + 1
     \<and> td_parent_proposal_hash (pc_transition_input n) = td_proposal_hash (pc_transition_input p)
     \<and> pc_chain_id n = pc_chain_id p \<and> pc_verifier n = pc_verifier p
     \<and> td_parent_block_hash (pc_transition_input n) = cp_blockHash (td_checkpoint (pc_transition_input p))"
  by (auto simp: carry_follows_def Let_def checked_add_Some_iff)

lemma successively_follows_const:
  assumes "successively carry_follows v" "i < length v"
  shows "unat (td_proposal_id (pc_transition_input (v ! i)))
           = unat (td_proposal_id (pc_transition_input (hd v))) + i
       \<and> pc_chain_id (v ! i) = pc_chain_id (hd v) \<and> pc_verifier (v ! i) = pc_verifier (hd v)"
  using assms(2)
proof (induction i)
  case 0
  then show ?case by (simp add: hd_conv_nth)
next
  case (Suc i)
  then have "carry_follows (v ! i) (v ! Suc i)"
    using assms(1) by (simp add: successively_conv_nth)
  then show ?case using Suc by (simp add: carry_follows_iff)
qed

lemma validate_carry_iff:
  "validate_shasta_proof_carry_data_vec v \<longleftrightarrow>
     v \<noteq> [] \<and> list_all carry_fits v
     \<and> list_all (\<lambda>c. td_actual_prover (pc_transition_input c) = td_actual_prover (pc_transition_input (hd v))) v
     \<and> successively carry_follows v"
  by (auto simp: validate_shasta_proof_carry_data_vec_def Let_def split: list.splits)

lemma consecutive_batch_of_valid:
  assumes "validate_shasta_proof_carry_data_vec v"
  shows "consecutive_batch v"
proof -
  from assms have v: "v \<noteq> []" "successively carry_follows v"
    and all: "\<And>i. i < length v \<Longrightarrow> carry_fits (v ! i)
      \<and> td_actual_prover (pc_transition_input (v ! i)) = td_actual_prover (pc_transition_input (hd v))"
    by (auto simp: validate_carry_iff list_all_length)
  then show ?thesis
    using successively_follows_const [OF v(2)]
    by (auto simp: consecutive_batch_def Let_def carry_fits_iff successively_conv_nth carry_follows_iff)
qed

lemma valid_of_consecutive_batch:
  "consecutive_batch v \<Longrightarrow> validate_shasta_proof_carry_data_vec v"
  by (auto simp: consecutive_batch_def Let_def validate_carry_iff list_all_length carry_fits_iff
      successively_conv_nth carry_follows_iff)

text \<open>
  The aggregation check accepts a vector of carry data exactly when it is a consecutive
  batch; in particular the ids of an accepted batch never wrap and all members share the
  chain, the verifier and the prover of the first.
\<close>

lemma validate_carry_exact:
  "validate_shasta_proof_carry_data_vec v \<longleftrightarrow> consecutive_batch v"
  using consecutive_batch_of_valid valid_of_consecutive_batch by blast

section \<open>The commitment\<close>

definition transition_of :: "proof_carry_data \<Rightarrow> transition" where
  "transition_of c =
     \<lparr>tr_proposer = st_proposer (td_transition (pc_transition_input c)),
      tr_timestamp = ucast (st_timestamp (td_transition (pc_transition_input c))),
      tr_blockHash = cp_blockHash (td_checkpoint (pc_transition_input c))\<rparr>"

lemma build_transitions_Ok:
  "list_all carry_fits v \<Longrightarrow> build_transitions v = Ok (map transition_of v)"
  by (induction v) (simp_all add: carry_fits_iff uint48_from_def transition_of_def Let_def)

definition commitment_of :: "proof_carry_data list \<Rightarrow> commitment" where
  "commitment_of v =
     (let f = pc_transition_input (hd v); l = pc_transition_input (last v)
      in \<lparr>cm_firstProposalId = ucast (td_proposal_id f),
          cm_firstProposalParentBlockHash = td_parent_block_hash f,
          cm_lastProposalHash = td_proposal_hash l,
          cm_actualProver = td_actual_prover f,
          cm_endBlockNumber = cp_blockNumber (td_checkpoint l),
          cm_endStateRoot = cp_stateRoot (td_checkpoint l),
          cm_transitions = map transition_of v\<rparr>)"

lemma build_commitment_eq:
  "build_shasta_commitment_from_proof_carry_data_vec v =
     Ok (if validate_shasta_proof_carry_data_vec v then Some (commitment_of v) else None)"
proof (cases "validate_shasta_proof_carry_data_vec v")
  case True
  then obtain c cs where v: "v = c # cs" "list_all carry_fits v"
    by (cases v) (simp_all add: validate_carry_iff)
  have "carry_fits c" using v by simp
  then show ?thesis
    using True
    by (simp add: build_transitions_Ok [OF v(2), unfolded v(1)] build_shasta_commitment_from_proof_carry_data_vec_def commitment_of_def Let_def v(1)
        uint48_from_def carry_fits_iff del: build_transitions.simps)
qed (simp add: build_shasta_commitment_from_proof_carry_data_vec_def)

lemma unat_ucast_u48: "unat n < 2 ^ 48 \<Longrightarrow> unat (ucast (n :: u64) :: 48 word) = unat n"
  by (simp add: unsigned_ucast_eq take_bit_nat_eq_self)

text \<open>
  Building the commitment never panics. It refuses exactly the vectors that are not
  consecutive batches; otherwise the commitment runs from the first proposal id and its
  parent block to the last proposal hash and end checkpoint, and lists for each member its
  proposer, its timestamp and its block hash, no id or timestamp being truncated to 48 bits.
\<close>

lemma build_commitment_exact:
  "case (build_shasta_commitment_from_proof_carry_data_vec v :: (unit, commitment option) outcome) of
     Ok None \<Rightarrow> \<not> consecutive_batch v
   | Ok (Some c) \<Rightarrow>
       (let f = pc_transition_input (hd v); l = pc_transition_input (last v) in
          consecutive_batch v
          \<and> unat (cm_firstProposalId c) = unat (td_proposal_id f)
          \<and> cm_firstProposalParentBlockHash c = td_parent_block_hash f
          \<and> cm_lastProposalHash c = td_proposal_hash l
          \<and> cm_actualProver c = td_actual_prover f
          \<and> cm_endBlockNumber c = cp_blockNumber (td_checkpoint l)
          \<and> cm_endStateRoot c = cp_stateRoot (td_checkpoint l)
          \<and> list_all2 (\<lambda>t item. let ti = pc_transition_input item in
               tr_proposer t = st_proposer (td_transition ti)
               \<and> unat (tr_timestamp t) = unat (st_timestamp (td_transition ti))
               \<and> tr_blockHash t = cp_blockHash (td_checkpoint ti)) (cm_transitions c) v)
   | _ \<Rightarrow> False"
proof (cases "validate_shasta_proof_carry_data_vec v")
  case True
  then have "v \<noteq> []" and fits: "\<And>c. c \<in> set v \<Longrightarrow> carry_fits c"
    by (simp_all add: validate_carry_iff list_all_iff)
  then have "unat (ucast (td_proposal_id (pc_transition_input (hd v))) :: 48 word)
      = unat (td_proposal_id (pc_transition_input (hd v)))"
    using fits [of "hd v"] by (simp add: carry_fits_iff unat_ucast_u48)
  moreover have "list_all2 (\<lambda>t item. let ti = pc_transition_input item in
      tr_proposer t = st_proposer (td_transition ti)
      \<and> unat (tr_timestamp t) = unat (st_timestamp (td_transition ti))
      \<and> tr_blockHash t = cp_blockHash (td_checkpoint ti)) (map transition_of v) v"
    using fits by (simp add: list_all2_map1 list_all2_same transition_of_def Let_def carry_fits_iff unat_ucast_u48)
  ultimately show ?thesis
    using consecutive_batch_of_valid [OF True]
    by (simp only: build_commitment_eq True if_True outcome.case option.case)
      (simp only: commitment_of_def Let_def commitment.simps)
next
  case False
  then show ?thesis using valid_of_consecutive_batch by (auto simp: build_commitment_eq)
qed

section \<open>The public input of an aggregated proof\<close>

definition public_input_words :: "(bytes \<Rightarrow> b256) \<Rightarrow> proof_carry_data list \<Rightarrow> address \<Rightarrow> b256 list" where
  "public_input_words k v prover =
     [VERIFY_PROOF_B256, ucast (pc_chain_id (hd v)), address_to_b256 (pc_verifier (hd v)),
      k (words_message (commitment_buffer (commitment_of v))), address_to_b256 prover]"

definition aggregation_words :: "(bytes \<Rightarrow> b256) \<Rightarrow> b256 \<Rightarrow> proof_carry_data list \<Rightarrow> address \<Rightarrow> b256 list" where
  "aggregation_words k img v prover = [img, k (words_message (public_input_words k v prover))]"

definition aggregation_messages :: "(bytes \<Rightarrow> b256) \<Rightarrow> b256 \<Rightarrow> proof_carry_data list \<Rightarrow> address \<Rightarrow> bytes set" where
  "aggregation_messages k img v prover =
     {words_message (commitment_buffer (commitment_of v)),
      words_message (public_input_words k v prover),
      words_message (aggregation_words k img v prover)}"

lemma aggregation_public_input_eq:
  "shasta_zk_aggregation_public_input_from_proof_carry_data_vec k img v prover =
     Ok (if validate_shasta_proof_carry_data_vec v
         then Some (k (words_message (aggregation_words k img v prover))) else None)"
  by (cases v) (simp_all add: shasta_zk_aggregation_public_input_from_proof_carry_data_vec_def
      build_commitment_eq shasta_zk_aggregation_output_def shasta_aggregation_output_def
      hash_two_values_def hash_public_input_def hash_five_values_def hash_commitment_def
      hash_values_message aggregation_words_def public_input_words_def validate_carry_iff)

text \<open>
  C26: The public input of an aggregated proof binds the program of the sub-proofs, the whole
  commitment, the chain, the verifier and the prover: two aggregations with the same public
  input agree on all of them, unless the hash function collides on two of the six messages
  hashed for them.
\<close>

theorem aggregation_public_input_binds:
  assumes "shasta_zk_aggregation_public_input_from_proof_carry_data_vec keccak256 img v prover
             = (Ok (Some h) :: (unit, b256 option) outcome)"
    and "shasta_zk_aggregation_public_input_from_proof_carry_data_vec keccak256 img' v' prover'
             = (Ok (Some h) :: (unit, b256 option) outcome)"
    and "inj_on keccak256 (aggregation_messages keccak256 img v prover
                           \<union> aggregation_messages keccak256 img' v' prover')"
  shows "img = img' \<and> prover = prover'
       \<and> pc_chain_id (hd v) = pc_chain_id (hd v') \<and> pc_verifier (hd v) = pc_verifier (hd v')
       \<and> (build_shasta_commitment_from_proof_carry_data_vec v :: (unit, commitment option) outcome)
           = build_shasta_commitment_from_proof_carry_data_vec v'"
proof -
  let ?k = keccak256
  have valid: "validate_shasta_proof_carry_data_vec v" "validate_shasta_proof_carry_data_vec v'"
    and h: "?k (words_message (aggregation_words ?k img v prover)) = h"
      "?k (words_message (aggregation_words ?k img' v' prover')) = h"
    using assms(1,2) by (simp_all add: aggregation_public_input_eq split: if_splits)
  have a: "aggregation_words ?k img v prover = aggregation_words ?k img' v' prover'"
    by (rule message_hash_inject [OF assms(3)]) (simp_all add: aggregation_messages_def h)
  then have "?k (words_message (public_input_words ?k v prover))
      = ?k (words_message (public_input_words ?k v' prover'))"
    by (simp add: aggregation_words_def)
  then have p: "public_input_words ?k v prover = public_input_words ?k v' prover'"
    by (intro message_hash_inject [OF assms(3)]) (simp_all add: aggregation_messages_def)
  then have "?k (words_message (commitment_buffer (commitment_of v)))
      = ?k (words_message (commitment_buffer (commitment_of v')))"
    by (simp add: public_input_words_def)
  then have "commitment_buffer (commitment_of v) = commitment_buffer (commitment_of v')"
    by (intro message_hash_inject [OF assms(3)]) (simp_all add: aggregation_messages_def)
  then show ?thesis
    using a p valid by (simp add: build_commitment_eq aggregation_words_def public_input_words_def)
qed

text \<open>
  With a hash function that has no collision on the messages of two aggregations of the
  same batch for the provers 1 and 2, the public inputs differ.
\<close>

definition example_agg_hash :: "bytes \<Rightarrow> b256" where
  "example_agg_hash bs =
     (if length bs = 160 then from_be_bytes (drop 128 bs)
      else if length bs = 64 then 10 + from_be_bytes (drop 32 bs) else 5)"

lemma example_agg_hash_values:
  "example_agg_hash (words_message (commitment_buffer (commitment_of [example_carry 1]))) = 5"
  "example_agg_hash (words_message (public_input_words k v prover)) = address_to_b256 prover"
  "example_agg_hash (words_message [a, b]) = 10 + b"
  using word_codec.enc_length
  by (simp_all add: example_agg_hash_def length_words_message commitment_buffer_def commitment_of_def
      transition_words_def public_input_words_def words_message_def word_codec.length_concat)

lemma example_carry_valid: "validate_shasta_proof_carry_data_vec [example_carry 1]"
  by (simp add: validate_carry_iff carry_fits_iff example_carry_def)

theorem aggregation_public_input_binds_witness:
  "shasta_zk_aggregation_public_input_from_proof_carry_data_vec example_agg_hash 9 [example_carry 1] 1
     \<noteq> (shasta_zk_aggregation_public_input_from_proof_carry_data_vec example_agg_hash 9 [example_carry 1] 2
        :: (unit, b256 option) outcome)"
proof
  let ?f = "\<lambda>prover. shasta_zk_aggregation_public_input_from_proof_carry_data_vec example_agg_hash 9
      [example_carry 1] prover :: (unit, b256 option) outcome"
  let ?M = "\<lambda>prover. aggregation_messages example_agg_hash 9 [example_carry 1] prover"
  assume eq: "?f 1 = ?f 2"
  have "inj_on example_agg_hash (?M 1 \<union> ?M 2)"
    by (auto simp: inj_on_def aggregation_messages_def aggregation_words_def example_agg_hash_values
        address_to_b256_def)
  moreover obtain h where "?f 1 = Ok (Some h)"
    using example_carry_valid by (simp add: aggregation_public_input_eq)
  ultimately have "(1 :: address) = 2"
    using eq aggregation_public_input_binds [of example_agg_hash 9 "[example_carry 1]" 1 h 9
        "[example_carry 1]" 2] by simp
  then show False by simp
qed

end
