(* ===== verification/Witness.thy ===== *)
theory Witness
  imports Bytes
begin

text \<open>
  Execution witnesses (\<open>crates/primitives/src/stateless.rs\<close>): witness headers with their
  precomputed hash, trie nodes with theirs, the canonical orders, and the wire forms. The
  host that writes the wire form is not trusted: reading recomputes every hash that can be
  recomputed.

  A \<open>Header\<close> of the \<open>alloy\<close> package is a record of the fields that the sources read; the
  remaining fields are its component \<open>h_rest\<close>. Its hash \<open>hash_slow\<close>, and Keccak, are
  arguments.
\<close>

section \<open>Headers\<close>

record header =
  h_number :: u64
  h_parent_hash :: b256
  h_timestamp :: u64
  h_gas_limit :: u64
  h_state_root :: b256
  h_beneficiary :: address
  h_extra_data :: bytes
  h_mix_hash :: b256
  h_difficulty :: b256
  h_base_fee_per_gas :: "u64 option"
  h_rest :: bytes

record witness_header =
  wh_number :: u64
  wh_parent_hash :: b256
  wh_timestamp :: u64
  wh_hash :: b256
  wh_header :: "header option"

definition from_header_with_hash :: "header \<Rightarrow> b256 \<Rightarrow> witness_header" where
  "from_header_with_hash h hash =
     \<lparr>wh_number = h_number h, wh_parent_hash = h_parent_hash h, wh_timestamp = h_timestamp h,
      wh_hash = hash, wh_header = Some h\<rparr>"

definition from_header :: "(header \<Rightarrow> b256) \<Rightarrow> header \<Rightarrow> witness_header" where
  "from_header hash_slow h = from_header_with_hash h (hash_slow h)"

definition from_compact_header :: "(header \<Rightarrow> b256) \<Rightarrow> header \<Rightarrow> witness_header" where
  "from_compact_header hash_slow h =
     \<lparr>wh_number = h_number h, wh_parent_hash = h_parent_hash h, wh_timestamp = h_timestamp h,
      wh_hash = hash_slow h, wh_header = None\<rparr>"

definition into_compact :: "witness_header \<Rightarrow> witness_header" where
  "into_compact w =
     \<lparr>wh_number = wh_number w, wh_parent_hash = wh_parent_hash w, wh_timestamp = wh_timestamp w,
      wh_hash = wh_hash w, wh_header = None\<rparr>"

definition compact_in_place :: "witness_header \<Rightarrow> witness_header" where
  "compact_in_place w = w\<lparr>wh_header := None\<rparr>"

definition full_header :: "witness_header \<Rightarrow> header option" where
  "full_header w = wh_header w"

definition from_rlp :: "(header \<Rightarrow> b256) \<Rightarrow> (bytes \<Rightarrow> header option) \<Rightarrow> bytes \<Rightarrow> witness_header option" where
  "from_rlp hash_slow header_decode bs = map_option (from_header hash_slow) (header_decode bs)"

text \<open>The wire forms: three in JSON, one in bincode.\<close>

record witness_header_serde =
  ws_header :: header
  ws_hash :: b256

record witness_header_compact_serde =
  wc_number :: u64
  wc_parent_hash :: b256
  wc_timestamp :: u64
  wc_hash :: b256

record witness_header_bincode =
  wb_number :: u64
  wb_parent_hash :: b256
  wb_timestamp :: u64
  wb_hash :: b256
  wb_header :: "header option"

datatype witness_header_human =
    Legacy bytes
  | Full witness_header_serde
  | Compact witness_header_compact_serde

definition header_from_serde :: "(header \<Rightarrow> b256) \<Rightarrow> witness_header_serde \<Rightarrow> witness_header" where
  "header_from_serde hash_slow s = from_header hash_slow (ws_header s)"

definition header_from_compact_serde :: "witness_header_compact_serde \<Rightarrow> witness_header" where
  "header_from_compact_serde s =
     \<lparr>wh_number = wc_number s, wh_parent_hash = wc_parent_hash s, wh_timestamp = wc_timestamp s,
      wh_hash = wc_hash s, wh_header = None\<rparr>"

definition header_to_serde :: "witness_header \<Rightarrow> (unit, witness_header_serde) outcome" where
  "header_to_serde w =
     (case full_header w of
        None \<Rightarrow> Panic ''full header required for full serde form''
      | Some h \<Rightarrow> Ok \<lparr>ws_header = h, ws_hash = wh_hash w\<rparr>)"

definition header_to_compact_serde :: "witness_header \<Rightarrow> witness_header_compact_serde" where
  "header_to_compact_serde w =
     \<lparr>wc_number = wh_number w, wc_parent_hash = wh_parent_hash w, wc_timestamp = wh_timestamp w,
      wc_hash = wh_hash w\<rparr>"

definition header_to_bincode :: "witness_header \<Rightarrow> witness_header_bincode" where
  "header_to_bincode w =
     \<lparr>wb_number = wh_number w, wb_parent_hash = wh_parent_hash w, wb_timestamp = wh_timestamp w,
      wb_hash = wh_hash w, wb_header = full_header w\<rparr>"

definition header_from_bincode :: "(header \<Rightarrow> b256) \<Rightarrow> witness_header_bincode \<Rightarrow> witness_header" where
  "header_from_bincode hash_slow b =
     (case wb_header b of
        Some h \<Rightarrow> from_header hash_slow h
      | None \<Rightarrow>
          \<lparr>wh_number = wb_number b, wh_parent_hash = wb_parent_hash b, wh_timestamp = wb_timestamp b,
           wh_hash = wb_hash b, wh_header = None\<rparr>)"

definition serialize_header_human :: "witness_header \<Rightarrow> (unit, witness_header_human) outcome" where
  "serialize_header_human w =
     (if full_header w \<noteq> None then bind_outcome (header_to_serde w) (\<lambda>s. Ok (Full s))
      else Ok (Compact (header_to_compact_serde w)))"

definition deserialize_header_human ::
    "(header \<Rightarrow> b256) \<Rightarrow> (bytes \<Rightarrow> header option) \<Rightarrow> witness_header_human \<Rightarrow> witness_header option" where
  "deserialize_header_human hash_slow header_decode f =
     (case f of
        Legacy bs \<Rightarrow> from_rlp hash_slow header_decode bs
      | Full s \<Rightarrow> Some (header_from_serde hash_slow s)
      | Compact s \<Rightarrow> Some (header_from_compact_serde s))"

section \<open>Trie nodes\<close>

record witness_state_node =
  wn_hash :: b256
  wn_bytes :: bytes

definition node_from_bytes :: "(bytes \<Rightarrow> b256) \<Rightarrow> bytes \<Rightarrow> witness_state_node" where
  "node_from_bytes keccak256 bs = \<lparr>wn_hash = keccak256 bs, wn_bytes = bs\<rparr>"

datatype witness_state_node_human = LegacyNode bytes | Structured b256 bytes

definition node_from_serde :: "(bytes \<Rightarrow> b256) \<Rightarrow> b256 \<Rightarrow> bytes \<Rightarrow> witness_state_node" where
  "node_from_serde keccak256 host_hash bs = node_from_bytes keccak256 bs"

definition deserialize_node_human ::
    "(bytes \<Rightarrow> b256) \<Rightarrow> witness_state_node_human \<Rightarrow> witness_state_node" where
  "deserialize_node_human keccak256 f =
     (case f of LegacyNode bs \<Rightarrow> node_from_bytes keccak256 bs
              | Structured h bs \<Rightarrow> node_from_serde keccak256 h bs)"

section \<open>Witnesses\<close>

record execution_witness =
  ew_state :: "witness_state_node list"
  ew_state_indices :: "u32 list"
  ew_codes :: "bytes list"
  ew_keys :: "bytes list"
  ew_headers :: "witness_header list"

text \<open>\<open>dedup_by_key\<close>: of consecutive elements with the same key the first is kept.\<close>

fun dedup_by_key :: "('a \<Rightarrow> 'k) \<Rightarrow> 'a list \<Rightarrow> 'a list" where
  "dedup_by_key f [] = []"
| "dedup_by_key f [x] = [x]"
| "dedup_by_key f (x # y # zs) =
     (if f x = f y then dedup_by_key f (x # zs) else x # dedup_by_key f (y # zs))"

definition canonicalize_state_nodes :: "witness_state_node list \<Rightarrow> witness_state_node list" where
  "canonicalize_state_nodes state = dedup_by_key wn_hash (sort_key wn_hash state)"

definition canonicalize_state_indices :: "u32 list \<Rightarrow> u32 list" where
  "canonicalize_state_indices is = remdups_adj (sort is)"

definition canonicalize_headers :: "witness_header list \<Rightarrow> witness_header list" where
  "canonicalize_headers headers = sort_key wh_number headers"

definition from_canonicalized_serde :: "execution_witness \<Rightarrow> execution_witness" where
  "from_canonicalized_serde v =
     \<lparr>ew_state = canonicalize_state_nodes (ew_state v),
      ew_state_indices = canonicalize_state_indices (ew_state_indices v),
      ew_codes = ew_codes v, ew_keys = ew_keys v,
      ew_headers = canonicalize_headers (ew_headers v)\<rparr>"

definition with_canonical_state :: "execution_witness \<Rightarrow> execution_witness" where
  "with_canonical_state w =
     w\<lparr>ew_state := canonicalize_state_nodes (ew_state w),
       ew_state_indices := canonicalize_state_indices (ew_state_indices w)\<rparr>"

subsection \<open>Serialisation\<close>

text \<open>
  A serialiser is human-readable (JSON) or not (bincode), and the types of this file look different in
  the two cases. What is written of a witness has the wire forms of its nodes and headers.
\<close>

datatype wire_format = HumanReadable | Binary

datatype header_wire = HeaderHuman witness_header_human | HeaderBinary witness_header_bincode

definition serialize_header :: "wire_format \<Rightarrow> witness_header \<Rightarrow> (unit, header_wire) outcome" where
  "serialize_header fmt w =
     (case fmt of
        HumanReadable \<Rightarrow> bind_outcome (serialize_header_human w) (\<lambda>f. Ok (HeaderHuman f))
      | Binary \<Rightarrow> Ok (HeaderBinary (header_to_bincode w)))"

definition deserialize_header ::
    "(header \<Rightarrow> b256) \<Rightarrow> (bytes \<Rightarrow> header option) \<Rightarrow> header_wire \<Rightarrow> (unit, witness_header) outcome" where
  "deserialize_header hash_slow header_decode v =
     (case v of
        HeaderHuman f \<Rightarrow> ok_or (deserialize_header_human hash_slow header_decode f) ()
      | HeaderBinary b \<Rightarrow> Ok (header_from_bincode hash_slow b))"

datatype node_wire = NodeHuman witness_state_node_human | NodeBinary b256 bytes

definition serialize_node :: "wire_format \<Rightarrow> witness_state_node \<Rightarrow> node_wire" where
  "serialize_node fmt n =
     (case fmt of
        HumanReadable \<Rightarrow> NodeHuman (LegacyNode (wn_bytes n))
      | Binary \<Rightarrow> NodeBinary (wn_hash n) (wn_bytes n))"

definition deserialize_node :: "(bytes \<Rightarrow> b256) \<Rightarrow> node_wire \<Rightarrow> witness_state_node" where
  "deserialize_node keccak256 v =
     (case v of
        NodeHuman f \<Rightarrow> deserialize_node_human keccak256 f
      | NodeBinary h bs \<Rightarrow> node_from_serde keccak256 h bs)"

record execution_witness_wire =
  xw_state :: "node_wire list"
  xw_state_indices :: "u32 list"
  xw_codes :: "bytes list"
  xw_keys :: "bytes list"
  xw_headers :: "header_wire list"

definition serialize_witness :: "wire_format \<Rightarrow> execution_witness \<Rightarrow> (unit, execution_witness_wire) outcome" where
  "serialize_witness fmt w =
     bind_outcome (try_map (serialize_header fmt) (ew_headers w)) (\<lambda>headers.
     Ok \<lparr>xw_state = map (serialize_node fmt) (ew_state w), xw_state_indices = ew_state_indices w,
         xw_codes = ew_codes w, xw_keys = ew_keys w, xw_headers = headers\<rparr>)"

definition deserialize_witness ::
    "wire_format \<Rightarrow> (bytes \<Rightarrow> b256) \<Rightarrow> (header \<Rightarrow> b256) \<Rightarrow> (bytes \<Rightarrow> header option)
      \<Rightarrow> execution_witness_wire \<Rightarrow> (unit, execution_witness) outcome" where
  "deserialize_witness fmt keccak256 hash_slow header_decode v =
     bind_outcome (try_map (deserialize_header hash_slow header_decode) (xw_headers v)) (\<lambda>headers.
     let w = \<lparr>ew_state = map (deserialize_node keccak256) (xw_state v), ew_state_indices = xw_state_indices v,
              ew_codes = xw_codes v, ew_keys = xw_keys v, ew_headers = headers\<rparr>
     in Ok (case fmt of HumanReadable \<Rightarrow> from_canonicalized_serde w | Binary \<Rightarrow> w))"

text \<open>
  The trie nodes that the stateless executor takes from a witness
  (\<open>SparseState::rlp_by_digest\<close> of \<open>crates/stateless/src/sparse.rs\<close>): its own nodes, or, when it
  has positions, the nodes of the shared pool at these positions, by the hash of their bytes.
\<close>

datatype stateless_error = SharedWitnessStateIndexOutOfBounds u32 nat

definition add_digest :: "(bytes \<Rightarrow> b256) \<Rightarrow> (b256 \<Rightarrow> bytes option) \<Rightarrow> witness_state_node \<Rightarrow> b256 \<Rightarrow> bytes option" where
  "add_digest keccak256 m n = m(keccak256 (wn_bytes n) \<mapsto> wn_bytes n)"

definition add_indexed_digest ::
    "(bytes \<Rightarrow> b256) \<Rightarrow> witness_state_node list \<Rightarrow> (b256 \<Rightarrow> bytes option) \<Rightarrow> u32
      \<Rightarrow> (stateless_error, b256 \<Rightarrow> bytes option) outcome" where
  "add_indexed_digest keccak256 pool m i =
     (if unat i < length pool then Ok (add_digest keccak256 m (pool ! unat i))
      else Err (SharedWitnessStateIndexOutOfBounds i (length pool)))"

definition rlp_by_digest ::
    "(bytes \<Rightarrow> b256) \<Rightarrow> execution_witness \<Rightarrow> witness_state_node list
      \<Rightarrow> (stateless_error, b256 \<Rightarrow> bytes option) outcome" where
  "rlp_by_digest keccak256 w pool =
     (if ew_state_indices w = [] then Ok (foldl (add_digest keccak256) Map.empty (ew_state w))
      else try_fold (add_indexed_digest keccak256 pool) Map.empty (ew_state_indices w))"

section \<open>Canonical orders\<close>

lemma set_dedup_by_key: "f ` set (dedup_by_key f xs) = f ` set xs"
  by (induction f xs rule: dedup_by_key.induct) auto

lemma dedup_by_key_subset: "set (dedup_by_key f xs) \<subseteq> set xs"
  by (induction f xs rule: dedup_by_key.induct) auto

lemma sorted_dedup_by_key:
  "sorted (map f xs) \<Longrightarrow> sorted (map f (dedup_by_key f xs)) \<and> distinct (map f (dedup_by_key f xs))"
proof (induction f xs rule: dedup_by_key.induct)
  case (3 f x y zs)
  show ?case
  proof (cases "f x = f y")
    case True
    then show ?thesis using 3 by auto
  next
    case False
    have s: "sorted (map f (y # zs))" using "3.prems" by simp
    have "\<forall>k \<in> f ` set (dedup_by_key f (y # zs)). f x < k"
      using "3.prems" False unfolding set_dedup_by_key by force
    then show ?thesis using False "3.IH"(2) [OF False s] by (auto simp: less_imp_le)
  qed
qed auto

lemma canonical_nodes:
  "sorted (map wn_hash (canonicalize_state_nodes ns))" "distinct (map wn_hash (canonicalize_state_nodes ns))"
  "set (canonicalize_state_nodes ns) \<subseteq> set ns"
  "wn_hash ` set (canonicalize_state_nodes ns) = wn_hash ` set ns"
  using sorted_dedup_by_key [of wn_hash "sort_key wn_hash ns"] dedup_by_key_subset [of wn_hash "sort_key wn_hash ns"]
    set_dedup_by_key [of wn_hash "sort_key wn_hash ns"]
  by (auto simp: canonicalize_state_nodes_def)

lemma set_canonicalize_state_indices [simp]: "set (canonicalize_state_indices is) = set is"
  by (simp add: canonicalize_state_indices_def)

lemma sort_key_id_if_sorted: "sorted (map f xs) \<Longrightarrow> sort_key f xs = xs"
  by (induction xs) (auto simp: insort_is_Cons)

lemma canonicalize_headers_idem [simp]: "canonicalize_headers (canonicalize_headers hs) = canonicalize_headers hs"
  by (simp add: canonicalize_headers_def sort_key_id_if_sorted)

lemma canonicalize_headers_Nil [simp]: "canonicalize_headers hs = [] \<longleftrightarrow> hs = []"
  by (metis canonicalize_headers_def length_0_conv length_sort)

section \<open>Reading does not trust the writer\<close>

text \<open>A full witness header whose metadata is that of its header.\<close>

definition header_ok :: "(header \<Rightarrow> b256) \<Rightarrow> witness_header \<Rightarrow> bool" where
  "header_ok hash_slow w =
     (case wh_header w of None \<Rightarrow> True | Some h \<Rightarrow> w = from_header hash_slow h)"

lemma header_ok_from_header [simp]: "header_ok hash_slow (from_header hash_slow h)"
  by (simp add: header_ok_def from_header_def from_header_with_hash_def)

lemma header_ok_None: "wh_header w = None \<Longrightarrow> header_ok hash_slow w"
  by (simp add: header_ok_def)

lemma header_ok_deserialize:
  "header_ok hash_slow (header_from_bincode hash_slow b)"
  "deserialize_header_human hash_slow header_decode f = Some w \<Longrightarrow> header_ok hash_slow w"
  by (auto simp: header_from_bincode_def header_ok_None deserialize_header_human_def from_rlp_def header_from_serde_def
      header_from_compact_serde_def split: witness_header_human.splits option.splits)

lemma header_bincode_roundtrip:
  "header_from_bincode hash_slow (header_to_bincode w) = w \<longleftrightarrow> header_ok hash_slow w"
  by (cases w) (auto simp: header_from_bincode_def header_to_bincode_def full_header_def header_ok_def
      split: option.splits)

lemma header_human_roundtrip:
  "case (serialize_header_human w :: (unit, witness_header_human) outcome) of
      Ok f \<Rightarrow> deserialize_header_human hash_slow header_decode f = Some w \<longleftrightarrow> header_ok hash_slow w
    | _ \<Rightarrow> False"
  by (cases w) (auto simp: serialize_header_human_def header_to_serde_def deserialize_header_human_def
      header_from_serde_def header_from_compact_serde_def header_to_compact_serde_def full_header_def
      header_ok_def split: option.splits)

text \<open>
  C37: Whatever a host writes, a witness header that was read with its full header has
  exactly the number, parent hash, timestamp and recomputed hash of that header; the wire
  form never panics, and headers that already have this property, full or compact, survive
  writing and reading in both formats unchanged.
\<close>

theorem witness_header_wire:
  "(\<forall>b. header_ok hash_slow (header_from_bincode hash_slow b))
   \<and> (\<forall>f. case deserialize_header_human hash_slow header_decode f of
            None \<Rightarrow> (\<exists>bs. f = Legacy bs \<and> header_decode bs = None)
          | Some w \<Rightarrow> header_ok hash_slow w)
   \<and> (header_from_bincode hash_slow (header_to_bincode w) = w \<longleftrightarrow> header_ok hash_slow w)
   \<and> (case (serialize_header_human w :: (unit, witness_header_human) outcome) of
        Ok f \<Rightarrow> deserialize_header_human hash_slow header_decode f = Some w \<longleftrightarrow> header_ok hash_slow w
      | _ \<Rightarrow> False)"
proof (intro conjI allI header_ok_deserialize(1) header_bincode_roundtrip header_human_roundtrip)
  show "case deserialize_header_human hash_slow header_decode f of
      None \<Rightarrow> (\<exists>bs. f = Legacy bs \<and> header_decode bs = None) | Some w \<Rightarrow> header_ok hash_slow w" for f
    using header_ok_deserialize(2) [of hash_slow header_decode f]
    by (auto simp: deserialize_header_human_def from_rlp_def split: witness_header_human.splits option.splits)
qed

section \<open>Reading back what was written\<close>

definition node_ok :: "(bytes \<Rightarrow> b256) \<Rightarrow> witness_state_node \<Rightarrow> bool" where
  "node_ok keccak256 n = (n = node_from_bytes keccak256 (wn_bytes n))"

definition read_back :: "wire_format \<Rightarrow> execution_witness \<Rightarrow> execution_witness" where
  "read_back fmt w = (case fmt of HumanReadable \<Rightarrow> from_canonicalized_serde w | Binary \<Rightarrow> w)"

lemma serialize_header_roundtrip:
  assumes "header_ok hash_slow w"
  shows "\<exists>v. serialize_header fmt w = Ok v \<and> deserialize_header hash_slow header_decode v = Ok w"
proof (cases fmt)
  case HumanReadable
  then show ?thesis
    using assms header_human_roundtrip [where w = w and hash_slow = hash_slow and header_decode = header_decode]
    by (auto simp: serialize_header_def deserialize_header_def split: outcome.splits)
next
  case Binary
  then show ?thesis
    using assms by (simp add: serialize_header_def deserialize_header_def header_bincode_roundtrip)
qed

lemma deserialize_header_ok: "deserialize_header hash_slow header_decode v = Ok w \<Longrightarrow> header_ok hash_slow w"
  using header_ok_deserialize by (auto simp: deserialize_header_def ok_iff split: header_wire.splits)

lemma deserialize_node_ok: "node_ok keccak256 (deserialize_node keccak256 v)"
  by (auto simp: node_ok_def deserialize_node_def deserialize_node_human_def node_from_serde_def node_from_bytes_def
      split: node_wire.splits witness_state_node_human.splits)

lemma serialize_node_roundtrip: "node_ok keccak256 n \<Longrightarrow> deserialize_node keccak256 (serialize_node fmt n) = n"
  by (cases fmt) (simp_all add: node_ok_def serialize_node_def deserialize_node_def deserialize_node_human_def
      node_from_serde_def)

lemma serialize_witness_roundtrip:
  assumes "\<forall>h \<in> set (ew_headers w). header_ok hash_slow h" "\<forall>n \<in> set (ew_state w). node_ok keccak256 n"
  shows "\<exists>v. serialize_witness fmt w = Ok v
    \<and> deserialize_witness fmt keccak256 hash_slow header_decode v = Ok (read_back fmt w)"
proof -
  have "map (deserialize_node keccak256 \<circ> serialize_node fmt) (ew_state w) = ew_state w"
    using assms(2) by (simp add: serialize_node_roundtrip map_idI)
  moreover obtain hs where "try_map (serialize_header fmt) (ew_headers w) = Ok hs"
    "try_map (deserialize_header hash_slow header_decode) hs = Ok (ew_headers w)"
    using try_map_id [of "ew_headers w" "serialize_header fmt" "deserialize_header hash_slow header_decode" "\<lambda>h. h"]
      serialize_header_roundtrip assms(1) by fastforce
  ultimately show ?thesis
    by (cases w; cases fmt) (simp_all add: serialize_witness_def deserialize_witness_def read_back_def)
qed

lemma deserialize_witness_ok:
  assumes "deserialize_witness fmt keccak256 hash_slow header_decode v = Ok w"
  shows "(\<forall>h \<in> set (ew_headers w). header_ok hash_slow h) \<and> (\<forall>n \<in> set (ew_state w). node_ok keccak256 n)"
proof -
  obtain hs where hs: "try_map (deserialize_header hash_slow header_decode) (xw_headers v) = Ok hs"
    and w: "ew_headers w = hs \<or> ew_headers w = canonicalize_headers hs"
      "set (ew_state w) \<subseteq> set (map (deserialize_node keccak256) (xw_state v))"
    using assms canonical_nodes(3) [of "map (deserialize_node keccak256) (xw_state v)"]
    by (cases fmt) (auto simp: deserialize_witness_def bind_outcome_Ok_iff Let_def from_canonicalized_serde_def)
  from hs have "\<forall>h \<in> set hs. header_ok hash_slow h"
    by (auto dest: try_map_Ok_elem intro: deserialize_header_ok)
  then show ?thesis using w deserialize_node_ok by (auto simp: canonicalize_headers_def)
qed

end
