(* ===== verification/Guest_Input.thy ===== *)
theory Guest_Input
  imports Witness Proposal
begin

text \<open>
  The input of the Shasta guest programs (\<open>crates/primitives-shasta/src/input.rs\<close>, with the
  manifest of \<open>crates/protocol/src/manifest.rs\<close> and the per-block input of
  \<open>crates/primitives/src/input.rs\<close>): the shared window of ancestor headers, the shared pool of
  trie nodes, their compaction, and the wire form.

  Of a transaction the record has the values of the accessors that the sources call, and of
  a chain specification the chain id, the only field that the guest reads. The account
  snapshots of a per-block input, which the source keeps only for the wire and no guest reads,
  are left out. The wire form has the nested forms of headers, nodes and witnesses; the derived
  codecs of the other fields, which have no code of their own, keep the value.
\<close>

section \<open>Data\<close>

definition ANCESTOR_HEADER_WINDOW_LIMIT :: nat where
  "ANCESTOR_HEADER_WINDOW_LIMIT = 256"

record eth_tx =
  tx_input :: bytes
  tx_is_eip1559 :: bool
  tx_to :: "address option"
  tx_chain_id :: "u64 option"
  tx_max_fee_per_gas :: u128
  tx_max_priority_fee_per_gas :: "u128 option"
  tx_access_list :: "bytes list option"
  tx_signature_hash :: b256
  tx_signature :: bytes
  tx_rlp :: bytes

record block =
  bl_header :: header
  bl_transactions :: "eth_tx list"

record chain_spec =
  cs_chain_id :: u64

record stateless_input =
  si_block :: block
  si_chain_spec :: chain_spec
  si_witness :: execution_witness

record manifest_chain_spec =
  mc_name :: string
  mc_chain_id :: u64
  mc_is_taiko :: bool

record taiko_prover_data =
  pd_actual_prover :: address
  pd_designated_prover :: "address option"
  pd_graffiti :: b256
  pd_parent_transition_hash :: "b256 option"
  pd_checkpoint :: "checkpoint option"
  pd_last_anchor_block_number :: "u64 option"

datatype blob_proof_type = ProofOfEquivalence

record taiko_manifest =
  tm_proposal_id :: u64
  tm_l1_header :: header
  tm_proposal_event :: shasta_event_data
  tm_chain_spec :: manifest_chain_spec
  tm_prover_data :: taiko_prover_data
  tm_blob_proof_type :: blob_proof_type
  tm_data_sources :: "input_data_source list"
  tm_l1_ancestor_headers :: "header list"

record guest_input =
  gi_witnesses :: "stateless_input list"
  gi_taiko :: taiko_manifest
  gi_proposal_ancestor_headers :: "witness_header list"
  gi_proposal_state_nodes :: "witness_state_node list"
  gi_proof_carry_data :: proof_carry_data

record shasta_zk_aggregation_guest_input =
  za_image_id :: "u32 list"
  za_block_inputs :: "b256 list"
  za_proof_carry_data_vec :: "proof_carry_data list"
  za_prover_address :: address

section \<open>Ancestor headers\<close>

definition proposal_ancestor_headers :: "guest_input \<Rightarrow> witness_header list" where
  "proposal_ancestor_headers g =
     (if gi_proposal_ancestor_headers g = [] then
        (case gi_witnesses g of [] \<Rightarrow> [] | w # _ \<Rightarrow> ew_headers (si_witness w))
      else gi_proposal_ancestor_headers g)"

definition initial_proposal_ancestor_headers :: "guest_input \<Rightarrow> witness_header list" where
  "initial_proposal_ancestor_headers g = canonicalize_headers (proposal_ancestor_headers g)"

definition proposal_state_nodes :: "guest_input \<Rightarrow> witness_state_node list" where
  "proposal_state_nodes g = gi_proposal_state_nodes g"

definition clear_headers :: "stateless_input \<Rightarrow> stateless_input" where
  "clear_headers w = w\<lparr>si_witness := (si_witness w)\<lparr>ew_headers := []\<rparr>\<rparr>"

definition compact_proposal_ancestor_headers :: "guest_input \<Rightarrow> guest_input" where
  "compact_proposal_ancestor_headers g =
     (let headers = initial_proposal_ancestor_headers g
      in if headers = [] then g
         else g\<lparr>gi_proposal_ancestor_headers := headers,
                gi_witnesses := map clear_headers (gi_witnesses g)\<rparr>)"

definition roll_proposal_ancestor_headers_in_place ::
    "witness_header list \<Rightarrow> header \<Rightarrow> b256 \<Rightarrow> witness_header list" where
  "roll_proposal_ancestor_headers_in_place current parent_header parent_hash =
     (let retained_before_push = ANCESTOR_HEADER_WINDOW_LIMIT - 1;
          current = (if length current > retained_before_push
                     then drop (length current - retained_before_push) current else current)
      in current @ [from_header_with_hash parent_header parent_hash])"

definition roll_proposal_ancestor_headers ::
    "(header \<Rightarrow> b256) \<Rightarrow> witness_header list \<Rightarrow> header \<Rightarrow> witness_header list" where
  "roll_proposal_ancestor_headers hash_slow current parent_header =
     roll_proposal_ancestor_headers_in_place current parent_header (hash_slow parent_header)"

section \<open>The pool of trie nodes\<close>

definition has_positional_proposal_state_pool :: "guest_input \<Rightarrow> bool" where
  "has_positional_proposal_state_pool g =
     (gi_proposal_state_nodes g \<noteq> []
      \<and> list_ex (\<lambda>w. ew_state_indices (si_witness w) \<noteq> []) (gi_witnesses g))"

definition inline_state_nodes :: "guest_input \<Rightarrow> witness_state_node list" where
  "inline_state_nodes g = concat (map (\<lambda>w. ew_state (si_witness w)) (gi_witnesses g))"

text \<open>Append the nodes whose hash is not known yet.\<close>

fun push_unknown :: "b256 set \<Rightarrow> witness_state_node list \<Rightarrow> witness_state_node list \<Rightarrow> witness_state_node list" where
  "push_unknown known pool [] = pool"
| "push_unknown known pool (n # ns) =
     (if wn_hash n \<in> known then push_unknown known pool ns
      else push_unknown (insert (wn_hash n) known) (pool @ [n]) ns)"

definition state_pool :: "guest_input \<Rightarrow> witness_state_node list" where
  "state_pool g =
     (if has_positional_proposal_state_pool g then
        push_unknown (set (map wn_hash (gi_proposal_state_nodes g))) (gi_proposal_state_nodes g)
          (canonicalize_state_nodes (inline_state_nodes g))
      else canonicalize_state_nodes (gi_proposal_state_nodes g @ inline_state_nodes g))"

fun index_nodes ::
    "nat \<Rightarrow> witness_state_node list \<Rightarrow> (b256 \<Rightarrow> u32 option) \<Rightarrow> (unit, b256 \<Rightarrow> u32 option) outcome" where
  "index_nodes i [] m = Ok m"
| "index_nodes i (n # ns) m =
     (case m (wn_hash n) of
        Some _ \<Rightarrow> index_nodes (Suc i) ns m
      | None \<Rightarrow>
          if i < 2 ^ 32 then index_nodes (Suc i) ns (m(wn_hash n \<mapsto> of_nat i))
          else Panic ''proposal state pool index exceeds u32'')"

definition witness_indices :: "(b256 \<Rightarrow> u32 option) \<Rightarrow> stateless_input \<Rightarrow> u32 list" where
  "witness_indices index_by_hash w =
     (if ew_state_indices (si_witness w) = [] then
        canonicalize_state_indices
          (List.map_filter (\<lambda>n. index_by_hash (wn_hash n)) (ew_state (si_witness w)))
      else ew_state_indices (si_witness w))"

definition initial_proposal_state_pool ::
    "guest_input \<Rightarrow> (unit, witness_state_node list \<times> u32 list list) outcome" where
  "initial_proposal_state_pool g =
     (let pool = state_pool g
      in if pool = [] then Ok (pool, replicate (length (gi_witnesses g)) [])
         else bind_outcome (index_nodes 0 pool Map.empty) (\<lambda>index_by_hash.
                Ok (pool, map (witness_indices index_by_hash) (gi_witnesses g))))"

definition set_indices :: "stateless_input \<Rightarrow> u32 list \<Rightarrow> stateless_input" where
  "set_indices w is = w\<lparr>si_witness := (si_witness w)\<lparr>ew_state := [], ew_state_indices := is\<rparr>\<rparr>"

definition compact_proposal_state_nodes :: "guest_input \<Rightarrow> (unit, guest_input) outcome" where
  "compact_proposal_state_nodes g =
     bind_outcome (initial_proposal_state_pool g) (\<lambda>(pool, indices).
       if pool = [] then Ok g
       else Ok (g\<lparr>gi_proposal_state_nodes := pool,
                  gi_witnesses := map2 set_indices (gi_witnesses g) indices\<rparr>))"

definition compact_proposal_witness_data :: "guest_input \<Rightarrow> (unit, guest_input) outcome" where
  "compact_proposal_witness_data g = compact_proposal_state_nodes (compact_proposal_ancestor_headers g)"

section \<open>The wire form\<close>

text \<open>
  \<open>GuestInputSerde\<close> has the fields of the input. Before writing it is compacted, after
  reading its headers and a pool without positions are put into canonical order.
\<close>

definition guest_input_to_serde :: "guest_input \<Rightarrow> (unit, guest_input) outcome" where
  "guest_input_to_serde g =
     bind_outcome (initial_proposal_state_pool g) (\<lambda>(pool, indices).
       let headers = initial_proposal_ancestor_headers g;
           ws = (if headers \<noteq> [] then map clear_headers (gi_witnesses g) else gi_witnesses g);
           ws = (if pool \<noteq> [] then map2 set_indices ws indices else ws)
       in Ok (g\<lparr>gi_witnesses := ws, gi_proposal_ancestor_headers := headers,
                gi_proposal_state_nodes := pool\<rparr>))"

definition guest_input_from_serde :: "guest_input \<Rightarrow> guest_input" where
  "guest_input_from_serde v =
     (let v1 = (if gi_proposal_ancestor_headers v \<noteq> []
                then v\<lparr>gi_proposal_ancestor_headers := canonicalize_headers (gi_proposal_ancestor_headers v)\<rparr>
                else v)
      in if gi_proposal_state_nodes v1 \<noteq> [] \<and> \<not> has_positional_proposal_state_pool v1
         then v1\<lparr>gi_proposal_state_nodes := canonicalize_state_nodes (gi_proposal_state_nodes v1)\<rparr>
         else v1)"

text \<open>Its headers, nodes and witnesses have the wire forms of the format.\<close>

record stateless_input_wire =
  sw_block :: block
  sw_chain_spec :: chain_spec
  sw_witness :: execution_witness_wire

record guest_input_wire =
  gw_witnesses :: "stateless_input_wire list"
  gw_taiko :: taiko_manifest
  gw_proposal_ancestor_headers :: "header_wire list"
  gw_proposal_state_nodes :: "node_wire list"
  gw_proof_carry_data :: proof_carry_data

definition serialize_stateless_input :: "wire_format \<Rightarrow> stateless_input \<Rightarrow> (unit, stateless_input_wire) outcome" where
  "serialize_stateless_input fmt w =
     bind_outcome (serialize_witness fmt (si_witness w)) (\<lambda>x.
     Ok \<lparr>sw_block = si_block w, sw_chain_spec = si_chain_spec w, sw_witness = x\<rparr>)"

definition deserialize_stateless_input ::
    "wire_format \<Rightarrow> (bytes \<Rightarrow> b256) \<Rightarrow> (header \<Rightarrow> b256) \<Rightarrow> (bytes \<Rightarrow> header option)
      \<Rightarrow> stateless_input_wire \<Rightarrow> (unit, stateless_input) outcome" where
  "deserialize_stateless_input fmt keccak256 hash_slow header_decode v =
     bind_outcome (deserialize_witness fmt keccak256 hash_slow header_decode (sw_witness v)) (\<lambda>x.
     Ok \<lparr>si_block = sw_block v, si_chain_spec = sw_chain_spec v, si_witness = x\<rparr>)"

definition serialize_guest_input_serde :: "wire_format \<Rightarrow> guest_input \<Rightarrow> (unit, guest_input_wire) outcome" where
  "serialize_guest_input_serde fmt v =
     bind_outcome (try_map (serialize_stateless_input fmt) (gi_witnesses v)) (\<lambda>ws.
     bind_outcome (try_map (serialize_header fmt) (gi_proposal_ancestor_headers v)) (\<lambda>hs.
     Ok \<lparr>gw_witnesses = ws, gw_taiko = gi_taiko v, gw_proposal_ancestor_headers = hs,
         gw_proposal_state_nodes = map (serialize_node fmt) (gi_proposal_state_nodes v),
         gw_proof_carry_data = gi_proof_carry_data v\<rparr>))"

definition deserialize_guest_input_serde ::
    "wire_format \<Rightarrow> (bytes \<Rightarrow> b256) \<Rightarrow> (header \<Rightarrow> b256) \<Rightarrow> (bytes \<Rightarrow> header option)
      \<Rightarrow> guest_input_wire \<Rightarrow> (unit, guest_input) outcome" where
  "deserialize_guest_input_serde fmt keccak256 hash_slow header_decode v =
     bind_outcome (try_map (deserialize_stateless_input fmt keccak256 hash_slow header_decode) (gw_witnesses v)) (\<lambda>ws.
     bind_outcome (try_map (deserialize_header hash_slow header_decode) (gw_proposal_ancestor_headers v)) (\<lambda>hs.
     Ok \<lparr>gi_witnesses = ws, gi_taiko = gw_taiko v, gi_proposal_ancestor_headers = hs,
         gi_proposal_state_nodes = map (deserialize_node keccak256) (gw_proposal_state_nodes v),
         gi_proof_carry_data = gw_proof_carry_data v\<rparr>))"

definition serialize_guest_input :: "wire_format \<Rightarrow> guest_input \<Rightarrow> (unit, guest_input_wire) outcome" where
  "serialize_guest_input fmt g = bind_outcome (guest_input_to_serde g) (serialize_guest_input_serde fmt)"

definition deserialize_guest_input ::
    "wire_format \<Rightarrow> (bytes \<Rightarrow> b256) \<Rightarrow> (header \<Rightarrow> b256) \<Rightarrow> (bytes \<Rightarrow> header option)
      \<Rightarrow> guest_input_wire \<Rightarrow> (unit, guest_input) outcome" where
  "deserialize_guest_input fmt keccak256 hash_slow header_decode v =
     bind_outcome (deserialize_guest_input_serde fmt keccak256 hash_slow header_decode v)
       (\<lambda>x. Ok (guest_input_from_serde x))"

end
