(* ===== verification/Predeploy.thy ===== *)
theory Predeploy
  imports Bytes
begin

text \<open>
  Addresses and storage slots of the Shasta predeploys
  (\<open>crates/primitives/src/chain_spec.rs\<close>). An address is written as the decimal digits of the
  chain id, zeros, and a suffix, forty hexadecimal digits in all, so each decimal digit is
  one nibble.
\<close>

definition SHASTA_SIGNAL_SERVICE_CHECKPOINTS_SLOT :: u64 where
  "SHASTA_SIGNAL_SERVICE_CHECKPOINTS_SLOT = 254"

definition SHASTA_TAIKO_L2_ADDRESS_SUFFIX :: "nat list" where
  "SHASTA_TAIKO_L2_ADDRESS_SUFFIX = [1, 0, 0, 0, 1]"

definition SHASTA_CHECKPOINT_STORE_ADDRESS_SUFFIX :: "nat list" where
  "SHASTA_CHECKPOINT_STORE_ADDRESS_SUFFIX = [5]"

definition shasta_checkpoint_storage_slots :: "(bytes \<Rightarrow> b256) \<Rightarrow> u64 \<Rightarrow> b256 \<times> b256" where
  "shasta_checkpoint_storage_slots keccak256 block_number =
     (let encoded = be_bytes 32 (ucast block_number :: b256)
                    @ be_bytes 32 (ucast SHASTA_SIGNAL_SERVICE_CHECKPOINTS_SLOT :: b256);
          block_hash_slot = from_be_bytes (as_slice (keccak256 encoded))
      in (block_hash_slot, block_hash_slot + 1))"

definition storage_slot_key :: "b256 \<Rightarrow> b256" where
  "storage_slot_key slot = from_be_bytes (be_bytes 32 slot)"

text \<open>\<open>to_string\<close> of a number, and the parser of a forty-digit hexadecimal address.\<close>

fun dec_nibbles :: "nat \<Rightarrow> nat list" where
  "dec_nibbles n = (if n < 10 then [n] else dec_nibbles (n div 10) @ [n mod 10])"

declare dec_nibbles.simps [simp del]

definition address_from_nibbles :: "nat list \<Rightarrow> address option" where
  "address_from_nibbles ns =
     (if length ns = 40 \<and> list_all (\<lambda>d. d < 16) ns
      then Some (of_nat (foldl (\<lambda>a d. 16 * a + d) 0 ns)) else None)"

datatype predeploy_error = ChainIdZero | ChainIdTooLong u64 | AddressParse

definition shasta_predeploy_address :: "u64 \<Rightarrow> nat list \<Rightarrow> (predeploy_error, address) outcome" where
  "shasta_predeploy_address chain_id suffix =
     (if chain_id = 0 then Err ChainIdZero
      else let prefix = dec_nibbles (unat chain_id);
               used = length prefix + length suffix
           in if \<not> used \<le> 40 then Err (ChainIdTooLong chain_id)
              else ok_or (address_from_nibbles (prefix @ replicate (40 - used) 0 @ suffix)) AddressParse)"

definition shasta_taiko_l2_address :: "u64 \<Rightarrow> (predeploy_error, address) outcome" where
  "shasta_taiko_l2_address chain_id = shasta_predeploy_address chain_id SHASTA_TAIKO_L2_ADDRESS_SUFFIX"

definition shasta_checkpoint_store_address :: "u64 \<Rightarrow> (predeploy_error, address) outcome" where
  "shasta_checkpoint_store_address chain_id =
     shasta_predeploy_address chain_id SHASTA_CHECKPOINT_STORE_ADDRESS_SUFFIX"

section \<open>Every chain has its predeploys\<close>

lemma dec_nibbles_digits: "\<forall>d \<in> set (dec_nibbles n). d < 10"
proof (induction n rule: dec_nibbles.induct)
  case (1 n)
  then show ?case by (subst dec_nibbles.simps) (auto split: if_splits)
qed

lemma length_dec_nibbles: "0 < k \<Longrightarrow> n < 10 ^ k \<Longrightarrow> length (dec_nibbles n) \<le> k"
proof (induction n arbitrary: k rule: dec_nibbles.induct)
  case (1 n)
  show ?case
  proof (cases "n < 10")
    case True
    then show ?thesis using 1 by (subst dec_nibbles.simps) simp
  next
    case False
    then obtain j where k: "k = Suc (Suc j)"
      using 1 by (cases k; cases "k - 1") auto
    then have "length (dec_nibbles (n div 10)) \<le> Suc j"
      using 1 False by (intro "1.IH") (auto simp: less_mult_imp_div_less)
    then show ?thesis using False k by (subst dec_nibbles.simps) simp
  qed
qed

lemma shasta_predeploy_address_defined:
  assumes "chain_id \<noteq> 0" "length suffix \<le> 20" "list_all (\<lambda>d. d < 16) suffix"
  shows "\<exists>a. shasta_predeploy_address chain_id suffix = Ok a"
proof -
  have "unat chain_id < 10 ^ 20" using unat_lt2p [of chain_id] by simp
  then have "length (dec_nibbles (unat chain_id)) \<le> 20" by (intro length_dec_nibbles) simp_all
  moreover have "list_all (\<lambda>d. d < 16) (dec_nibbles (unat chain_id))"
    using dec_nibbles_digits [of "unat chain_id"] by (fastforce simp: list_all_iff)
  ultimately show ?thesis
    using assms
    by (auto simp: shasta_predeploy_address_def Let_def address_from_nibbles_def list_all_iff)
qed

end
