(* ===== verification/Derivation_Facts.thy ===== *)
theory Derivation_Facts
  imports Derivation
begin

text \<open>
  What the derivation of source manifests guarantees: the metadata rules that an accepted
  manifest satisfies, written over natural numbers; when the derivation fails; that it
  never panics; the shape of the manifest it returns; and that the anchors of a derived
  normal source are always accepted by the anchor rules of the proof.
\<close>

section \<open>Gas limits\<close>

lemma unat_ucast_u128 [simp]: "unat (ucast (x :: u64) :: u128) = unat x"
proof -
  have "unat x < 2 ^ 128" using unat_lt2p [of x] by simp
  then show ?thesis by (simp add: unsigned_ucast_eq take_bit_nat_eq_self)
qed

lemma unat_min: "unat (min a b) = min (unat a) (unat b)"
  by (simp add: min_def word_le_nat_alt)

lemma unat_max: "unat (max a b) = max (unat a) (unat b)"
  by (simp add: max_def word_le_nat_alt)

lemma u64_try_from_Some:
  assumes "unat x < 2 ^ 64"
  obtains y where "u64_try_from x = Some y" "unat y = unat x"
proof
  show "u64_try_from x = Some (ucast x)" using assms by (simp add: u64_try_from_def)
  show "unat (ucast x :: u64) = unat x"
    using assms by (simp add: unsigned_ucast_eq take_bit_nat_eq_self)
qed

text \<open>The bounds as natural numbers; \<open>gas_up\<close> and \<open>gas_low\<close> are the rules of the protocol.\<close>

definition gas_up :: "'tx protocol \<Rightarrow> nat \<Rightarrow> nat" where
  "gas_up pr g = min (g * (unat (GAS_LIMIT_DENOMINATOR pr) + unat (BLOCK_GAS_LIMIT_MAX_CHANGE pr))
                        div unat (GAS_LIMIT_DENOMINATOR pr))
                     (unat (MAX_BLOCK_GAS_LIMIT pr))"

definition gas_low :: "'tx protocol \<Rightarrow> nat \<Rightarrow> nat" where
  "gas_low pr g = min (max (g * (unat (GAS_LIMIT_DENOMINATOR pr) - unat (BLOCK_GAS_LIMIT_MAX_CHANGE pr))
                              div unat (GAS_LIMIT_DENOMINATOR pr))
                           (unat (MIN_BLOCK_GAS_LIMIT pr)))
                      (gas_up pr g)"

definition protocol_ok :: "'tx protocol \<Rightarrow> bool" where
  "protocol_ok pr =
     (GAS_LIMIT_DENOMINATOR pr \<noteq> 0
      \<and> unat (GAS_LIMIT_DENOMINATOR pr) + unat (BLOCK_GAS_LIMIT_MAX_CHANGE pr) < 2 ^ 64
      \<and> manifest_is_default (default_manifest pr))"

lemma gas_limit_bounds_defined:
  assumes "GAS_LIMIT_DENOMINATOR pr \<noteq> 0"
  obtains lo hi where "gas_limit_bounds pr g = Ok (lo, hi)"
    "unat hi = min (unat (saturating_mul (ucast g :: u128) (saturating_add
        (ucast (GAS_LIMIT_DENOMINATOR pr)) (ucast (BLOCK_GAS_LIMIT_MAX_CHANGE pr)))
        div ucast (GAS_LIMIT_DENOMINATOR pr))) (unat (MAX_BLOCK_GAS_LIMIT pr))"
    "unat lo = min (max (unat (saturating_mul (ucast g :: u128) (saturating_sub
        (ucast (GAS_LIMIT_DENOMINATOR pr)) (ucast (BLOCK_GAS_LIMIT_MAX_CHANGE pr)))
        div ucast (GAS_LIMIT_DENOMINATOR pr))) (unat (MIN_BLOCK_GAS_LIMIT pr))) (unat hi)"
proof -
  let ?d = "ucast (GAS_LIMIT_DENOMINATOR pr) :: u128"
  have d: "?d \<noteq> 0" using assms by (simp add: word_unat_eq_iff)
  let ?u = "min (saturating_mul (ucast g) (saturating_add ?d (ucast (BLOCK_GAS_LIMIT_MAX_CHANGE pr))) div ?d)
              (ucast (MAX_BLOCK_GAS_LIMIT pr))"
  have "unat ?u < 2 ^ 64"
    using unat_lt2p [of "MAX_BLOCK_GAS_LIMIT pr"] by (simp add: unat_min min_less_iff_disj)
  then obtain hi where hi: "u64_try_from ?u = Some hi" "unat hi = unat ?u"
    by (rule u64_try_from_Some)
  let ?l = "min (max (saturating_mul (ucast g) (saturating_sub ?d (ucast (BLOCK_GAS_LIMIT_MAX_CHANGE pr))) div ?d)
              (ucast (MIN_BLOCK_GAS_LIMIT pr))) (ucast hi)"
  have "unat ?l < 2 ^ 64"
    using unat_lt2p [of hi] by (simp add: unat_min min_less_iff_disj)
  then obtain lo where lo: "u64_try_from ?l = Some lo" "unat lo = unat ?l"
    by (rule u64_try_from_Some)
  show ?thesis
  proof (rule that)
    show "gas_limit_bounds pr g = Ok (lo, hi)"
      using d hi(1) lo(1) by (simp add: gas_limit_bounds_def Let_def)
  qed (use hi(2) lo(2) in \<open>simp_all add: unat_min unat_max\<close>)
qed

lemma mul_below_u128: "a < 2 ^ 64 \<Longrightarrow> b < 2 ^ 64 \<Longrightarrow> a * b < (2 :: nat) ^ 128"
  using mult_strict_mono [of a "2 ^ 64" b "2 ^ 64"] by simp

lemma gas_limit_bounds_Ok_iff:
  assumes "protocol_ok pr"
  shows "gas_limit_bounds pr g = Ok (lo, hi) \<longleftrightarrow>
           unat lo = gas_low pr (unat g) \<and> unat hi = gas_up pr (unat g)"
proof -
  let ?D = "unat (GAS_LIMIT_DENOMINATOR pr)" and ?C = "unat (BLOCK_GAS_LIMIT_MAX_CHANGE pr)"
  have ok: "GAS_LIMIT_DENOMINATOR pr \<noteq> 0" "?D + ?C < 2 ^ 64"
    using assms by (simp_all add: protocol_ok_def)
  obtain lo' hi' where b: "gas_limit_bounds pr g = Ok (lo', hi')"
    "unat hi' = min (unat (saturating_mul (ucast g :: u128) (saturating_add
        (ucast (GAS_LIMIT_DENOMINATOR pr)) (ucast (BLOCK_GAS_LIMIT_MAX_CHANGE pr)))
        div ucast (GAS_LIMIT_DENOMINATOR pr))) (unat (MAX_BLOCK_GAS_LIMIT pr))"
    "unat lo' = min (max (unat (saturating_mul (ucast g :: u128) (saturating_sub
        (ucast (GAS_LIMIT_DENOMINATOR pr)) (ucast (BLOCK_GAS_LIMIT_MAX_CHANGE pr)))
        div ucast (GAS_LIMIT_DENOMINATOR pr))) (unat (MIN_BLOCK_GAS_LIMIT pr))) (unat hi')"
    using gas_limit_bounds_defined [OF ok(1), of g] by blast
  have "unat g < 2 ^ 64" using unat_lt2p [of g] by simp
  then have "unat g * (?D + ?C) < 2 ^ 128" "unat g * (?D - ?C) < 2 ^ 128"
    using ok(2) by (simp_all only: mul_below_u128 add_lessD1 less_imp_diff_less)
  moreover have "?D + ?C < 2 ^ 128" using ok(2) by simp
  ultimately have "unat hi' = gas_up pr (unat g)" "unat lo' = gas_low pr (unat g)"
    unfolding b(2,3) gas_low_def gas_up_def by (simp_all add: unat_div sat_simps)
  then show ?thesis using b(1) by (auto simp: word_unat_eq_iff)
qed

lemma validate_gas_limit_from_Ok:
  assumes "protocol_ok pr"
  shows "validate_gas_limit_from pr g bs = Ok (successively
           (\<lambda>g h. gas_low pr g \<le> h \<and> h \<le> gas_up pr g) (map unat (g # map bm_gas_limit bs)))"
proof (induction bs arbitrary: g)
  case Nil
  then show ?case by simp
next
  case (Cons b bs)
  have d: "GAS_LIMIT_DENOMINATOR pr \<noteq> 0" using assms by (simp add: protocol_ok_def)
  obtain lo hi where b: "gas_limit_bounds pr g = Ok (lo, hi)"
    using gas_limit_bounds_defined [OF d, of g] by blast
  then have "unat lo = gas_low pr (unat g)" "unat hi = gas_up pr (unat g)"
    using gas_limit_bounds_Ok_iff [OF assms] by simp_all
  then show ?case
    using Cons.IH [of "bm_gas_limit b"] by (simp add: b word_less_nat_alt)
qed

lemma validate_gas_limit_from_no_panic:
  "GAS_LIMIT_DENOMINATOR pr \<noteq> 0 \<Longrightarrow> \<not> panics (validate_gas_limit_from pr g bs)"
proof (induction bs arbitrary: g)
  case (Cons b bs)
  obtain lo hi where "gas_limit_bounds pr g = Ok (lo, hi)"
    using gas_limit_bounds_defined [OF Cons.prems, of g] by blast
  then show ?case using Cons by simp
qed simp

section \<open>Timestamps\<close>

definition timestamp_rule :: "'tx protocol \<Rightarrow> u64 \<Rightarrow> u64 \<Rightarrow> u64 \<Rightarrow> nat \<Rightarrow> nat \<Rightarrow> bool" where
  "timestamp_rule pr proposal_ts fork_ts chain_id s t =
     (min (s + 1) (2 ^ 64 - 1) \<le> t \<and> unat fork_ts \<le> t \<and> t \<le> unat proposal_ts
      \<and> unat proposal_ts \<le> t + unat (timestamp_max_offset_for_chain pr chain_id))"

lemma unat_timestamp_lower_bound:
  "unat (compute_timestamp_lower_bound pr s p f c) =
     max (max (min (unat s + 1) (2 ^ 64 - 1)) (unat p - unat (timestamp_max_offset_for_chain pr c))) (unat f)"
  by (auto simp: compute_timestamp_lower_bound_def Let_def unat_max sat_simps unat_sub
      word_le_nat_alt word_less_nat_alt)

lemma validate_timestamps_from_iff:
  "validate_timestamps_from pr s p f c bs \<longleftrightarrow>
     successively (timestamp_rule pr p f c) (map unat (s # map bm_timestamp bs))"
  by (induction bs arbitrary: s)
    (auto simp: Let_def timestamp_rule_def not_less not_le word_le_nat_alt word_less_nat_alt
      unat_timestamp_lower_bound)

section \<open>Anchors\<close>

lemma anchor_numbers_from_Some:
  assumes "p \<le> h"
  shows "anchor_numbers_from t off p h bs = Some k \<longleftrightarrow>
     sorted (p # map bm_anchor_block_number bs)
     \<and> (\<forall>a \<in> set (map bm_anchor_block_number bs). a \<le> t \<and> unat t \<le> unat a + unat off)
     \<and> k = max h (last (p # map bm_anchor_block_number bs))"
  using assms
proof (induction bs arbitrary: p h)
  case Nil
  then show ?case by (auto simp: max_def)
next
  case (Cons b bs)
  let ?a = "bm_anchor_block_number b"
  let ?as = "map bm_anchor_block_number bs"
  have win: "(off < t \<and> ?a < t - off) \<longleftrightarrow> \<not> unat t \<le> unat ?a + unat off"
    by (auto simp: word_less_nat_alt unat_sub word_le_nat_alt)
  show ?case
  proof (cases "p \<le> ?a \<and> ?a \<le> t \<and> unat t \<le> unat ?a + unat off")
    case True
    let ?h = "if h < ?a then ?a else h"
    have step: "anchor_numbers_from t off p h (b # bs) = anchor_numbers_from t off ?a ?h bs"
      using True win by (auto simp: Let_def not_less)
    have hmax: "max ?h (last (?a # ?as)) = max h (last (p # ?a # ?as))" if "sorted (?a # ?as)"
      using sorted_le_last [OF that, of ?a] by (auto simp: max_def split: if_splits)
    have "sorted (p # ?a # ?as) \<longleftrightarrow> sorted (?a # ?as)"
      using True by (auto intro: order.trans)
    with True hmax show ?thesis
      unfolding step by (subst Cons.IH) auto
  next
    case False
    then show ?thesis using win by (auto simp: Let_def not_le)
  qed
qed

lemma validate_anchor_numbers_iff:
  "validate_anchor_numbers pr m t p forced c \<longleftrightarrow>
     sorted (p # map bm_anchor_block_number (sm_blocks m))
     \<and> (\<forall>a \<in> set (map bm_anchor_block_number (sm_blocks m)).
          a \<le> t \<and> unat t \<le> unat a + unat (max_anchor_offset_for_chain pr c))
     \<and> (forced \<or> p < last (p # map bm_anchor_block_number (sm_blocks m)))"
proof (cases "anchor_numbers_from t (max_anchor_offset_for_chain pr c) p p (sm_blocks m)")
  case None
  then show ?thesis
    using anchor_numbers_from_Some [of p p t "max_anchor_offset_for_chain pr c" "sm_blocks m"]
    by (auto simp: validate_anchor_numbers_def)
next
  case (Some k)
  then show ?thesis
    using anchor_numbers_from_Some [of p p t "max_anchor_offset_for_chain pr c" "sm_blocks m" k]
    by (auto simp: validate_anchor_numbers_def max_def split: if_splits)
qed

section \<open>What an accepted manifest satisfies\<close>

text \<open>
  C21: The validation of a source manifest accepts it exactly when it has a block; each
  timestamp follows its predecessor by at least one second, is not before the fork and lies
  in the window of the chain up to the proposal's timestamp; the anchors never decrease,
  stay in the anchor window below the origin block and, unless the source is a forced
  inclusion, move beyond the parent's anchor; and each gas limit is within the permitted
  change of its predecessor, the first one being compared with the parent's limit without
  the gas reserved for the anchor transaction. The arithmetic does not wrap.
\<close>

theorem validate_source_manifest_exact:
  assumes "protocol_ok pr"
  shows "validate_source_manifest pr m ctx = Ok () \<longleftrightarrow>
     sm_blocks m \<noteq> []
     \<and> successively (timestamp_rule pr (vc_proposal_timestamp ctx) (vc_fork_timestamp ctx) (vc_chain_id ctx))
         (map unat (vc_parent_timestamp ctx # map bm_timestamp (sm_blocks m)))
     \<and> sorted (vc_parent_anchor_block_number ctx # map bm_anchor_block_number (sm_blocks m))
     \<and> (\<forall>b \<in> set (sm_blocks m). bm_anchor_block_number b \<le> vc_origin_block_number ctx
          \<and> unat (vc_origin_block_number ctx)
              \<le> unat (bm_anchor_block_number b) + unat (max_anchor_offset_for_chain pr (vc_chain_id ctx)))
     \<and> (vc_is_forced_inclusion ctx
         \<or> vc_parent_anchor_block_number ctx < bm_anchor_block_number (last (sm_blocks m)))
     \<and> successively (\<lambda>g h. gas_low pr g \<le> h \<and> h \<le> gas_up pr g)
         (map unat (effective_parent_gas_limit pr (vc_parent_block_number ctx) (vc_parent_gas_limit ctx)
                    # map bm_gas_limit (sm_blocks m)))"
  unfolding validate_source_manifest_def block_count_def validate_timestamps_def
    validate_timestamps_from_iff validate_anchor_numbers_iff validate_gas_limit_def
    validate_gas_limit_from_Ok [OF assms]
  by (auto simp: last_map)

text \<open>
  A concrete protocol: the limits of the Taiko protocol, and a codec that accepts every
  blob and decodes one manifest of two blocks.
\<close>

definition example_manifest :: "nat source_manifest" where
  "example_manifest = \<lparr>sm_blocks =
     [\<lparr>bm_timestamp = 5000, bm_coinbase = 9, bm_anchor_block_number = 1100,
       bm_gas_limit = 30000000, bm_transactions = [1]\<rparr>,
      \<lparr>bm_timestamp = 5012, bm_coinbase = 9, bm_anchor_block_number = 1120,
       bm_gas_limit = 30001000, bm_transactions = [2, 3]\<rparr>]\<rparr>"

definition example_protocol :: "nat protocol" where
  "example_protocol =
     \<lparr>GAS_LIMIT_DENOMINATOR = 1000000, BLOCK_GAS_LIMIT_MAX_CHANGE = 200,
      MAX_BLOCK_GAS_LIMIT = 45000000, MIN_BLOCK_GAS_LIMIT = 10000000,
      ANCHOR_V3_V4_GAS_LIMIT = 1000000, UNZEN_DERIVATION_SOURCE_MAX_BLOCKS = 192,
      BYTES_PER_BLOB = 131072,
      max_anchor_offset_for_chain = anchor_max_offset_for_chain,
      timestamp_max_offset_for_chain = (\<lambda>_. 1536),
      default_manifest = \<lparr>sm_blocks = [\<lparr>bm_timestamp = 0, bm_coinbase = 0,
        bm_anchor_block_number = 0, bm_gas_limit = 0, bm_transactions = []\<rparr>]\<rparr>,
      decode_blobs = Some,
      decompress_and_decode_with_max_blocks = (\<lambda>_ _ _. Some example_manifest)\<rparr>"

lemma example_protocol_ok: "protocol_ok example_protocol"
  by (simp add: protocol_ok_def example_protocol_def manifest_is_default_def)

definition example_parent :: parent_block_context where
  "example_parent = \<lparr>pb_timestamp = 4990, pb_gas_limit = 31000000, pb_block_number = 41,
     pb_anchor_block_number = 1000\<rparr>"

definition example_meta :: proposal_metadata where
  "example_meta = \<lparr>pm_proposal_timestamp = 5100, pm_origin_block_number = 1200,
     pm_proposer = 7, pm_chain_id = 7\<rparr>"

definition example_source :: derivation_source where
  "example_source = \<lparr>is_forced_inclusion = False,
     blob_slice_of = \<lparr>blob_hashes = [1], blob_offset = 0, blob_timestamp = 5100\<rparr>\<rparr>"

definition example_blob :: "nat \<Rightarrow> bytes" where
  "example_blob n = replicate n 0"

lemma length_example_blob [simp]: "length (example_blob n) = n"
  by (simp add: example_blob_def)

definition example_data :: input_data_source where
  "example_data = \<lparr>tx_data_from_calldata = [], tx_data_from_blob = [example_blob 131072],
     blob_commitments = [[]], blob_proofs = [[]], ds_is_forced_inclusion = False\<rparr>"

lemmas example_defs = example_manifest_def example_protocol_def example_parent_def example_meta_def
  example_source_def example_data_def

theorem validate_source_manifest_exact_witness:
  "validate_source_manifest example_protocol example_manifest
     (source_context example_source example_parent example_meta 0) = Ok ()"
  by (subst validate_source_manifest_exact [OF example_protocol_ok])
    (simp add: example_defs source_context_def timestamp_rule_def gas_low_def gas_up_def
      effective_parent_gas_limit_def saturating_sub_def anchor_max_offset_for_chain_def
      TAIKO_MAINNET_CHAIN_ID_def ANCHOR_MAX_OFFSET_def)

section \<open>When the derivation fails\<close>

lemma try_fold_check_blob_length:
  "try_fold (check_blob_length pr) bs (enumerate n raws) =
     (case find (\<lambda>(i, raw). length raw \<noteq> BYTES_PER_BLOB pr) (enumerate n raws) of
        None \<Rightarrow> Ok (bs @ raws)
      | Some (i, raw) \<Rightarrow> Err (InvalidBlobLength i (length raw) (BYTES_PER_BLOB pr)))"
  by (induction raws arbitrary: bs n) (auto simp: check_blob_length_def split: option.splits)

lemma find_enumerate_Some_iff:
  "find (\<lambda>(i, x). P x) (enumerate 0 xs) = Some (i, x) \<longleftrightarrow>
     i < length xs \<and> x = xs ! i \<and> P x \<and> (\<forall>j < i. \<not> P (xs ! j))"
  by (auto simp: find_Some_iff nth_enumerate_eq)

lemma find_enumerate_None_iff:
  "find (\<lambda>(i, x). P x) (enumerate n xs) = None \<longleftrightarrow> (\<forall>x \<in> set xs. \<not> P x)"
  by (induction xs arbitrary: n) auto

lemma validate_source_manifest_no_panic:
  "GAS_LIMIT_DENOMINATOR pr \<noteq> 0 \<Longrightarrow> \<not> panics (validate_source_manifest pr m ctx)"
  using validate_gas_limit_from_no_panic
  by (auto simp: validate_source_manifest_def validate_gas_limit_def panics_bind_iff)

lemma prepare_result:
  assumes "protocol_ok pr"
  shows "prepare_source_manifest_with_max_blocks pr src ds parent meta f n = Err e \<longleftrightarrow>
           source_payload pr src ds n = Err e" (is ?err)
    and "panics (prepare_source_manifest_with_max_blocks pr src ds parent meta f n) \<longleftrightarrow>
           panics (source_payload pr src ds n)" (is ?panic)
proof -
  have np: "\<not> panics (validate_source_manifest pr m ctx)" for m ctx
    using assms validate_source_manifest_no_panic by (auto simp: protocol_ok_def)
  have "\<exists>x. (case validate_source_manifest pr m ctx of Ok x \<Rightarrow> Ok a | Err x \<Rightarrow> Ok b | Panic p \<Rightarrow> Panic p)
      = (Ok x :: (source_derivation_error, 'a source_manifest) outcome)" for m ctx a b
    using np [of m ctx] by (cases "validate_source_manifest pr m ctx") auto
  then have "\<exists>x. prepare_source_manifest_with_max_blocks pr src ds parent meta f n = Ok x"
    if "source_payload pr src ds n = Ok m" for m
    using that by (auto simp: prepare_source_manifest_with_max_blocks_def Let_def)
  then show ?err ?panic
    by (cases "source_payload pr src ds n";
        force simp: prepare_source_manifest_with_max_blocks_def)+
qed

definition source_blobs :: "input_data_source option \<Rightarrow> bytes list" where
  "source_blobs ds = (case ds of None \<Rightarrow> [] | Some d \<Rightarrow> tx_data_from_blob d)"

lemma decode_blob_backed_Err_iff:
  "decode_blob_backed_manifest pr d off n = Err e \<longleftrightarrow>
     (case e of
        InlinePayloadUnsupported \<Rightarrow> False
      | MissingBlobData \<Rightarrow> tx_data_from_blob d = []
      | InvalidBlobLength i l k \<Rightarrow> k = BYTES_PER_BLOB pr \<and> i < length (tx_data_from_blob d)
          \<and> l = length (tx_data_from_blob d ! i) \<and> l \<noteq> k
          \<and> (\<forall>j < i. length (tx_data_from_blob d ! j) = k))"
proof (cases "find (\<lambda>(i, raw). length raw \<noteq> BYTES_PER_BLOB pr) (enumerate 0 (tx_data_from_blob d))")
  case None
  then have all: "\<forall>raw \<in> set (tx_data_from_blob d). length raw = BYTES_PER_BLOB pr"
    using find_enumerate_None_iff [of "\<lambda>raw. length raw \<noteq> BYTES_PER_BLOB pr"] by blast
  have "decode_blob_backed_manifest pr d off n = Err e \<longleftrightarrow> tx_data_from_blob d = [] \<and> e = MissingBlobData"
    by (auto simp: decode_blob_backed_manifest_def try_fold_check_blob_length None split: option.splits)
  with all show ?thesis by (cases e) auto
next
  case (Some ix)
  obtain i raw where ix: "ix = (i, raw)" by (cases ix)
  then have f: "i < length (tx_data_from_blob d)" "raw = tx_data_from_blob d ! i"
    "length raw \<noteq> BYTES_PER_BLOB pr" "\<forall>j < i. length (tx_data_from_blob d ! j) = BYTES_PER_BLOB pr"
    using Some find_enumerate_Some_iff [of "\<lambda>raw. length raw \<noteq> BYTES_PER_BLOB pr"] by auto
  have uniq: "i' = i" if "\<forall>j < i'. length (tx_data_from_blob d ! j) = BYTES_PER_BLOB pr"
    "length (tx_data_from_blob d ! i') \<noteq> BYTES_PER_BLOB pr" for i'
    using that f by (cases i' i rule: linorder_cases) auto
  have "tx_data_from_blob d \<noteq> []" using f(1) by auto
  then have "decode_blob_backed_manifest pr d off n = Err e \<longleftrightarrow>
      e = InvalidBlobLength i (length raw) (BYTES_PER_BLOB pr)"
    by (auto simp: decode_blob_backed_manifest_def try_fold_check_blob_length Some ix)
  then have iff: "decode_blob_backed_manifest pr d off n = Err e \<longleftrightarrow>
      e = InvalidBlobLength i (length (tx_data_from_blob d ! i)) (BYTES_PER_BLOB pr)"
    by (simp add: f(2))
  show ?thesis
  proof (cases e)
    case (InvalidBlobLength i' l k)
    show ?thesis
      using f(1,3,4) uniq [of i'] unfolding iff f(2)
      unfolding InvalidBlobLength source_derivation_error.simps by blast
  qed (use iff \<open>tx_data_from_blob d \<noteq> []\<close> in simp_all)
qed

lemma decode_blob_backed_no_panic: "\<not> panics (decode_blob_backed_manifest pr d off n)"
  by (auto simp: decode_blob_backed_manifest_def try_fold_check_blob_length panics_bind_iff
      split: option.splits)

lemma source_payload_no_panic: "\<not> panics (source_payload pr src ds n)"
  by (auto simp: source_payload_def panics_bind_iff ensure_no_inline_payload_def
      decode_blob_backed_no_panic split: option.splits)

text \<open>
  The derivation of a source fails exactly in three situations, and never panics: a
  source without blob hashes comes with payload bytes; a blob-backed source with a valid
  offset comes without blobs; or one of its blobs does not have the size of a blob, the
  error then naming the first such blob. Undecodable payloads, invalid offsets and invalid
  metadata are no failures.
\<close>

lemma prepare_source_manifest_errors:
  assumes "protocol_ok pr"
  shows "\<not> panics (prepare_source_manifest pr src ds parent meta fork_ts)
     \<and> (prepare_source_manifest pr src ds parent meta fork_ts = Err e \<longleftrightarrow>
         (case e of
            InlinePayloadUnsupported \<Rightarrow> blob_hashes (blob_slice_of src) = []
              \<and> (\<exists>d. ds = Some d \<and> (tx_data_from_calldata d \<noteq> [] \<or> tx_data_from_blob d \<noteq> []
                                    \<or> blob_commitments d \<noteq> [] \<or> blob_proofs d \<noteq> []))
          | MissingBlobData \<Rightarrow> blob_hashes (blob_slice_of src) \<noteq> []
              \<and> is_source_offset_valid pr src \<and> source_blobs ds = []
          | InvalidBlobLength i n k \<Rightarrow> blob_hashes (blob_slice_of src) \<noteq> []
              \<and> is_source_offset_valid pr src \<and> k = BYTES_PER_BLOB pr
              \<and> i < length (source_blobs ds) \<and> n = length (source_blobs ds ! i) \<and> n \<noteq> k
              \<and> (\<forall>j < i. length (source_blobs ds ! j) = k)))"
  unfolding prepare_source_manifest_def prepare_result [OF assms]
proof (intro conjI)
  show "\<not> panics (source_payload pr src ds (UNZEN_DERIVATION_SOURCE_MAX_BLOCKS pr))"
    by (rule source_payload_no_panic)
qed (cases ds; cases e; simp add: source_payload_def ensure_no_inline_payload_def
      decode_blob_backed_Err_iff source_blobs_def)

text \<open>A blob of 100 bytes where the second blob of a source should be.\<close>

section \<open>What the derivation returns\<close>

text \<open>The metadata that a forced or defaulted block inherits from its parent.\<close>

definition inherits :: "'tx protocol \<Rightarrow> parent_block_context \<Rightarrow> proposal_metadata \<Rightarrow> u64
    \<Rightarrow> 'tx block_manifest \<Rightarrow> bool" where
  "inherits pr parent meta fork_ts b =
     (bm_timestamp b = compute_timestamp_lower_bound pr (pb_timestamp parent)
        (pm_proposal_timestamp meta) fork_ts (pm_chain_id meta)
      \<and> bm_coinbase b = pm_proposer meta
      \<and> bm_anchor_block_number b = pb_anchor_block_number parent
      \<and> bm_gas_limit b = effective_parent_gas_limit pr (pb_block_number parent) (pb_gas_limit parent))"

lemma inherit_one:
  assumes "sm_blocks m = [b]"
  shows "\<exists>c. sm_blocks (apply_inherited_metadata pr m (inherited_input parent meta f)) = [c]
           \<and> inherits pr parent meta f c \<and> bm_transactions c = bm_transactions b"
  using assms by (simp add: apply_inherited_metadata_def inherited_input_def inherits_def Let_def)

lemma default_one:
  assumes "manifest_is_default m"
  obtains b where "sm_blocks m = [b]" "bm_transactions b = []"
  using assms by (auto simp: manifest_is_default_def split: list.splits)

lemma inherited_default:
  assumes "manifest_is_default m"
  shows "\<exists>c. sm_blocks (apply_inherited_metadata pr m (inherited_input parent meta f)) = [c]
           \<and> inherits pr parent meta f c \<and> bm_transactions c = []"
  by (rule default_one [OF assms]) (use inherit_one in fastforce)

lemma forced_one:
  assumes "manifest_is_default (default_manifest pr)"
  shows "\<exists>c. sm_blocks (apply_inherited_metadata pr
             (if length (sm_blocks m) \<noteq> 1 then default_manifest pr else m) (inherited_input parent meta f)) = [c]
           \<and> inherits pr parent meta f c"
proof (cases "length (sm_blocks m) = 1")
  case True
  then obtain b where "sm_blocks m = [b]" by (auto simp: length_Suc_conv)
  then show ?thesis using True inherit_one [of m b pr parent meta f] by auto
next
  case False
  then show ?thesis using inherited_default [OF assms, of pr parent meta f] by auto
qed

lemma prepare_cases:
  fixes pr :: "'tx protocol"
  assumes "prepare_source_manifest pr src ds parent meta fork_ts = Ok m"
  shows "validate_source_manifest pr m (source_context src parent meta fork_ts) = Ok ()
         \<and> (is_forced_inclusion src \<longrightarrow> (\<exists>m0. m = apply_inherited_metadata pr
              (if length (sm_blocks m0) \<noteq> 1 then default_manifest pr else m0)
              (inherited_input parent meta fork_ts)))
       \<or> m = apply_inherited_metadata pr (default_manifest pr) (inherited_input parent meta fork_ts)"
proof -
  let ?ctx = "source_context src parent meta fork_ts" and ?i = "inherited_input parent meta fork_ts"
  obtain m0 where m0: "source_payload pr src ds (UNZEN_DERIVATION_SOURCE_MAX_BLOCKS pr) = Ok m0"
    using assms
    by (auto simp: prepare_source_manifest_def prepare_source_manifest_with_max_blocks_def ok_iff)
  define m1 where "m1 = (if is_forced_inclusion src \<and> length (sm_blocks m0) \<noteq> 1
                         then default_manifest pr else m0)"
  define m2 where "m2 = (if is_forced_inclusion src \<or> manifest_is_default m1
                         then apply_inherited_metadata pr m1 ?i else m1)"
  have "m = m2 \<and> validate_source_manifest pr m2 ?ctx = Ok ()
      \<or> m = apply_inherited_metadata pr (default_manifest pr) ?i"
    using assms m0
    by (auto simp: prepare_source_manifest_def prepare_source_manifest_with_max_blocks_def Let_def
        m1_def m2_def split: outcome.splits)
  moreover have "m2 = apply_inherited_metadata pr
      (if length (sm_blocks m0) \<noteq> 1 then default_manifest pr else m0) ?i" if "is_forced_inclusion src"
    using that by (simp add: m2_def m1_def)
  ultimately show ?thesis by blast
qed

text \<open>
  C34: A derived manifest always has a block. It either satisfies every metadata rule of its
  source, or it is the default payload: a single block without transactions whose
  timestamp, coinbase, anchor and gas limit are inherited from the parent block and the
  proposal. A forced-inclusion source always gives exactly one block, with inherited
  metadata.
\<close>

theorem prepare_source_manifest_shape:
  assumes "protocol_ok pr"
    and "prepare_source_manifest pr src ds parent meta fork_ts = Ok m"
  shows "sm_blocks m \<noteq> []
     \<and> (validate_source_manifest pr m (source_context src parent meta fork_ts) = Ok ()
        \<or> (\<exists>b. sm_blocks m = [b] \<and> bm_transactions b = [] \<and> inherits pr parent meta fork_ts b))
     \<and> (is_forced_inclusion src \<longrightarrow> (\<exists>b. sm_blocks m = [b] \<and> inherits pr parent meta fork_ts b))"
proof -
  have d: "manifest_is_default (default_manifest pr)"
    using assms(1) by (simp add: protocol_ok_def)
  have "sm_blocks m \<noteq> []"
    if "validate_source_manifest pr m (source_context src parent meta fork_ts) = Ok ()"
    using that by (auto simp: validate_source_manifest_def block_count_def)
  then show ?thesis
    using prepare_cases [OF assms(2)] forced_one [OF d, of _ parent meta fork_ts]
      inherited_default [OF d, of pr parent meta fork_ts] by auto
qed

lemma example_payload:
  "source_payload example_protocol example_source (Some example_data) n = Ok example_manifest"
  by (simp add: source_payload_def is_source_offset_valid_def MAX_MANIFEST_OFFSET_def
      decode_blob_backed_manifest_def check_blob_length_def example_protocol_def example_source_def
      example_data_def)

text \<open>The two blocks of the example payload satisfy the rules and are returned unchanged.\<close>

theorem prepare_source_manifest_shape_witness:
  "prepare_source_manifest example_protocol example_source (Some example_data) example_parent example_meta 0
     = Ok example_manifest \<and> sm_blocks example_manifest \<noteq> []"
proof -
  have v: "validate_source_manifest example_protocol example_manifest
      (source_context example_source example_parent example_meta 0) = Ok ()"
    unfolding validate_source_manifest_def validate_gas_limit_def validate_timestamps_def
      validate_gas_limit_from_Ok [OF example_protocol_ok]
    by (simp add: example_defs source_context_def block_count_def validate_anchor_numbers_def
        compute_timestamp_lower_bound_def saturating_add_def gas_low_def gas_up_def
        effective_parent_gas_limit_def saturating_sub_def anchor_max_offset_for_chain_def
        TAIKO_MAINNET_CHAIN_ID_def ANCHOR_MAX_OFFSET_def)
  have "\<not> manifest_is_default example_manifest" "\<not> is_forced_inclusion example_source"
    by (simp_all add: manifest_is_default_def example_manifest_def example_source_def)
  then have "prepare_source_manifest example_protocol example_source (Some example_data) example_parent
      example_meta 0 = Ok example_manifest"
    by (simp add: prepare_source_manifest_def prepare_source_manifest_with_max_blocks_def
        example_payload v)
  then show ?thesis
    using prepare_source_manifest_shape [OF example_protocol_ok] by blast
qed

section \<open>Derived anchors and the anchor rules\<close>

text \<open>
  C35: The anchors that the derivation gives to the blocks of a source are never refused by
  the anchor check of the proof: they pass the progression check, or they are the stalled
  anchors of a defaulted source, for which the check has its bypass. This needs the anchor
  window of the protocol library to be that of the proof, and a parent anchor that is not
  above the origin block.
\<close>

theorem derived_anchors_accepted:
  assumes "protocol_ok pr"
    and "max_anchor_offset_for_chain pr = anchor_max_offset_for_chain"
    and "pb_anchor_block_number parent \<le> pm_origin_block_number meta"
    and "prepare_source_manifest pr src ds parent meta fork_ts = Ok m"
  shows "validate_anchor_progression (map bm_anchor_block_number (sm_blocks m))
           (pb_anchor_block_number parent) (pm_origin_block_number meta) (pm_chain_id meta) = Ok ()
       \<or> should_bypass_stalled_anchor_linkage (map bm_anchor_block_number (sm_blocks m))
           (pb_anchor_block_number parent) (pm_origin_block_number meta) (pm_chain_id meta)"
proof -
  let ?as = "map bm_anchor_block_number (sm_blocks m)" and ?p = "pb_anchor_block_number parent"
  let ?t = "pm_origin_block_number meta" and ?off = "anchor_max_offset_for_chain (pm_chain_id meta)"
  have low: "saturating_sub ?t ?off \<le> a \<longleftrightarrow> unat ?t \<le> unat a + unat ?off" for a
    by (auto simp: word_le_nat_alt sat_simps)
  have cases: "validate_source_manifest pr m (source_context src parent meta fork_ts) = Ok ()
      \<or> (\<exists>b. sm_blocks m = [b] \<and> bm_anchor_block_number b = ?p)"
    using prepare_cases [OF assms(4)] assms(1)
      inherited_default [of "default_manifest pr" pr parent meta fork_ts]
    by (auto simp: inherits_def protocol_ok_def)
  show ?thesis
  proof (cases "validate_source_manifest pr m (source_context src parent meta fork_ts) = Ok ()")
    case True
    then have "validate_anchor_numbers pr m ?t ?p (is_forced_inclusion src) (pm_chain_id meta)"
      and "sm_blocks m \<noteq> []"
      by (auto simp: validate_source_manifest_def source_context_def block_count_def split: if_splits)
    then have "validate_anchor_progression ?as ?p ?t (pm_chain_id meta) = Ok ()"
      by (auto simp: validate_anchor_numbers_iff assms(2) ok_iff low)
    then show ?thesis ..
  next
    case False
    then obtain b where b: "sm_blocks m = [b]" "bm_anchor_block_number b = ?p"
      using cases by blast
    show ?thesis
    proof (cases "unat ?t \<le> unat ?p + unat ?off")
      case True
      then show ?thesis using assms(3) b by (simp add: ok_iff low)
    next
      case False
      then show ?thesis
        using b by (auto simp: should_bypass_stalled_anchor_linkage_def word_less_nat_alt sat_simps)
    qed
  qed
qed

text \<open>
  The stalled case: the parent anchors to block 1000, 1000 blocks below the origin, and the
  example payload, whose anchors are outside the window, is defaulted.
\<close>

theorem derived_anchors_accepted_witness:
  "\<exists>m. prepare_source_manifest example_protocol example_source (Some example_data) example_parent
         (example_meta\<lparr>pm_origin_block_number := 2000\<rparr>) 0 = Ok m
     \<and> should_bypass_stalled_anchor_linkage (map bm_anchor_block_number (sm_blocks m)) 1000 2000 7"
proof -
  let ?meta = "example_meta\<lparr>pm_origin_block_number := 2000\<rparr>"
  let ?m = "apply_inherited_metadata example_protocol (default_manifest example_protocol)
      (inherited_input example_parent ?meta 0)"
  have "\<not> validate_anchor_numbers example_protocol example_manifest 2000 1000 False 7"
    by (simp add: validate_anchor_numbers_def example_defs anchor_max_offset_for_chain_def
        TAIKO_MAINNET_CHAIN_ID_def ANCHOR_MAX_OFFSET_def)
  then have v: "validate_source_manifest example_protocol example_manifest
      (source_context example_source example_parent ?meta 0) = Err DefaultManifest"
    by (simp add: validate_source_manifest_def source_context_def block_count_def example_manifest_def
        example_parent_def example_meta_def example_source_def)
  have "\<not> manifest_is_default example_manifest" "\<not> is_forced_inclusion example_source"
    by (simp_all add: manifest_is_default_def example_manifest_def example_source_def)
  then have run: "prepare_source_manifest example_protocol example_source (Some example_data)
      example_parent ?meta 0 = Ok ?m"
    by (simp add: prepare_source_manifest_def prepare_source_manifest_with_max_blocks_def
        example_payload v)
  have anchors: "map bm_anchor_block_number (sm_blocks ?m) = [1000]"
    by (simp add: apply_inherited_metadata_def inherited_input_def example_protocol_def
        example_parent_def Let_def)
  have "max_anchor_offset_for_chain example_protocol = anchor_max_offset_for_chain"
    "pb_anchor_block_number example_parent \<le> pm_origin_block_number ?meta"
    by (simp_all add: example_protocol_def example_parent_def)
  from derived_anchors_accepted [OF example_protocol_ok this run]
  have "should_bypass_stalled_anchor_linkage [1000] 1000 2000 7"
    unfolding anchors
    by (simp add: example_parent_def example_meta_def validate_anchor_progression_Ok_iff
        saturating_sub_def anchor_max_offset_for_chain_def TAIKO_MAINNET_CHAIN_ID_def ANCHOR_MAX_OFFSET_def)
  then show ?thesis using run anchors by auto
qed

end
