(* ===== verification/Guest.thy ===== *)
theory Guest
  imports Carry Guest_Input Predeploy Derivation_Facts
begin

text \<open>
  The guest program of a Shasta proposal proof and of the aggregation
  (\<open>crates/guest-common/src/lib.rs\<close>, with the blob check of
  \<open>crates/primitives-shasta/src/blob.rs\<close>): everything that is checked before the public input of
  a proof is returned.

  The record \<open>env\<close> holds the functions of other packages that the program calls: Keccak,
  SHA-256, the header hash, the ABI codecs, the built-in chain specifications with their
  forks, the consensus check and the signer of the anchor transaction, the RLP codec of
  transactions, the steps of the KZG library, and the protocol library. These functions return
  a value or an error; a panic inside one of these packages is not represented. As in the source, the verification
  of a block and the reader of the parent state are arguments of the program.

  Errors carry the text of the message without the interpolated values and without the
  context prefixes; additions on \<open>u64\<close> and \<open>usize\<close> counters wrap as in the release builds.
\<close>

section \<open>Environment and data\<close>

datatype fork_condition = Timestamp u64 | OtherCondition

text \<open>
  The functions of the KZG library that \<open>crates/primitives/src/blob/util.rs\<close> calls, each with
  its error as \<open>None\<close>. A curve point is given by its compressed bytes, a scalar of the field by
  its number, a polynomial by its evaluations.
\<close>

record kzg_rs =
  kzg_blob_from_slice :: "bytes \<Rightarrow> bytes option"
  kzg_g1_affine_from_bytes :: "bytes \<Rightarrow> bytes option"
  kzg_scalar_from_bytes :: "bytes \<Rightarrow> nat"
  kzg_as_polynomial :: "bytes \<Rightarrow> nat list option"
  kzg_evaluate_polynomial :: "nat list \<Rightarrow> nat \<Rightarrow> nat option"
  kzg_verify_proof_impl :: "bytes \<Rightarrow> nat \<Rightarrow> nat \<Rightarrow> bytes \<Rightarrow> bool option"

record ('spec, 'm) env =
  env_keccak256 :: "bytes \<Rightarrow> b256"
  env_sha256 :: "bytes \<Rightarrow> bytes"
  env_hash_slow :: "header \<Rightarrow> b256"
  env_abi_encode_proposal :: "proposal \<Rightarrow> bytes"
  env_anchorV4_selector :: bytes
  env_anchorV4_abi_decode_validate :: "bytes \<Rightarrow> checkpoint option"
  env_anchorV4_abi_encode :: "checkpoint \<Rightarrow> bytes"
  env_TAIKO_MAINNET :: 'spec
  env_TAIKO_DEVNET :: 'spec
  env_TAIKO_HOODI :: 'spec
  env_shasta_activation :: "'spec \<Rightarrow> fork_condition"
  env_unzen_active_at :: "'spec \<Rightarrow> u64 \<Rightarrow> bool"
  env_validate_anchor_transaction :: "eth_tx \<Rightarrow> 'spec \<Rightarrow> u64 \<Rightarrow> u64 \<Rightarrow> u64 \<Rightarrow> bool"
  env_golden_touch :: "(b256 \<Rightarrow> bytes option) option"
  env_encode_extra_data :: "u8 \<Rightarrow> u64 \<Rightarrow> bytes"
  env_calculate_shasta_difficulty :: "b256 \<Rightarrow> u64 \<Rightarrow> b256"
  env_rlp_encode_manifest_tx :: "'m \<Rightarrow> bytes"
  env_rlp_decode_exact :: "bytes \<Rightarrow> eth_tx option"
  env_kzg :: kzg_rs
  env_protocol :: "'m protocol"
  env_usize_max :: nat

datatype guest_error =
    Msg string
  | PredeployError predeploy_error
  | AnchorError anchor_error
  | SourceError nat source_derivation_error

definition ANCHOR_BLOCK_STATE_SLOT :: u64 where
  "ANCHOR_BLOCK_STATE_SLOT = 256"

definition ANCHOR_GAS_LIMIT :: u64 where
  "ANCHOR_GAS_LIMIT = 1000000"

record decoded_anchor_checkpoint =
  dc_block_number :: u64
  dc_block_hash :: b256
  dc_state_root :: b256

record parent_storage_read =
  ps_address :: address
  ps_slot :: b256
  ps_witness :: execution_witness
  ps_ancestor_headers :: "witness_header list"
  ps_shared_state_nodes :: "witness_state_node list"

type_synonym parent_reader = "parent_storage_read \<Rightarrow> (guest_error, b256) outcome"

section \<open>Blob usage\<close>

definition read_kzg_bytes :: "bytes \<Rightarrow> (guest_error, bytes) outcome" where
  "read_kzg_bytes v = (if length v \<noteq> 48 then Err (Msg ''invalid length (expected 48 bytes)'') else Ok v)"

definition commitment_to_version_hash :: "('spec, 'm) env \<Rightarrow> bytes \<Rightarrow> b256" where
  "commitment_to_version_hash e commitment = from_be_bytes ((env_sha256 e commitment)[0 := 1])"

definition proof_of_equivalence_point_bytes :: "('spec, 'm) env \<Rightarrow> bytes \<Rightarrow> bytes \<Rightarrow> bytes" where
  "proof_of_equivalence_point_bytes e blob commitment =
     env_sha256 e (env_sha256 e blob @ be_bytes 32 (commitment_to_version_hash e commitment))"

definition kzg_bytes48 :: "bytes \<Rightarrow> (guest_error, bytes) outcome" where
  "kzg_bytes48 bs = (if length bs = 48 then Ok bs else Err (Msg ''Invalid commitment or proof''))"

definition verify_blob_proof_of_equivalence ::
    "('spec, 'm) env \<Rightarrow> bytes \<Rightarrow> bytes \<Rightarrow> bytes \<Rightarrow> (guest_error, unit) outcome" where
  "verify_blob_proof_of_equivalence e blob commitment proof =
     (let k = env_kzg e in
      bind_outcome (ok_or (kzg_blob_from_slice k blob) (Msg ''Failed to convert blob'')) (\<lambda>kzg_blob.
      bind_outcome (kzg_bytes48 commitment) (\<lambda>commitment_bytes.
      bind_outcome (kzg_bytes48 proof) (\<lambda>proof_bytes.
      bind_outcome (ok_or (kzg_g1_affine_from_bytes k commitment_bytes) (Msg ''Invalid commitment'')) (\<lambda>c.
      bind_outcome (ok_or (kzg_g1_affine_from_bytes k proof_bytes) (Msg ''Invalid proof'')) (\<lambda>p.
      let evaluation_point = kzg_scalar_from_bytes k (proof_of_equivalence_point_bytes e blob commitment) in
      bind_outcome (ok_or (kzg_as_polynomial k kzg_blob) (Msg ''Failed to build polynomial'')) (\<lambda>polynomial.
      bind_outcome (ok_or (kzg_evaluate_polynomial k polynomial evaluation_point)
          (Msg ''Failed to evaluate polynomial'')) (\<lambda>evaluation_value.
      bind_outcome (ok_or (kzg_verify_proof_impl k c evaluation_point evaluation_value p)
          (Msg ''Proof of equivalence verification error'')) (\<lambda>is_valid.
      if is_valid then Ok () else Err (Msg ''Proof of equivalence verification failed''))))))))))"

definition check_blob ::
    "('spec, 'm) env \<Rightarrow> input_data_source \<Rightarrow> b256 list \<Rightarrow> nat \<times> bytes \<Rightarrow> (guest_error, unit) outcome" where
  "check_blob e ds expected = (\<lambda>(idx, blob_data).
     bind_outcome (read_kzg_bytes (blob_commitments ds ! idx)) (\<lambda>commitment.
     if idx \<ge> length (blob_proofs ds) then Err (Msg ''missing proof'')
     else bind_outcome (read_kzg_bytes (blob_proofs ds ! idx)) (\<lambda>proof.
     bind_outcome (verify_blob_proof_of_equivalence e blob_data commitment proof) (\<lambda>_.
     if commitment_to_version_hash e commitment \<noteq> expected ! idx
     then Err (Msg ''blob versioned hash mismatch'')
     else Ok ()))))"

definition check_data_source ::
    "('spec, 'm) env \<Rightarrow> derivation_source list \<Rightarrow> nat \<times> input_data_source \<Rightarrow> (guest_error, unit) outcome" where
  "check_data_source e sources = (\<lambda>(source_idx, ds).
     if source_idx \<ge> length sources then Err (Msg ''missing proposal source'')
     else let expected = blob_hashes (blob_slice_of (sources ! source_idx))
          in if expected = [] then
               (if tx_data_from_calldata ds \<noteq> [] \<or> tx_data_from_blob ds \<noteq> []
                   \<or> blob_commitments ds \<noteq> [] \<or> blob_proofs ds \<noteq> []
                then Err (Msg ''inline payloads are not accepted'') else Ok ())
             else if tx_data_from_blob ds = [] then Err (Msg ''missing blob data'')
             else if length (tx_data_from_blob ds) \<noteq> length (blob_commitments ds)
             then Err (Msg ''blob count does not match commitment count'')
             else if length (blob_commitments ds) \<noteq> length (blob_proofs ds)
             then Err (Msg ''commitment count does not match proof count'')
             else if length expected \<noteq> length (blob_commitments ds)
             then Err (Msg ''expected blob hash count does not match commitment count'')
             else try_fold (\<lambda>_. check_blob e ds expected) () (enumerate 0 (tx_data_from_blob ds)))"

abbreviation guest_proposal :: "guest_input \<Rightarrow> proposal" where
  "guest_proposal g \<equiv> se_proposal (tm_proposal_event (gi_taiko g))"

definition verify_proposal_mode_blob_usage ::
    "('spec, 'm) env \<Rightarrow> guest_input \<Rightarrow> (guest_error, unit) outcome" where
  "verify_proposal_mode_blob_usage e g =
     (let sources = pr_sources (guest_proposal g); data = tm_data_sources (gi_taiko g)
      in if sources \<noteq> [] \<and> length data \<noteq> length sources
         then Err (Msg ''data source count does not match proposal source count'')
         else try_fold (\<lambda>_. check_data_source e sources) () (enumerate 0 data))"

section \<open>Chain and anchor transaction\<close>

definition builtin_taiko_chain_spec :: "('spec, 'm) env \<Rightarrow> u64 \<Rightarrow> (guest_error, 'spec) outcome" where
  "builtin_taiko_chain_spec e chain_id =
     (if chain_id = 167000 then Ok (env_TAIKO_MAINNET e)
      else if chain_id = 167001 then Ok (env_TAIKO_DEVNET e)
      else if chain_id = 167013 then Ok (env_TAIKO_HOODI e)
      else Err (Msg ''unsupported Taiko chain_id''))"

definition validate_supported_chain_id :: "('spec, 'm) env \<Rightarrow> u64 \<Rightarrow> (guest_error, unit) outcome" where
  "validate_supported_chain_id e chain_id = bind_outcome (builtin_taiko_chain_spec e chain_id) (\<lambda>_. Ok ())"

definition decode_anchor_checkpoint ::
    "('spec, 'm) env \<Rightarrow> block \<Rightarrow> (guest_error, decoded_anchor_checkpoint) outcome" where
  "decode_anchor_checkpoint e b =
     (case bl_transactions b of
        [] \<Rightarrow> Err (Msg ''missing anchor transaction'')
      | anchor_tx # _ \<Rightarrow>
          let input = tx_input anchor_tx; sel = env_anchorV4_selector e
          in if take (length sel) input \<noteq> sel then Err (Msg ''first transaction is not anchorV4'')
             else bind_outcome (ok_or (env_anchorV4_abi_decode_validate e input)
                                  (Msg ''failed to decode anchorV4 calldata'')) (\<lambda>decoded.
                  if input \<noteq> env_anchorV4_abi_encode e decoded
                  then Err (Msg ''anchor transaction calldata must use canonical anchorV4 encoding'')
                  else Ok \<lparr>dc_block_number = ucast (cp_blockNumber decoded),
                           dc_block_hash = cp_blockHash decoded,
                           dc_state_root = cp_stateRoot decoded\<rparr>))"

definition validate_anchor_transaction_common ::
    "('spec, 'm) env \<Rightarrow> stateless_input \<Rightarrow> 'spec \<Rightarrow> (b256 \<Rightarrow> bytes option)
      \<Rightarrow> (guest_error, decoded_anchor_checkpoint) outcome" where
  "validate_anchor_transaction_common e si spec signer =
     (let b = si_block si; chain_id = cs_chain_id (si_chain_spec si)
      in case bl_transactions b of
           [] \<Rightarrow> Err (Msg ''missing anchor transaction'')
         | tx # _ \<Rightarrow>
             bind_outcome (ensure (tx_is_eip1559 tx) (Msg ''anchor transaction must use EIP-1559 envelope'')) (\<lambda>_.
             bind_outcome (map_err PredeployError (shasta_taiko_l2_address chain_id)) (\<lambda>recipient.
             bind_outcome (ensure (tx_to tx = Some recipient) (Msg ''anchor transaction recipient mismatch'')) (\<lambda>_.
             bind_outcome (ensure (tx_chain_id tx = Some chain_id) (Msg ''anchor transaction chain_id mismatch'')) (\<lambda>_.
             bind_outcome (ok_or (h_base_fee_per_gas (bl_header b)) (Msg ''missing base fee per gas'')) (\<lambda>base_fee.
             bind_outcome (ensure (env_validate_anchor_transaction e tx spec (h_timestamp (bl_header b))
                                     (h_number (bl_header b)) base_fee)
                             (Msg ''anchor validation error'')) (\<lambda>_.
             bind_outcome (decode_anchor_checkpoint e b) (\<lambda>checkpoint.
             bind_outcome (ensure (tx_max_fee_per_gas tx = ucast base_fee)
                             (Msg ''anchor transaction max_fee_per_gas mismatch'')) (\<lambda>_.
             bind_outcome (ensure (tx_max_priority_fee_per_gas tx = Some 0)
                             (Msg ''anchor transaction max_priority_fee_per_gas mismatch'')) (\<lambda>_.
             bind_outcome (case tx_access_list tx of
                             None \<Rightarrow> Ok ()
                           | Some l \<Rightarrow> ensure (l = []) (Msg ''anchor transaction access list must be empty'')) (\<lambda>_.
             bind_outcome (ok_or (signer (tx_signature_hash tx))
                             (Msg ''failed to derive canonical anchor transaction signature'')) (\<lambda>expected_signature.
             bind_outcome (ensure (tx_signature tx = expected_signature)
                             (Msg ''anchor transaction signature mismatch'')) (\<lambda>_.
             Ok checkpoint)))))))))))))"

definition validate_anchor_transaction_binding ::
    "('spec, 'm) env \<Rightarrow> stateless_input \<Rightarrow> 'm block_manifest \<Rightarrow> (guest_error, unit) outcome" where
  "validate_anchor_transaction_binding e si expected =
     bind_outcome (decode_anchor_checkpoint e (si_block si)) (\<lambda>checkpoint.
     ensure (dc_block_number checkpoint = bm_anchor_block_number expected)
       (Msg ''anchor checkpoint block number mismatch''))"

section \<open>Ancestor headers and the parent state\<close>

definition validate_proposal_ancestor_header_count :: "guest_input \<Rightarrow> (guest_error, unit) outcome" where
  "validate_proposal_ancestor_header_count g =
     (let header_count = length (proposal_ancestor_headers g)
      in bind_outcome (ensure (header_count \<noteq> 0) (Msg ''missing proposal ancestor headers'')) (\<lambda>_.
         ensure (header_count \<le> ANCESTOR_HEADER_WINDOW_LIMIT)
           (Msg ''proposal ancestor header count exceeds limit'')))"

definition checked_initial_proposal_ancestor_headers ::
    "guest_input \<Rightarrow> (guest_error, witness_header list) outcome" where
  "checked_initial_proposal_ancestor_headers g =
     bind_outcome (validate_proposal_ancestor_header_count g) (\<lambda>_.
     Ok (initial_proposal_ancestor_headers g))"

definition last_full_header :: "witness_header list \<Rightarrow> (guest_error, header) outcome" where
  "last_full_header headers =
     (case List.map_filter full_header (rev headers) of
        [] \<Rightarrow> Err (Msg ''missing parent header in proposal ancestor headers'')
      | h # _ \<Rightarrow> Ok h)"

definition anchor_block_number_from_storage_word :: "b256 \<Rightarrow> u64" where
  "anchor_block_number_from_storage_word word' =
     from_be_bytes ([0, 0] @ drop 26 (be_bytes 32 word'))"

definition storage_word_as_b256 :: "b256 \<Rightarrow> b256" where
  "storage_word_as_b256 word' = from_be_bytes (be_bytes 32 word')"

definition parent_read ::
    "guest_input \<Rightarrow> stateless_input \<Rightarrow> address \<Rightarrow> b256 \<Rightarrow> witness_header list \<Rightarrow> parent_storage_read" where
  "parent_read g first_witness address' slot headers =
     \<lparr>ps_address = address', ps_slot = slot, ps_witness = si_witness first_witness,
      ps_ancestor_headers = headers, ps_shared_state_nodes = proposal_state_nodes g\<rparr>"

definition verified_parent_shasta_checkpoint ::
    "('spec, 'm) env \<Rightarrow> guest_input \<Rightarrow> u64 \<Rightarrow> parent_reader
      \<Rightarrow> (guest_error, decoded_anchor_checkpoint) outcome" where
  "verified_parent_shasta_checkpoint e g block_number read_parent =
     (case gi_witnesses g of
        [] \<Rightarrow> Err (Msg ''GuestInput must contain least one witness'')
      | first_witness # _ \<Rightarrow>
          bind_outcome (map_err PredeployError
            (shasta_checkpoint_store_address (cs_chain_id (si_chain_spec first_witness)))) (\<lambda>store.
          bind_outcome (checked_initial_proposal_ancestor_headers g) (\<lambda>headers.
          let (block_hash_slot, state_root_slot) = shasta_checkpoint_storage_slots (env_keccak256 e) block_number
          in bind_outcome (read_parent (parent_read g first_witness store block_hash_slot headers)) (\<lambda>bh.
             bind_outcome (read_parent (parent_read g first_witness store state_root_slot headers)) (\<lambda>sr.
             bind_outcome (ensure (storage_word_as_b256 bh \<noteq> 0)
                             (Msg ''parent CheckpointStore blockHash is zero'')) (\<lambda>_.
             bind_outcome (ensure (storage_word_as_b256 sr \<noteq> 0)
                             (Msg ''parent CheckpointStore stateRoot is zero'')) (\<lambda>_.
             Ok \<lparr>dc_block_number = block_number, dc_block_hash = storage_word_as_b256 bh,
                 dc_state_root = storage_word_as_b256 sr\<rparr>)))))))"

definition verified_parent_anchor_block_number ::
    "guest_input \<Rightarrow> parent_reader \<Rightarrow> (guest_error, u64) outcome" where
  "verified_parent_anchor_block_number g read_parent =
     (case gi_witnesses g of
        [] \<Rightarrow> Err (Msg ''GuestInput must contain least one witness'')
      | first_witness # _ \<Rightarrow>
          bind_outcome (map_err PredeployError
            (shasta_taiko_l2_address (cs_chain_id (si_chain_spec first_witness)))) (\<lambda>anchor_address.
          bind_outcome (checked_initial_proposal_ancestor_headers g) (\<lambda>headers.
          bind_outcome (read_parent (parent_read g first_witness anchor_address
                          (ucast ANCHOR_BLOCK_STATE_SLOT) headers)) (\<lambda>word'.
          let verified = anchor_block_number_from_storage_word word'
          in bind_outcome
               (case pd_last_anchor_block_number (tm_prover_data (gi_taiko g)) of
                  None \<Rightarrow> Ok ()
                | Some host \<Rightarrow> ensure (host = verified)
                    (Msg ''prover_data.last_anchor_block_number mismatch'')) (\<lambda>_.
             Ok verified)))))"

text \<open>
  The first step of the default reader (\<open>read_parent_storage_with_witness_resources\<close>, by
  \<open>determine_pre_state_root\<close> of \<open>crates/stateless/src/validation.rs\<close>): the state root is taken from
  the last ancestor header, which must be full. Reading the trie is an argument.
\<close>

definition determine_pre_state_root :: "witness_header list \<Rightarrow> (guest_error, b256) outcome" where
  "determine_pre_state_root headers =
     (if headers = [] then Err (Msg ''missing required ancestor headers'')
      else case full_header (last headers) of
             Some h \<Rightarrow> Ok (h_state_root h)
           | None \<Rightarrow> Err (Msg ''could not deserialize ancestor headers''))"

definition default_parent_storage_reader ::
    "(b256 \<Rightarrow> parent_storage_read \<Rightarrow> (guest_error, b256) outcome) \<Rightarrow> parent_reader" where
  "default_parent_storage_reader storage_from_witness r =
     bind_outcome (determine_pre_state_root (ps_ancestor_headers r)) (\<lambda>pre_state_root.
     storage_from_witness pre_state_root r)"

section \<open>Anchors and the L1 chain\<close>

text \<open>The checkpoints of a list that must all be the parent's.\<close>

definition check_parent_checkpoints ::
    "string \<Rightarrow> decoded_anchor_checkpoint \<Rightarrow> decoded_anchor_checkpoint list \<Rightarrow> (guest_error, unit) outcome" where
  "check_parent_checkpoints msg parent cps =
     try_fold (\<lambda>_ c. ensure (c = parent) (Msg msg)) () cps"

text \<open>The checkpoints still to be found that name this header; the others remain.\<close>

fun take_checkpoints ::
    "header \<Rightarrow> b256 \<Rightarrow> decoded_anchor_checkpoint list
      \<Rightarrow> (guest_error, decoded_anchor_checkpoint list) outcome" where
  "take_checkpoints h hash [] = Ok []"
| "take_checkpoints h hash (c # cs) =
     (if dc_block_number c \<noteq> h_number h then Ok (c # cs)
      else if \<not> (dc_block_hash c = hash \<and> dc_state_root c = h_state_root h)
      then Err (Msg ''anchor checkpoint not found in taiko.l1_ancestor_headers'')
      else take_checkpoints h hash cs)"

record linkage_state =
  ls_previous :: "(u64 \<times> b256) option"
  ls_last_number :: u64
  ls_last_hash :: b256
  ls_remaining :: "decoded_anchor_checkpoint list"

definition link_header ::
    "('spec, 'm) env \<Rightarrow> linkage_state \<Rightarrow> header \<Rightarrow> (guest_error, linkage_state) outcome" where
  "link_header e s h =
     (let hash = env_hash_slow e h
      in bind_outcome
           (case ls_previous s of
              None \<Rightarrow> Ok ()
            | Some (previous_number, previous_hash) \<Rightarrow>
                bind_outcome (ensure (h_number h = previous_number + 1)
                  (Msg ''taiko.l1_ancestor_headers must be contiguous'')) (\<lambda>_.
                ensure (h_parent_hash h = previous_hash)
                  (Msg ''taiko.l1_ancestor_headers parent hash mismatch''))) (\<lambda>_.
         bind_outcome (take_checkpoints h hash (ls_remaining s)) (\<lambda>remaining.
         Ok \<lparr>ls_previous = Some (h_number h, hash), ls_last_number = h_number h,
             ls_last_hash = hash, ls_remaining = remaining\<rparr>)))"

definition link_headers ::
    "('spec, 'm) env \<Rightarrow> guest_input \<Rightarrow> decoded_anchor_checkpoint list \<Rightarrow> (guest_error, unit) outcome" where
  "link_headers e g cps =
     (let headers = tm_l1_ancestor_headers (gi_taiko g); proposal = guest_proposal g
      in if headers = [] then Err (Msg ''taiko.l1_ancestor_headers must not be empty'')
         else bind_outcome (try_fold (link_header e)
                \<lparr>ls_previous = None, ls_last_number = 0, ls_last_hash = 0, ls_remaining = cps\<rparr> headers) (\<lambda>s.
              bind_outcome (ensure (ls_last_number s = ucast (pr_originBlockNumber proposal))
                (Msg ''taiko.l1_ancestor_headers last block number mismatch'')) (\<lambda>_.
              bind_outcome (ensure (ls_last_hash s = pr_originBlockHash proposal)
                (Msg ''taiko.l1_ancestor_headers last hash mismatch'')) (\<lambda>_.
              ensure (ls_remaining s = [])
                (Msg ''anchor checkpoint not found in taiko.l1_ancestor_headers'')))))"

text \<open>The first checkpoint that must be found in the L1 headers.\<close>

definition anchor_start_index ::
    "('spec, 'm) env \<Rightarrow> guest_input \<Rightarrow> decoded_anchor_checkpoint list \<Rightarrow> u64 list \<Rightarrow> u64
      \<Rightarrow> anchor_source_span list option \<Rightarrow> parent_reader \<Rightarrow> (guest_error, nat) outcome" where
  "anchor_start_index e g cps anchors parent_anchor spans read_parent =
     (let origin = ucast (pr_originBlockNumber (guest_proposal g));
          chain_id = mc_chain_id (tm_chain_spec (gi_taiko g))
      in case spans of
           Some spans \<Rightarrow>
             bind_outcome (map_err AnchorError (validate_source_aware_anchor_progression
               (env_usize_max e) anchors spans parent_anchor origin chain_id)) (\<lambda>plan.
             bind_outcome
               (if requires_parent_checkpoint plan then
                  bind_outcome (verified_parent_shasta_checkpoint e g parent_anchor read_parent) (\<lambda>parent.
                  bind_outcome (ok_or (get_range cps 0 (l1_header_anchor_start_index plan))
                    (Msg ''invalid forced anchor checkpoint range'')) (\<lambda>forced.
                  check_parent_checkpoints
                    ''forced inclusion anchor checkpoint does not match parent checkpoint'' parent forced))
                else Ok ()) (\<lambda>_.
             Ok (l1_header_anchor_start_index plan)))
         | None \<Rightarrow>
             bind_outcome (map_err AnchorError
               (validate_anchor_progression anchors parent_anchor origin chain_id)) (\<lambda>_. Ok 0))"

definition validate_l1_anchor_linkage ::
    "('spec, 'm) env \<Rightarrow> guest_input \<Rightarrow> decoded_anchor_checkpoint list \<Rightarrow> u64
      \<Rightarrow> anchor_source_span list option \<Rightarrow> parent_reader \<Rightarrow> (guest_error, unit) outcome" where
  "validate_l1_anchor_linkage e g cps parent_anchor spans read_parent =
     (let proposal = guest_proposal g;
          origin_number = ucast (pr_originBlockNumber proposal) :: u64;
          anchors = map dc_block_number cps;
          l1_header = tm_l1_header (gi_taiko g);
          bypass = should_bypass_stalled_anchor_linkage anchors parent_anchor origin_number
                     (mc_chain_id (tm_chain_spec (gi_taiko g)))
      in bind_outcome (ensure (h_number l1_header = origin_number)
           (Msg ''taiko.l1_header.number mismatch'')) (\<lambda>_.
         bind_outcome (ensure (env_hash_slow e l1_header = pr_originBlockHash proposal)
           (Msg ''taiko.l1_header hash mismatch'')) (\<lambda>_.
         bind_outcome (ensure (ucast (pr_timestamp proposal) > h_timestamp l1_header)
           (Msg ''proposal.timestamp must be strictly after anchored L1 origin timestamp'')) (\<lambda>_.
         if bypass then
           bind_outcome (verified_parent_shasta_checkpoint e g parent_anchor read_parent) (\<lambda>parent.
           check_parent_checkpoints ''anchor checkpoint does not match parent checkpoint'' parent cps)
         else
           bind_outcome (anchor_start_index e g cps anchors parent_anchor spans read_parent) (\<lambda>start.
           bind_outcome (ok_or (get_range cps start (length cps))
             (Msg ''invalid L1 header anchor checkpoint range'')) (\<lambda>header_cps.
           link_headers e g header_cps))))))"

section \<open>Expected blocks\<close>

definition shasta_fork_timestamp :: "('spec, 'm) env \<Rightarrow> 'spec \<Rightarrow> (guest_error, u64) outcome" where
  "shasta_fork_timestamp e spec =
     (case env_shasta_activation e spec of
        Timestamp t \<Rightarrow> Ok t
      | OtherCondition \<Rightarrow> Err (Msg ''unsupported Shasta fork activation condition''))"

record 'm derived_shasta_blocks =
  ds_blocks :: "'m block_manifest list"
  ds_source_spans :: "anchor_source_span list"

definition next_parent :: "parent_block_context \<Rightarrow> 'm block_manifest \<Rightarrow> parent_block_context" where
  "next_parent parent b =
     \<lparr>pb_timestamp = bm_timestamp b,
      pb_gas_limit = saturating_add (bm_gas_limit b) ANCHOR_GAS_LIMIT,
      pb_block_number = pb_block_number parent + 1,
      pb_anchor_block_number = bm_anchor_block_number b\<rparr>"

type_synonym 'm derive_state = "parent_block_context \<times> 'm block_manifest list \<times> anchor_source_span list"

definition derive_source ::
    "('spec, 'm) env \<Rightarrow> input_data_source list \<Rightarrow> proposal_metadata \<Rightarrow> u64 \<Rightarrow> 'm derive_state
      \<Rightarrow> nat \<times> derivation_source \<Rightarrow> (guest_error, 'm derive_state) outcome" where
  "derive_source e data meta fork_ts = (\<lambda>(parent, blocks, spans) (i, source).
     bind_outcome (map_err (SourceError i) (prepare_source_manifest_with_max_blocks (env_protocol e) source
       (if i < length data then Some (data ! i) else None) parent meta fork_ts
       (UNZEN_DERIVATION_SOURCE_MAX_BLOCKS (env_protocol e)))) (\<lambda>manifest.
     Ok (foldl next_parent parent (sm_blocks manifest),
         blocks @ sm_blocks manifest,
         spans @ [\<lparr>span_is_forced_inclusion = is_forced_inclusion source,
                   span_block_count = length (sm_blocks manifest)\<rparr>])))"

definition derive_expected_shasta_blocks ::
    "('spec, 'm) env \<Rightarrow> guest_input \<Rightarrow> 'spec \<Rightarrow> u64 \<Rightarrow> (guest_error, 'm derived_shasta_blocks option) outcome" where
  "derive_expected_shasta_blocks e g spec parent_anchor =
     (let proposal = guest_proposal g; sources = pr_sources proposal; data = tm_data_sources (gi_taiko g)
      in if sources = [] then Ok None
         else bind_outcome (ensure (\<not> is_forced_inclusion (last sources))
                (Msg ''last Shasta derivation source must be a normal source'')) (\<lambda>_.
              bind_outcome (ensure (length data = length sources)
                (Msg ''data source count does not match proposal source count'')) (\<lambda>_.
              bind_outcome (shasta_fork_timestamp e spec) (\<lambda>fork_ts.
              bind_outcome (checked_initial_proposal_ancestor_headers g) (\<lambda>headers.
              bind_outcome (last_full_header headers) (\<lambda>h.
              let parent = \<lparr>pb_timestamp = h_timestamp h, pb_gas_limit = h_gas_limit h,
                            pb_block_number = h_number h, pb_anchor_block_number = parent_anchor\<rparr>;
                  meta = \<lparr>pm_proposal_timestamp = ucast (pr_timestamp proposal),
                          pm_origin_block_number = ucast (pr_originBlockNumber proposal),
                          pm_proposer = pr_proposer proposal,
                          pm_chain_id = mc_chain_id (tm_chain_spec (gi_taiko g))\<rparr>
              in bind_outcome (try_fold (derive_source e data meta fork_ts) (parent, [], [])
                   (enumerate 0 sources)) (\<lambda>(_, blocks, spans).
                 bind_outcome (ensure (length blocks = length (gi_witnesses g))
                   (Msg ''witness count does not match derived manifest block count'')) (\<lambda>_.
                 Ok (Some \<lparr>ds_blocks = blocks, ds_source_spans = spans\<rparr>)))))))))"

definition validate_shasta_manifest_block_metadata ::
    "('spec, 'm) env \<Rightarrow> guest_input \<Rightarrow> stateless_input \<Rightarrow> 'm block_manifest \<Rightarrow> header
      \<Rightarrow> (guest_error, unit) outcome" where
  "validate_shasta_manifest_block_metadata e g si expected parent_header =
     (let h = bl_header (si_block si);
          extra = env_encode_extra_data e (pr_basefeeSharingPctg (guest_proposal g)) (tm_proposal_id (gi_taiko g));
          mix = env_calculate_shasta_difficulty e
                  (from_be_bytes (be_bytes 32 (h_difficulty parent_header))) (h_number h)
      in bind_outcome (ensure (h_timestamp h = bm_timestamp expected) (Msg ''timestamp mismatch'')) (\<lambda>_.
         bind_outcome (ensure (h_beneficiary h = bm_coinbase expected) (Msg ''coinbase mismatch'')) (\<lambda>_.
         bind_outcome (ensure (h_gas_limit h = saturating_add (bm_gas_limit expected) ANCHOR_GAS_LIMIT)
           (Msg ''gas limit mismatch'')) (\<lambda>_.
         bind_outcome (ensure (h_extra_data h = extra) (Msg ''extra_data mismatch'')) (\<lambda>_.
         bind_outcome (ensure (h_mix_hash h = mix) (Msg ''mix_hash mismatch'')) (\<lambda>_.
         validate_anchor_transaction_binding e si expected))))))"

definition validate_manifest_transactions_match_canonical ::
    "('spec, 'm) env \<Rightarrow> stateless_input \<Rightarrow> 'm block_manifest \<Rightarrow> (guest_error, unit) outcome" where
  "validate_manifest_transactions_match_canonical e si expected =
     (let actual = bl_transactions (si_block si)
      in bind_outcome (ensure (length actual = length (bm_transactions expected) + 1)
           (Msg ''transaction count mismatch'')) (\<lambda>_.
         try_fold (\<lambda>_ (x, a). ensure (env_rlp_encode_manifest_tx e x = tx_rlp a) (Msg ''transaction mismatch''))
           () (zip (bm_transactions expected) (drop 1 actual))))"

definition validate_generated_block_matches_canonical ::
    "block \<Rightarrow> block \<Rightarrow> (guest_error, unit) outcome" where
  "validate_generated_block_matches_canonical generated canonical =
     bind_outcome (ensure (bl_header generated = bl_header canonical)
       (Msg ''generated block header mismatch'')) (\<lambda>_.
     bind_outcome (ensure (length (bl_transactions generated) = length (bl_transactions canonical))
       (Msg ''generated block transaction count mismatch'')) (\<lambda>_.
     try_fold (\<lambda>_ (x, y). ensure (tx_rlp x = tx_rlp y) (Msg ''generated block transaction mismatch''))
       () (zip (bl_transactions generated) (bl_transactions canonical))))"

definition manifest_transactions_for_reconstruction ::
    "('spec, 'm) env \<Rightarrow> 'm block_manifest \<Rightarrow> (guest_error, eth_tx list) outcome" where
  "manifest_transactions_for_reconstruction e expected =
     try_fold (\<lambda>txs t. bind_outcome
       (ok_or (env_rlp_decode_exact e (env_rlp_encode_manifest_tx e t))
         (Msg ''failed to decode Shasta manifest transaction'')) (\<lambda>d. Ok (txs @ [d])))
       [] (bm_transactions expected)"

record block_env_attributes =
  ba_timestamp :: u64
  ba_suggested_fee_recipient :: address
  ba_prev_randao :: b256
  ba_gas_limit :: u64
  ba_extra_data :: bytes
  ba_base_fee_per_gas :: u64
  ba_parent_beacon_block_root :: "b256 option"

definition shasta_block_env_attributes :: "stateless_input \<Rightarrow> (guest_error, block_env_attributes) outcome" where
  "shasta_block_env_attributes si =
     (let h = bl_header (si_block si)
      in bind_outcome (ok_or (h_base_fee_per_gas h) (Msg ''missing base fee per gas in Shasta block header'')) (\<lambda>fee.
         Ok \<lparr>ba_timestamp = h_timestamp h, ba_suggested_fee_recipient = h_beneficiary h,
             ba_prev_randao = h_mix_hash h, ba_gas_limit = h_gas_limit h, ba_extra_data = h_extra_data h,
             ba_base_fee_per_gas = fee, ba_parent_beacon_block_root = None\<rparr>))"

end
