(* ===== verification/Guest_Prove.thy ===== *)
theory Guest_Prove
  imports Guest
begin

text \<open>
  The proof program itself (\<open>prove_shasta_proposal_with_block_verifier_and_parent_reader\<close> and its
  entry points, and \<open>aggregate_shasta_zk_with_verifier\<close>, of
  \<open>crates/guest-common/src/lib.rs\<close>), composed of the checks of the previous theory.
\<close>

section \<open>One proposal\<close>

type_synonym ('spec, 'm) block_verifier =
  "nat \<Rightarrow> stateless_input \<Rightarrow> 'm block_manifest option \<Rightarrow> header option \<Rightarrow> witness_header list \<Rightarrow> 'spec
    \<Rightarrow> (guest_error, b256) outcome"

record prove_state =
  pv_anchor_checkpoints :: "decoded_anchor_checkpoint list"
  pv_first_parent_block_hash :: "b256 option"
  pv_previous_block_hash :: "b256 option"
  pv_previous_block_number :: "u64 option"
  pv_last_state_root :: "b256 option"
  pv_canonical_parent_header :: "header option"
  pv_ancestor_headers :: "witness_header list"

text \<open>The checks on the input and on the carry data before any block is executed.\<close>

definition check_forks :: "('spec, 'm) env \<Rightarrow> guest_input \<Rightarrow> 'spec \<Rightarrow> (guest_error, unit) outcome" where
  "check_forks e g spec =
     bind_outcome (ensure (env_unzen_active_at e spec (ucast (pr_timestamp (guest_proposal g))))
       (Msg ''proposal timestamp must be at or after Unzen activation'')) (\<lambda>_.
     try_fold (\<lambda>_ w. ensure (env_unzen_active_at e spec (h_timestamp (bl_header (si_block w))))
       (Msg ''witness block timestamp must be at or after Unzen activation'')) () (gi_witnesses g))"

definition check_chain_ids ::
    "('spec, 'm) env \<Rightarrow> guest_input \<Rightarrow> u64 \<Rightarrow> (guest_error, unit) outcome" where
  "check_chain_ids e g chain_id =
     bind_outcome (validate_supported_chain_id e chain_id) (\<lambda>_.
     bind_outcome (ensure (mc_chain_id (tm_chain_spec (gi_taiko g)) = chain_id)
       (Msg ''taiko.chain_spec.chain_id mismatch'')) (\<lambda>_.
     bind_outcome (try_fold (\<lambda>_ w. ensure (cs_chain_id (si_chain_spec w) = chain_id)
       (Msg ''witness chain_id mismatch'')) () (gi_witnesses g)) (\<lambda>_.
     ensure (pc_chain_id (gi_proof_carry_data g) = chain_id)
       (Msg ''proof_carry_data.chain_id mismatch''))))"

definition check_carry :: "('spec, 'm) env \<Rightarrow> guest_input \<Rightarrow> (guest_error, unit) outcome" where
  "check_carry e g =
     (let ti = pc_transition_input (gi_proof_carry_data g);
          proposal = guest_proposal g;
          proposal_id = tm_proposal_id (gi_taiko g)
      in bind_outcome (ensure (td_proposal_id ti = proposal_id)
           (Msg ''proof_carry_data.proposal_id mismatch'')) (\<lambda>_.
         bind_outcome (ensure (td_actual_prover ti = pd_actual_prover (tm_prover_data (gi_taiko g)))
           (Msg ''proof_carry_data.actual_prover mismatch'')) (\<lambda>_.
         bind_outcome (ensure (proposal_id \<le> SHASTA_PROPOSAL_ID_MAX)
           (Msg ''taiko.proposal_id does not fit in uint48'')) (\<lambda>_.
         bind_outcome (ensure (proposal_id = ucast (pr_id proposal))
           (Msg ''taiko.proposal_id mismatch'')) (\<lambda>_.
         bind_outcome (ensure (fits_shasta_uint48 (st_timestamp (td_transition ti)))
           (Msg ''proof_carry_data.transition.timestamp does not fit in uint48'')) (\<lambda>_.
         bind_outcome (ensure (fits_shasta_uint48 (ucast (cp_blockNumber (td_checkpoint ti))))
           (Msg ''proof_carry_data.checkpoint.blockNumber does not fit in uint48'')) (\<lambda>_.
         bind_outcome (ensure (td_proposal_hash ti
               = hash_proposal (env_keccak256 e) (env_abi_encode_proposal e) proposal)
           (Msg ''proof_carry_data.proposal_hash mismatch'')) (\<lambda>_.
         bind_outcome (ensure (td_parent_proposal_hash ti = pr_parentProposalHash proposal)
           (Msg ''proof_carry_data.parent_proposal_hash mismatch'')) (\<lambda>_.
         bind_outcome (ensure (st_proposer (td_transition ti) = pr_proposer proposal)
           (Msg ''proof_carry_data.transition.proposer mismatch'')) (\<lambda>_.
         ensure (st_timestamp (td_transition ti) = ucast (pr_timestamp proposal))
           (Msg ''proof_carry_data.transition.timestamp mismatch'')))))))))))"

text \<open>One round of the loop over the blocks.\<close>

definition prove_block ::
    "('spec, 'm) env \<Rightarrow> guest_input \<Rightarrow> 'spec \<Rightarrow> (b256 \<Rightarrow> bytes option) \<Rightarrow> 'm block_manifest list option
      \<Rightarrow> ('spec, 'm) block_verifier \<Rightarrow> prove_state \<Rightarrow> nat \<times> stateless_input
      \<Rightarrow> (guest_error, prove_state) outcome" where
  "prove_block e g spec signer expected_blocks verify_block s = (\<lambda>(index, si).
     let h = bl_header (si_block si);
         expected = (case expected_blocks of
                       None \<Rightarrow> None
                     | Some bs \<Rightarrow> if index < length bs then Some (bs ! index) else None);
         parent_header = pv_canonical_parent_header s
     in bind_outcome (validate_anchor_transaction_common e si spec signer) (\<lambda>anchor_checkpoint.
        bind_outcome (case (expected, parent_header) of
            (Some x, Some p) \<Rightarrow> validate_shasta_manifest_block_metadata e g si x p
          | _ \<Rightarrow> Ok ()) (\<lambda>_.
        bind_outcome (case pv_previous_block_hash s of
            None \<Rightarrow> Ok ()
          | Some prev \<Rightarrow> ensure (h_parent_hash h = prev) (Msg ''block must link to previous block hash'')) (\<lambda>_.
        bind_outcome (case pv_previous_block_number s of
            None \<Rightarrow> Ok ()
          | Some prev \<Rightarrow> ensure (prev + 1 = h_number h) (Msg ''block must increment block number by 1'')) (\<lambda>_.
        bind_outcome (verify_block index si expected parent_header (pv_ancestor_headers s) spec) (\<lambda>validated_hash.
        Ok \<lparr>pv_anchor_checkpoints = pv_anchor_checkpoints s @ [anchor_checkpoint],
            pv_first_parent_block_hash = (case pv_first_parent_block_hash s of
              None \<Rightarrow> Some (h_parent_hash h) | Some p \<Rightarrow> Some p),
            pv_previous_block_hash = Some validated_hash,
            pv_previous_block_number = Some (h_number h),
            pv_last_state_root = Some (h_state_root h),
            pv_canonical_parent_header = (if parent_header \<noteq> None then Some h else None),
            pv_ancestor_headers = roll_proposal_ancestor_headers_in_place (pv_ancestor_headers s) h
              validated_hash\<rparr>))))))"

text \<open>
  The variables \<open>last_block_number\<close> and \<open>last_block_hash\<close> of the source are set together with
  \<open>previous_block_number\<close> and \<open>previous_block_hash\<close>, to the same values.
\<close>

definition check_checkpoint :: "guest_input \<Rightarrow> prove_state \<Rightarrow> (guest_error, unit) outcome" where
  "check_checkpoint g s =
     (let ti = pc_transition_input (gi_proof_carry_data g)
      in case (pv_first_parent_block_hash s, pv_previous_block_number s, pv_previous_block_hash s,
               pv_last_state_root s) of
           (Some first_parent, Some last_number, Some last_hash, Some last_state_root) \<Rightarrow>
             bind_outcome (ensure (td_parent_block_hash ti = first_parent)
               (Msg ''proof_carry_data.parent_block_hash mismatch'')) (\<lambda>_.
             bind_outcome (ensure (ucast (cp_blockNumber (td_checkpoint ti)) = last_number)
               (Msg ''proof_carry_data.checkpoint.blockNumber mismatch'')) (\<lambda>_.
             bind_outcome (ensure (cp_blockHash (td_checkpoint ti) = last_hash)
               (Msg ''proof_carry_data.checkpoint.blockHash mismatch'')) (\<lambda>_.
             ensure (cp_stateRoot (td_checkpoint ti) = last_state_root)
               (Msg ''proof_carry_data.checkpoint.stateRoot mismatch''))))
         | _ \<Rightarrow> Panic ''checked'')"

definition prove_shasta_proposal_with_block_verifier_and_parent_reader ::
    "('spec, 'm) env \<Rightarrow> guest_input \<Rightarrow> ('spec, 'm) block_verifier \<Rightarrow> parent_reader
      \<Rightarrow> (guest_error, b256) outcome" where
  "prove_shasta_proposal_with_block_verifier_and_parent_reader e g verify_block read_parent =
     (case gi_witnesses g of
        [] \<Rightarrow> Err (Msg ''GuestInput must contain at least one witness'')
      | first_witness # _ \<Rightarrow>
          let first_chain_id = cs_chain_id (si_chain_spec first_witness)
          in bind_outcome (builtin_taiko_chain_spec e first_chain_id) (\<lambda>spec.
             bind_outcome (check_forks e g spec) (\<lambda>_.
             bind_outcome (validate_proposal_ancestor_header_count g) (\<lambda>_.
             bind_outcome (verify_proposal_mode_blob_usage e g) (\<lambda>_.
             bind_outcome (check_chain_ids e g first_chain_id) (\<lambda>_.
             bind_outcome (check_carry e g) (\<lambda>_.
             bind_outcome (ok_or (env_golden_touch e)
               (Msg ''failed to initialize Golden Touch fixed-k signer'')) (\<lambda>signer.
             bind_outcome (verified_parent_anchor_block_number g read_parent) (\<lambda>parent_anchor.
             bind_outcome (derive_expected_shasta_blocks e g spec parent_anchor) (\<lambda>derived.
             bind_outcome (checked_initial_proposal_ancestor_headers g) (\<lambda>headers.
             let expected_blocks = map_option ds_blocks derived;
                 spans = map_option ds_source_spans derived;
                 canonical_parent = (if expected_blocks = None \<or> headers = [] then None
                                     else full_header (last headers))
             in bind_outcome (try_fold (prove_block e g spec signer expected_blocks verify_block)
                  \<lparr>pv_anchor_checkpoints = [], pv_first_parent_block_hash = None,
                   pv_previous_block_hash = None, pv_previous_block_number = None,
                   pv_last_state_root = None, pv_canonical_parent_header = canonical_parent,
                   pv_ancestor_headers = headers\<rparr> (enumerate 0 (gi_witnesses g))) (\<lambda>s.
                bind_outcome (validate_l1_anchor_linkage e g (pv_anchor_checkpoints s) parent_anchor spans
                  read_parent) (\<lambda>_.
                bind_outcome (check_checkpoint g s) (\<lambda>_.
                hash_shasta_subproof_input (env_keccak256 e) (gi_proof_carry_data g)))))))))))))))"

section \<open>Entry points\<close>

definition prove_shasta_proposal_with_block_verifier ::
    "('spec, 'm) env \<Rightarrow> (b256 \<Rightarrow> parent_storage_read \<Rightarrow> (guest_error, b256) outcome) \<Rightarrow> guest_input
      \<Rightarrow> ('spec, 'm) block_verifier \<Rightarrow> (guest_error, b256) outcome" where
  "prove_shasta_proposal_with_block_verifier e storage_from_witness g verify_block =
     prove_shasta_proposal_with_block_verifier_and_parent_reader e g verify_block
       (default_parent_storage_reader storage_from_witness)"

record 'spec block_reconstruction =
  br_index :: nat
  br_anchor_tx :: eth_tx
  br_transactions :: "eth_tx list"
  br_block_env :: block_env_attributes
  br_witness :: execution_witness
  br_ancestor_headers :: "witness_header list"
  br_shared_state_nodes :: "witness_state_node list"
  br_chain_spec :: 'spec

definition reconstructing_verifier ::
    "('spec, 'm) env \<Rightarrow> guest_input \<Rightarrow> (eth_tx \<Rightarrow> bool)
      \<Rightarrow> ('spec block_reconstruction \<Rightarrow> (guest_error, block) outcome) \<Rightarrow> ('spec, 'm) block_verifier" where
  "reconstructing_verifier e g recoverable reconstruct index si expected parent_header headers spec =
     bind_outcome (ok_or expected (Msg ''missing expected Shasta block'')) (\<lambda>x.
     case bl_transactions (si_block si) of
       [] \<Rightarrow> Err (Msg ''missing canonical anchor transaction'')
     | anchor_tx # _ \<Rightarrow>
         bind_outcome (ensure (recoverable anchor_tx)
           (Msg ''failed to recover canonical anchor transaction'')) (\<lambda>_.
         bind_outcome (manifest_transactions_for_reconstruction e x) (\<lambda>txs.
         bind_outcome (shasta_block_env_attributes si) (\<lambda>attributes.
         bind_outcome (reconstruct
           \<lparr>br_index = index, br_anchor_tx = anchor_tx, br_transactions = txs, br_block_env = attributes,
            br_witness = si_witness si, br_ancestor_headers = headers,
            br_shared_state_nodes = proposal_state_nodes g, br_chain_spec = spec\<rparr>) (\<lambda>generated.
         bind_outcome (validate_generated_block_matches_canonical generated (si_block si)) (\<lambda>_.
         Ok (env_hash_slow e (bl_header generated))))))))"

definition prove_shasta_proposal_with_reconstructor_and_parent_reader ::
    "('spec, 'm) env \<Rightarrow> (eth_tx \<Rightarrow> bool) \<Rightarrow> guest_input
      \<Rightarrow> ('spec block_reconstruction \<Rightarrow> (guest_error, block) outcome) \<Rightarrow> parent_reader
      \<Rightarrow> (guest_error, b256) outcome" where
  "prove_shasta_proposal_with_reconstructor_and_parent_reader e recoverable g reconstruct read_parent =
     prove_shasta_proposal_with_block_verifier_and_parent_reader e g
       (reconstructing_verifier e g recoverable reconstruct) read_parent"

definition prove_shasta_proposal_with_reconstructor ::
    "('spec, 'm) env \<Rightarrow> (eth_tx \<Rightarrow> bool) \<Rightarrow> (b256 \<Rightarrow> parent_storage_read \<Rightarrow> (guest_error, b256) outcome)
      \<Rightarrow> guest_input \<Rightarrow> ('spec block_reconstruction \<Rightarrow> (guest_error, block) outcome)
      \<Rightarrow> (guest_error, b256) outcome" where
  "prove_shasta_proposal_with_reconstructor e recoverable storage_from_witness g reconstruct =
     prove_shasta_proposal_with_reconstructor_and_parent_reader e recoverable g reconstruct
       (default_parent_storage_reader storage_from_witness)"

definition prove_shasta_proposal_with_validator ::
    "('spec, 'm) env \<Rightarrow> (b256 \<Rightarrow> parent_storage_read \<Rightarrow> (guest_error, b256) outcome) \<Rightarrow> guest_input
      \<Rightarrow> (stateless_input \<Rightarrow> witness_header list \<Rightarrow> 'spec \<Rightarrow> (guest_error, b256) outcome)
      \<Rightarrow> (guest_error, b256) outcome" where
  "prove_shasta_proposal_with_validator e storage_from_witness g validate_block =
     prove_shasta_proposal_with_block_verifier e storage_from_witness g
       (\<lambda>index si expected parent_header headers spec.
          bind_outcome (case expected of
              None \<Rightarrow> Ok ()
            | Some x \<Rightarrow> validate_manifest_transactions_match_canonical e si x) (\<lambda>_.
          validate_block si headers spec))"

section \<open>Aggregation\<close>

definition verify_block_input ::
    "(bytes \<Rightarrow> b256) \<Rightarrow> (nat \<Rightarrow> b256 \<Rightarrow> bool) \<Rightarrow> proof_carry_data list \<Rightarrow> nat \<times> b256
      \<Rightarrow> (guest_error, unit) outcome" where
  "verify_block_input keccak256 verify_proof carries = (\<lambda>(i, block_input).
     bind_outcome (ensure (verify_proof i block_input) (Msg ''proof verification failed'')) (\<lambda>_.
     bind_outcome (hash_shasta_subproof_input keccak256 (carries ! i)) (\<lambda>expected.
     ensure (block_input = expected) (Msg ''block_input mismatch''))))"

definition aggregate_shasta_zk_with_verifier ::
    "(bytes \<Rightarrow> b256) \<Rightarrow> shasta_zk_aggregation_guest_input \<Rightarrow> b256 \<Rightarrow> (nat \<Rightarrow> b256 \<Rightarrow> bool)
      \<Rightarrow> (guest_error, b256) outcome" where
  "aggregate_shasta_zk_with_verifier keccak256 input image_id verify_proof =
     (let carries = za_proof_carry_data_vec input
      in bind_outcome (ensure (length (za_block_inputs input) = length carries)
           (Msg ''block_inputs/proof_carry_data_vec length mismatch'')) (\<lambda>_.
         bind_outcome (ensure (carries \<noteq> []) (Msg ''proof_carry_data_vec must not be empty'')) (\<lambda>_.
         bind_outcome (ensure (za_prover_address input = 0)
           (Msg ''ZK aggregation prover_address must be address(0)'')) (\<lambda>_.
         bind_outcome (build_shasta_commitment_from_proof_carry_data_vec carries) (\<lambda>r.
         bind_outcome (ok_or r (Msg ''invalid proof_carry_data_vec'')) (\<lambda>commitment.
         bind_outcome (try_fold (\<lambda>_. verify_block_input keccak256 verify_proof carries) ()
           (enumerate 0 (za_block_inputs input))) (\<lambda>_.
         case carries of
           [] \<Rightarrow> Panic ''checked''
         | first # _ \<Rightarrow>
             Ok (shasta_zk_aggregation_output keccak256 image_id
                   (shasta_aggregation_output keccak256 commitment (pc_chain_id first)
                     (pc_verifier first) (za_prover_address input))))))))))"

end
