(* ===== verification/Guest_Facts.thy ===== *)
theory Guest_Facts
  imports Guest_Prove
begin

text \<open>
  What a proof shows. The first part is about the L1 side: every anchor checkpoint of a
  proved batch is the parent's checkpoint or belongs to a block of the hash chain of L1
  headers that ends in the origin block of the proposal. The second part is about the
  blocks: they form a chain from the carried parent block to the carried checkpoint, and
  have the metadata that the derivation prescribes.
\<close>

section \<open>Loops\<close>

lemma try_fold_trace:
  assumes "try_fold f s xs = Ok s'"
  obtains ss where "length ss = Suc (length xs)" "ss ! 0 = s" "ss ! length xs = s'"
    "\<And>i. i < length xs \<Longrightarrow> f (ss ! i) (xs ! i) = Ok (ss ! Suc i)"
proof -
  have "\<exists>ss. length ss = Suc (length xs) \<and> ss ! 0 = s \<and> ss ! length xs = s'
      \<and> (\<forall>i < length xs. f (ss ! i) (xs ! i) = Ok (ss ! Suc i))"
    using assms
  proof (induction xs arbitrary: s)
    case Nil
    then show ?case by (intro exI [of _ "[s]"]) simp
  next
    case (Cons x xs)
    then obtain t where t: "f s x = Ok t" "try_fold f t xs = Ok s'"
      by (auto simp: bind_outcome_Ok_iff)
    from Cons.IH [OF t(2)] obtain ss where "length ss = Suc (length xs)" "ss ! 0 = t" "ss ! length xs = s'"
      "\<forall>i < length xs. f (ss ! i) (xs ! i) = Ok (ss ! Suc i)" by blast
    then show ?case
      using t(1) by (intro exI [of _ "s # ss"]) (auto simp: nth_Cons split: nat.splits)
  qed
  then show ?thesis using that by blast
qed

lemma try_fold_check_Ok_iff [ok_iff]:
  "try_fold (\<lambda>_ x. ensure (P x) e) () xs = Ok u \<longleftrightarrow> (\<forall>x \<in> set xs. P x)"
  using try_fold_unit_Ok_iff [of "\<lambda>x. ensure (P x) e" xs] by (simp add: ensure_def)

lemma try_fold_check_pair_Ok_iff [ok_iff]:
  "try_fold (\<lambda>_ (x, y). ensure (P x y) e) () xs = Ok u \<longleftrightarrow> (\<forall>(x, y) \<in> set xs. P x y)"
  using try_fold_check_Ok_iff [of "\<lambda>(x, y). P x y" e xs u] by (simp add: split_def)

section \<open>The L1 header chain\<close>

definition l1_chain :: "('spec, 'm) env \<Rightarrow> header list \<Rightarrow> bool" where
  "l1_chain e = successively (\<lambda>a b. h_number b = h_number a + 1 \<and> h_parent_hash b = env_hash_slow e a)"

text \<open>A checkpoint names a header: number, hash and state root.\<close>

definition names_header :: "('spec, 'm) env \<Rightarrow> decoded_anchor_checkpoint \<Rightarrow> header \<Rightarrow> bool" where
  "names_header e c h =
     (dc_block_number c = h_number h \<and> dc_block_hash c = env_hash_slow e h \<and> dc_state_root c = h_state_root h)"

lemma take_checkpoints_Ok:
  "take_checkpoints h (env_hash_slow e h) cs = Ok rest \<Longrightarrow>
     \<exists>found. cs = found @ rest \<and> (\<forall>c \<in> set found. names_header e c h)"
proof (induction cs)
  case (Cons c cs)
  show ?case
  proof (cases "dc_block_number c = h_number h")
    case True
    then have "names_header e c h" "take_checkpoints h (env_hash_slow e h) cs = Ok rest"
      using Cons.prems by (auto simp: names_header_def split: if_splits)
    with Cons.IH obtain found where "cs = found @ rest" "\<forall>c \<in> set found. names_header e c h" by blast
    then show ?thesis using \<open>names_header e c h\<close> by (intro exI [of _ "c # found"]) simp
  next
    case False
    then show ?thesis using Cons.prems by (intro exI [of _ "[]"]) simp
  qed
qed simp

lemma try_fold_link_header:
  assumes "try_fold (link_header e) s hs = Ok s'" and "hs \<noteq> []"
  shows "l1_chain e hs
       \<and> (\<forall>n x. ls_previous s = Some (n, x) \<longrightarrow> h_number (hd hs) = n + 1 \<and> h_parent_hash (hd hs) = x)
       \<and> ls_last_number s' = h_number (last hs) \<and> ls_last_hash s' = env_hash_slow e (last hs)
       \<and> (\<exists>found. ls_remaining s = found @ ls_remaining s' \<and> (\<forall>c \<in> set found. \<exists>h \<in> set hs. names_header e c h))"
  using assms
proof (induction hs arbitrary: s)
  case (Cons h hs)
  then obtain t where t: "link_header e s h = Ok t" "try_fold (link_header e) t hs = Ok s'"
    by (auto simp: ok_iff)
  have step: "ls_previous t = Some (h_number h, env_hash_slow e h)" "ls_last_number t = h_number h"
    "ls_last_hash t = env_hash_slow e h"
    "\<forall>n x. ls_previous s = Some (n, x) \<longrightarrow> h_number h = n + 1 \<and> h_parent_hash h = x"
    "take_checkpoints h (env_hash_slow e h) (ls_remaining s) = Ok (ls_remaining t)"
    using t(1) by (auto simp: link_header_def Let_def ok_iff split: option.splits)
  obtain found where found: "ls_remaining s = found @ ls_remaining t" "\<forall>c \<in> set found. names_header e c h"
    using take_checkpoints_Ok [OF step(5)] by blast
  show ?case
  proof (cases "hs = []")
    case True
    then have "s' = t" using t(2) by simp
    then show ?thesis using step found True by (auto simp: l1_chain_def)
  next
    case False
    from Cons.IH [OF t(2) False] obtain found' where
      IH: "l1_chain e hs" "h_number (hd hs) = h_number h + 1" "h_parent_hash (hd hs) = env_hash_slow e h"
        "ls_last_number s' = h_number (last hs)" "ls_last_hash s' = env_hash_slow e (last hs)"
        "ls_remaining t = found' @ ls_remaining s'" "\<forall>c \<in> set found'. \<exists>h \<in> set hs. names_header e c h"
      using step(1) by auto
    have "l1_chain e (h # hs)"
      using IH(1-3) False by (cases hs) (auto simp: l1_chain_def)
    moreover have "ls_remaining s = (found @ found') @ ls_remaining s'"
      using found IH by simp
    moreover have "\<forall>c \<in> set (found @ found'). \<exists>h' \<in> set (h # hs). names_header e c h'"
      using found IH by auto
    ultimately show ?thesis using step IH False by (metis last_ConsR list.sel(1))
  qed
qed simp

lemma link_headers_Ok:
  assumes "link_headers e g cps = Ok ()"
  shows "l1_chain e (tm_l1_ancestor_headers (gi_taiko g)) \<and> tm_l1_ancestor_headers (gi_taiko g) \<noteq> []
       \<and> env_hash_slow e (last (tm_l1_ancestor_headers (gi_taiko g))) = pr_originBlockHash (guest_proposal g)
       \<and> h_number (last (tm_l1_ancestor_headers (gi_taiko g))) = ucast (pr_originBlockNumber (guest_proposal g))
       \<and> (\<forall>c \<in> set cps. \<exists>h \<in> set (tm_l1_ancestor_headers (gi_taiko g)). names_header e c h)"
proof -
  let ?hs = "tm_l1_ancestor_headers (gi_taiko g)"
  let ?s = "\<lparr>ls_previous = None, ls_last_number = 0, ls_last_hash = 0, ls_remaining = cps\<rparr>"
  obtain s where ne: "?hs \<noteq> []" and f: "try_fold (link_header e) ?s ?hs = Ok s"
    and s: "ls_last_number s = ucast (pr_originBlockNumber (guest_proposal g))"
      "ls_last_hash s = pr_originBlockHash (guest_proposal g)" "ls_remaining s = []"
    using assms by (auto simp: link_headers_def Let_def ok_iff)
  from try_fold_link_header [OF f ne] s show ?thesis
    using ne by auto
qed

text \<open>
  What a batch that is not stalled is checked against, and where its checkpoints come from:
  the parent's checkpoint in the verified parent state, or the L1 chain below the origin
  block of the proposal.
\<close>

definition on_l1_chain :: "('spec, 'm) env \<Rightarrow> guest_input \<Rightarrow> decoded_anchor_checkpoint \<Rightarrow> bool" where
  "on_l1_chain e g c =
     (let headers = tm_l1_ancestor_headers (gi_taiko g)
      in l1_chain e headers \<and> headers \<noteq> []
         \<and> env_hash_slow e (last headers) = pr_originBlockHash (guest_proposal g)
         \<and> h_number (last headers) = ucast (pr_originBlockNumber (guest_proposal g))
         \<and> (\<exists>h \<in> set headers. names_header e c h))"

lemma check_parent_checkpoints_Ok_iff [ok_iff]:
  "check_parent_checkpoints msg p cs = Ok u \<longleftrightarrow> (\<forall>c \<in> set cs. c = p)"
  by (simp add: check_parent_checkpoints_def ok_iff)

lemma source_aware_plan:
  assumes "validate_source_aware_anchor_progression M as spans l t c = Ok plan"
  shows "requires_parent_checkpoint plan \<longleftrightarrow> l1_header_anchor_start_index plan > 0"
  using assms
  by (auto simp: validate_source_aware_anchor_progression_def Let_def ok_iff split: if_splits)

lemma anchor_start_index_Ok:
  assumes "anchor_start_index e g cps anchors pa spans rd = Ok start"
  shows "\<forall>c \<in> set (take start cps). verified_parent_shasta_checkpoint e g pa rd = Ok c"
proof (cases spans)
  case None
  then show ?thesis using assms by (auto simp: anchor_start_index_def Let_def ok_iff)
next
  case (Some sp)
  then obtain plan where plan: "validate_source_aware_anchor_progression (env_usize_max e) anchors sp pa
      (ucast (pr_originBlockNumber (guest_proposal g))) (mc_chain_id (tm_chain_spec (gi_taiko g))) = Ok plan"
      "start = l1_header_anchor_start_index plan"
    and forced: "requires_parent_checkpoint plan \<longrightarrow> (\<exists>parent forced.
      verified_parent_shasta_checkpoint e g pa rd = Ok parent \<and> get_range cps 0 start = Some forced
      \<and> (\<forall>c \<in> set forced. c = parent))"
    using assms by (auto simp: anchor_start_index_def Let_def ok_iff split: if_splits)
  then show ?thesis
    using source_aware_plan [OF plan(1)] by (cases "start = 0") (auto simp: get_range_def split: if_splits)
qed

lemma l1_anchor_linkage_Ok:
  assumes "validate_l1_anchor_linkage e g cps pa spans rd = Ok ()" and "c \<in> set cps"
  shows "verified_parent_shasta_checkpoint e g pa rd = Ok c \<or> on_l1_chain e g c"
proof (cases "should_bypass_stalled_anchor_linkage (map dc_block_number cps) pa
    (ucast (pr_originBlockNumber (guest_proposal g))) (mc_chain_id (tm_chain_spec (gi_taiko g)))")
  case True
  then show ?thesis using assms by (auto simp: validate_l1_anchor_linkage_def Let_def ok_iff)
next
  case False
  then obtain start where start: "anchor_start_index e g cps (map dc_block_number cps) pa spans rd = Ok start"
    and link: "link_headers e g (drop start cps) = Ok ()"
    using assms(1) by (auto simp: validate_l1_anchor_linkage_def Let_def ok_iff get_range_def split: if_splits)
  have "c \<in> set (take start cps) \<or> c \<in> set (drop start cps)"
    using assms(2) by (metis UnE append_take_drop_id set_append)
  then show ?thesis
    using anchor_start_index_Ok [OF start] link_headers_Ok [OF link] by (auto simp: on_l1_chain_def Let_def)
qed

lemma l1_anchor_linkage_origin:
  assumes "validate_l1_anchor_linkage e g cps pa spans rd = Ok ()"
  shows "env_hash_slow e (tm_l1_header (gi_taiko g)) = pr_originBlockHash (guest_proposal g)
       \<and> h_timestamp (tm_l1_header (gi_taiko g)) < ucast (pr_timestamp (guest_proposal g))"
  using assms by (auto simp: validate_l1_anchor_linkage_def Let_def ok_iff)

section \<open>The loop over the blocks\<close>

text \<open>The last \<open>n\<close> elements of a list: the window of ancestor headers.\<close>

definition last_n :: "nat \<Rightarrow> 'a list \<Rightarrow> 'a list" where
  "last_n n xs = drop (length xs - n) xs"

lemma roll_last_n:
  "roll_proposal_ancestor_headers_in_place (last_n 256 xs) h hash
     = last_n 256 (xs @ [from_header_with_hash h hash])"
  by (auto simp: roll_proposal_ancestor_headers_in_place_def last_n_def ANCESTOR_HEADER_WINDOW_LIMIT_def
      Let_def intro!: arg_cong [where f = "\<lambda>n. drop n xs"])

definition expected_at :: "'a list option \<Rightarrow> nat \<Rightarrow> 'a option" where
  "expected_at bs i = (case bs of None \<Rightarrow> None | Some bs \<Rightarrow> if i < length bs then Some (bs ! i) else None)"

lemma prove_block_Ok:
  assumes "prove_block e g spec signer xb vb s (i, si) = Ok s'"
  shows "\<exists>cp hash. validate_anchor_transaction_common e si spec signer = Ok cp
     \<and> vb i si (expected_at xb i) (pv_canonical_parent_header s) (pv_ancestor_headers s) spec = Ok hash
     \<and> (\<forall>x p. expected_at xb i = Some x \<and> pv_canonical_parent_header s = Some p
          \<longrightarrow> validate_shasta_manifest_block_metadata e g si x p = Ok ())
     \<and> (\<forall>p. pv_previous_block_hash s = Some p \<longrightarrow> h_parent_hash (bl_header (si_block si)) = p)
     \<and> (\<forall>n. pv_previous_block_number s = Some n \<longrightarrow> h_number (bl_header (si_block si)) = n + 1)
     \<and> s' = \<lparr>pv_anchor_checkpoints = pv_anchor_checkpoints s @ [cp],
            pv_first_parent_block_hash = (case pv_first_parent_block_hash s of
              None \<Rightarrow> Some (h_parent_hash (bl_header (si_block si))) | Some p \<Rightarrow> Some p),
            pv_previous_block_hash = Some hash,
            pv_previous_block_number = Some (h_number (bl_header (si_block si))),
            pv_last_state_root = Some (h_state_root (bl_header (si_block si))),
            pv_canonical_parent_header =
              (if pv_canonical_parent_header s \<noteq> None then Some (bl_header (si_block si)) else None),
            pv_ancestor_headers =
              roll_proposal_ancestor_headers_in_place (pv_ancestor_headers s) (bl_header (si_block si)) hash\<rparr>"
proof -
  let ?h = "bl_header (si_block si)"
  have x: "(case xb of None \<Rightarrow> None | Some bs \<Rightarrow> if i < length bs then Some (bs ! i) else None) = expected_at xb i"
    by (simp add: expected_at_def)
  obtain cp hash where
    "validate_anchor_transaction_common e si spec signer = Ok cp"
    "(case (expected_at xb i, pv_canonical_parent_header s) of
        (Some x, Some p) \<Rightarrow> validate_shasta_manifest_block_metadata e g si x p | _ \<Rightarrow> Ok ()) = Ok ()"
    "(case pv_previous_block_hash s of None \<Rightarrow> Ok ()
      | Some prev \<Rightarrow> ensure (h_parent_hash ?h = prev) (Msg ''block must link to previous block hash'')) = Ok ()"
    "(case pv_previous_block_number s of None \<Rightarrow> Ok ()
      | Some prev \<Rightarrow> ensure (prev + 1 = h_number ?h) (Msg ''block must increment block number by 1'')) = Ok ()"
    "vb i si (expected_at xb i) (pv_canonical_parent_header s) (pv_ancestor_headers s) spec = Ok hash"
    "s' = \<lparr>pv_anchor_checkpoints = pv_anchor_checkpoints s @ [cp],
            pv_first_parent_block_hash = (case pv_first_parent_block_hash s of
              None \<Rightarrow> Some (h_parent_hash ?h) | Some p \<Rightarrow> Some p),
            pv_previous_block_hash = Some hash, pv_previous_block_number = Some (h_number ?h),
            pv_last_state_root = Some (h_state_root ?h),
            pv_canonical_parent_header = (if pv_canonical_parent_header s \<noteq> None then Some ?h else None),
            pv_ancestor_headers = roll_proposal_ancestor_headers_in_place (pv_ancestor_headers s) ?h hash\<rparr>"
    using assms unfolding prove_block_def Let_def prod.case x bind_outcome_Ok_iff outcome.inject by auto
  then show ?thesis
    by (intro exI [of _ cp] exI [of _ hash]) (auto simp: ok_iff split: option.splits)
qed

abbreviation prove_start :: "header option \<Rightarrow> witness_header list \<Rightarrow> prove_state" where
  "prove_start parent headers \<equiv>
     \<lparr>pv_anchor_checkpoints = [], pv_first_parent_block_hash = None, pv_previous_block_hash = None,
      pv_previous_block_number = None, pv_last_state_root = None, pv_canonical_parent_header = parent,
      pv_ancestor_headers = headers\<rparr>"

lemma bind_unit_Ok_iff: "bind_outcome r f = Ok y \<longleftrightarrow> r = Ok () \<and> f () = Ok y"
  by (cases r) simp_all

text \<open>What the program has established when it returns.\<close>

lemma prove_Ok:
  assumes "prove_shasta_proposal_with_block_verifier_and_parent_reader e g vb rd = Ok out"
  obtains spec signer pa derived s where
    "gi_witnesses g \<noteq> []"
    "builtin_taiko_chain_spec e (pc_chain_id (gi_proof_carry_data g)) = Ok spec"
    "check_forks e g spec = Ok ()" "validate_proposal_ancestor_header_count g = Ok ()"
    "verify_proposal_mode_blob_usage e g = Ok ()"
    "check_chain_ids e g (pc_chain_id (gi_proof_carry_data g)) = Ok ()" "check_carry e g = Ok ()"
    "verified_parent_anchor_block_number g rd = Ok pa"
    "derive_expected_shasta_blocks e g spec pa = Ok derived"
    "try_fold (prove_block e g spec signer (map_option ds_blocks derived) vb)
       (prove_start (if derived = None \<or> initial_proposal_ancestor_headers g = [] then None
         else full_header (last (initial_proposal_ancestor_headers g))) (initial_proposal_ancestor_headers g)) (enumerate 0 (gi_witnesses g)) = Ok s"
    "validate_l1_anchor_linkage e g (pv_anchor_checkpoints s) pa (map_option ds_source_spans derived) rd = Ok ()"
    "check_checkpoint g s = Ok ()"
    "hash_shasta_subproof_input (env_keccak256 e) (gi_proof_carry_data g) = (Ok out :: (guest_error, b256) outcome)"
proof -
  obtain w ws where ws: "gi_witnesses g = w # ws"
    using assms by (cases "gi_witnesses g")
      (auto simp: prove_shasta_proposal_with_block_verifier_and_parent_reader_def)
  have id: "pc_chain_id (gi_proof_carry_data g) = cs_chain_id (si_chain_spec w)"
    using assms ws unfolding prove_shasta_proposal_with_block_verifier_and_parent_reader_def
    by (auto simp: check_chain_ids_def ok_iff Let_def)
  show ?thesis
    using assms
    unfolding prove_shasta_proposal_with_block_verifier_and_parent_reader_def ws list.case Let_def
      checked_initial_proposal_ancestor_headers_def id [symmetric] option.map_disc_iff
    unfolding bind_unit_Ok_iff bind_outcome_Ok_iff outcome.inject
    by (elim exE conjE, hypsubst, intro that) (assumption | simp (no_asm) only: ws list.simps not_False_eq_True)+
qed

end
