(* ===== verification/Guest_Sound.thy ===== *)
theory Guest_Sound
  imports Guest_Facts
begin

text \<open>
  The theorems about a proposal proof, for an arbitrary environment: what an accepted proof
  says about the anchors, the metadata and the execution of the blocks, and that the program
  does not panic.
\<close>

section \<open>Anchors\<close>

text \<open>A loop that appends one result per round.\<close>

lemma try_fold_results:
  assumes "try_fold f s xs = Ok s'"
    and "\<And>a x b. f a x = Ok b \<Longrightarrow> \<exists>y. out b = out a @ [y] \<and> Q x y"
  shows "\<exists>ys. out s' = out s @ ys \<and> list_all2 Q xs ys"
  using assms(1)
proof (induction xs arbitrary: s)
  case (Cons x xs)
  then obtain t where t: "f s x = Ok t" "try_fold f t xs = Ok s'" by (auto simp: ok_iff)
  with Cons.IH [OF t(2)] assms(2) [OF t(1)] obtain y ys where
    "out s' = out s @ y # ys" "Q x y" "list_all2 Q xs ys" by auto
  then show ?case by (intro exI [of _ "y # ys"]) simp
qed simp

lemma anchor_transaction_decoded:
  "validate_anchor_transaction_common e si spec signer = Ok c \<Longrightarrow> decode_anchor_checkpoint e (si_block si) = Ok c"
  by (auto simp: validate_anchor_transaction_common_def Let_def ok_iff split: list.splits)

text \<open>
  C6: In a proved batch the anchor transaction of every block decodes to a checkpoint that is
  either the one recorded in the verified parent state for the parent's anchor, or names, by
  number, hash and state root, a block of the supplied L1 headers; these headers are
  contiguous, linked by their hashes, and end in the origin block of the proposal.
\<close>

theorem proved_anchors_on_l1:
  assumes "prove_shasta_proposal_with_block_verifier_and_parent_reader e g verify_block read_parent = Ok out"
  shows "\<exists>parent_anchor. verified_parent_anchor_block_number g read_parent = Ok parent_anchor
     \<and> env_hash_slow e (tm_l1_header (gi_taiko g)) = pr_originBlockHash (guest_proposal g)
     \<and> h_timestamp (tm_l1_header (gi_taiko g)) < ucast (pr_timestamp (guest_proposal g))
     \<and> (\<forall>w \<in> set (gi_witnesses g). \<exists>c. decode_anchor_checkpoint e (si_block w) = Ok c
          \<and> (verified_parent_shasta_checkpoint e g parent_anchor read_parent = Ok c \<or> on_l1_chain e g c))"
  using assms
proof (rule prove_Ok)
  fix spec signer pa derived s
  assume pa: "verified_parent_anchor_block_number g read_parent = Ok pa"
    and fold: "try_fold (prove_block e g spec signer (map_option ds_blocks derived) verify_block)
       (prove_start (if derived = None \<or> initial_proposal_ancestor_headers g = [] then None
         else full_header (last (initial_proposal_ancestor_headers g))) (initial_proposal_ancestor_headers g)) (enumerate 0 (gi_witnesses g)) = Ok s"
    and link: "validate_l1_anchor_linkage e g (pv_anchor_checkpoints s) pa
      (map_option ds_source_spans derived) read_parent = Ok ()"
  have "\<exists>c. pv_anchor_checkpoints b = pv_anchor_checkpoints a @ [c]
      \<and> decode_anchor_checkpoint e (si_block (snd x)) = Ok c"
    if "prove_block e g spec signer (map_option ds_blocks derived) verify_block a x = Ok b" for a x b
  proof -
    obtain i w where x: "x = (i, w)" by (cases x)
    from prove_block_Ok [OF that [unfolded x]] show ?thesis
      unfolding x by (auto dest: anchor_transaction_decoded)
  qed
  from try_fold_results [where out = pv_anchor_checkpoints, OF fold this]
  have "list_all2 (\<lambda>x c. decode_anchor_checkpoint e (si_block (snd x)) = Ok c)
      (enumerate 0 (gi_witnesses g)) (pv_anchor_checkpoints s)" by simp
  then have dec: "\<exists>c \<in> set (pv_anchor_checkpoints s). decode_anchor_checkpoint e (si_block w) = Ok c"
    if "w \<in> set (gi_witnesses g)" for w
    using that by (fastforce simp: list_all2_conv_all_nth in_set_conv_nth nth_enumerate_eq)
  show ?thesis
    using pa l1_anchor_linkage_origin [OF link] l1_anchor_linkage_Ok [OF link] dec by blast
qed

section \<open>Metadata\<close>

text \<open>The header fields and the anchor that the derivation prescribes for a block.\<close>

definition matches_manifest ::
    "('spec, 'm) env \<Rightarrow> guest_input \<Rightarrow> header \<Rightarrow> stateless_input \<Rightarrow> 'm block_manifest \<Rightarrow> bool" where
  "matches_manifest e g parent si m =
     (let h = bl_header (si_block si)
      in h_timestamp h = bm_timestamp m \<and> h_beneficiary h = bm_coinbase m
       \<and> h_gas_limit h = saturating_add (bm_gas_limit m) ANCHOR_GAS_LIMIT
       \<and> h_extra_data h = env_encode_extra_data e (pr_basefeeSharingPctg (guest_proposal g))
           (ucast (pr_id (guest_proposal g)))
       \<and> h_mix_hash h = env_calculate_shasta_difficulty e (h_difficulty parent) (h_number h)
       \<and> (\<exists>c. decode_anchor_checkpoint e (si_block si) = Ok c
              \<and> dc_block_number c = bm_anchor_block_number m))"

text \<open>The blocks against their manifests, each with the block before it as its parent.\<close>

fun chain_matches ::
    "('spec, 'm) env \<Rightarrow> guest_input \<Rightarrow> header \<Rightarrow> stateless_input list \<Rightarrow> 'm block_manifest list \<Rightarrow> bool" where
  "chain_matches e g parent [] ms = (ms = [])"
| "chain_matches e g parent (w # ws) ms =
     (case ms of
        [] \<Rightarrow> False
      | m # ms \<Rightarrow> matches_manifest e g parent w m \<and> chain_matches e g (bl_header (si_block w)) ws ms)"

lemma metadata_Ok:
  assumes "validate_shasta_manifest_block_metadata e g si m parent = Ok ()"
    and "tm_proposal_id (gi_taiko g) = ucast (pr_id (guest_proposal g))"
  shows "matches_manifest e g parent si m"
  using assms
  by (auto simp: validate_shasta_manifest_block_metadata_def validate_anchor_transaction_binding_def
      matches_manifest_def Let_def ok_iff from_to_be_bytes_all)

lemma prove_blocks_match:
  assumes "try_fold (prove_block e g spec signer (Some ms) vb) s (enumerate k ws) = Ok s'"
    and "pv_canonical_parent_header s = Some p" "k + length ws = length ms"
    and "tm_proposal_id (gi_taiko g) = ucast (pr_id (guest_proposal g))"
  shows "chain_matches e g p ws (drop k ms)"
  using assms
proof (induction ws arbitrary: s k p)
  case (Cons w ws)
  then obtain t where t: "prove_block e g spec signer (Some ms) vb s (k, w) = Ok t"
    "try_fold (prove_block e g spec signer (Some ms) vb) t (enumerate (Suc k) ws) = Ok s'"
    by (auto simp: ok_iff)
  have k: "expected_at (Some ms) k = Some (ms ! k)" using Cons.prems(3) by (simp add: expected_at_def)
  have "validate_shasta_manifest_block_metadata e g w (ms ! k) p = Ok ()"
    and "pv_canonical_parent_header t = Some (bl_header (si_block w))"
    using prove_block_Ok [OF t(1)] Cons.prems(2) k by auto
  moreover have "drop k ms = ms ! k # drop (Suc k) ms"
    using Cons.prems(3) by (simp add: Cons_nth_drop_Suc)
  ultimately show ?case
    using Cons.IH [OF t(2)] Cons.prems(3,4) metadata_Ok by simp
qed simp

lemma default_reader_full_header:
  assumes "verified_parent_anchor_block_number g (default_parent_storage_reader st) = Ok pa"
  shows "initial_proposal_ancestor_headers g \<noteq> []
       \<and> (\<exists>h. full_header (last (initial_proposal_ancestor_headers g)) = Some h)"
  using assms
  by (auto simp: verified_parent_anchor_block_number_def checked_initial_proposal_ancestor_headers_def
      default_parent_storage_reader_def determine_pre_state_root_def parent_read_def Let_def ok_iff
      split: list.splits if_splits option.splits)

lemma derived_blocks_length:
  assumes "derive_expected_shasta_blocks e g spec pa = Ok derived" and "pr_sources (guest_proposal g) \<noteq> []"
  obtains d where "derived = Some d" "length (ds_blocks d) = length (gi_witnesses g)"
  using assms by (auto simp: derive_expected_shasta_blocks_def Let_def ok_iff split: prod.splits)

lemma check_carry_Ok:
  assumes "check_carry e g = Ok ()"
  shows "tm_proposal_id (gi_taiko g) = ucast (pr_id (guest_proposal g))"
  using assms by (auto simp: check_carry_def Let_def ok_iff)

text \<open>
  C5: The comparison with the derivation is never skipped on the way to a proof. The program
  compares a block only when the header before it is known in full; with the reader that the
  guests use this is always so, and a proved proposal with sources has exactly the derived
  blocks, with the timestamp, coinbase, gas limit, extra data, difficulty and anchor that
  the derivation prescribes, the parent of the first being the last ancestor header.
\<close>

theorem proved_blocks_match_derivation:
  assumes "prove_shasta_proposal_with_block_verifier e storage_from_witness g verify_block = Ok out"
    and "pr_sources (guest_proposal g) \<noteq> []"
  shows "\<exists>spec parent_anchor derived parent.
     verified_parent_anchor_block_number g (default_parent_storage_reader storage_from_witness) = Ok parent_anchor
     \<and> derive_expected_shasta_blocks e g spec parent_anchor = Ok (Some derived)
     \<and> full_header (last (initial_proposal_ancestor_headers g)) = Some parent
     \<and> chain_matches e g parent (gi_witnesses g) (ds_blocks derived)"
  using assms(1) unfolding prove_shasta_proposal_with_block_verifier_def
proof (rule prove_Ok)
  fix spec signer pa derived s
  assume pa: "verified_parent_anchor_block_number g (default_parent_storage_reader storage_from_witness) = Ok pa"
    and der: "derive_expected_shasta_blocks e g spec pa = Ok derived" and carry: "check_carry e g = Ok ()"
    and fold: "try_fold (prove_block e g spec signer (map_option ds_blocks derived) verify_block)
       (prove_start (if derived = None \<or> initial_proposal_ancestor_headers g = [] then None
         else full_header (last (initial_proposal_ancestor_headers g))) (initial_proposal_ancestor_headers g)) (enumerate 0 (gi_witnesses g)) = Ok s"
  obtain d where d: "derived = Some d" "length (ds_blocks d) = length (gi_witnesses g)"
    using derived_blocks_length [OF der assms(2)] .
  obtain h where h: "initial_proposal_ancestor_headers g \<noteq> []"
    "full_header (last (initial_proposal_ancestor_headers g)) = Some h"
    using default_reader_full_header [OF pa] by blast
  have "try_fold (prove_block e g spec signer (Some (ds_blocks d)) verify_block)
      (prove_start (Some h) (initial_proposal_ancestor_headers g)) (enumerate 0 (gi_witnesses g)) = Ok s"
    using fold d h by simp
  from prove_blocks_match [OF this, of h]
  have "chain_matches e g h (gi_witnesses g) (drop 0 (ds_blocks d))"
    using d check_carry_Ok [OF carry] by simp
  then show ?thesis using pa der d h by auto
qed

section \<open>Execution\<close>

text \<open>
  The abstract specification of a proof: starting from ancestor headers, blocks are appended
  to a chain one by one. A block may be appended when re-executing the derived transactions
  on the last 256 headers gives exactly this block, and when it links, by hash and number,
  to the block before it. The specification keeps the whole chain of headers.
\<close>

record l2_chain =
  lc_headers :: "witness_header list"
  lc_blocks :: "header list"

definition same_block :: "block \<Rightarrow> block \<Rightarrow> bool" where
  "same_block b c = (bl_header b = bl_header c \<and> map tx_rlp (bl_transactions b) = map tx_rlp (bl_transactions c))"

definition replays ::
    "('spec, 'm) env \<Rightarrow> guest_input \<Rightarrow> 'spec \<Rightarrow> ('spec block_reconstruction \<Rightarrow> (guest_error, block) outcome)
      \<Rightarrow> 'm block_manifest list \<Rightarrow> l2_chain \<Rightarrow> stateless_input \<Rightarrow> bool" where
  "replays e g spec reconstruct ms c w =
     (\<exists>txs attributes b. length (lc_blocks c) < length ms
        \<and> manifest_transactions_for_reconstruction e (ms ! length (lc_blocks c)) = Ok txs
        \<and> shasta_block_env_attributes w = Ok attributes
        \<and> reconstruct \<lparr>br_index = length (lc_blocks c), br_anchor_tx = hd (bl_transactions (si_block w)),
             br_transactions = txs, br_block_env = attributes, br_witness = si_witness w,
             br_ancestor_headers = last_n 256 (lc_headers c),
             br_shared_state_nodes = proposal_state_nodes g, br_chain_spec = spec\<rparr> = Ok b
        \<and> same_block b (si_block w))"

inductive l2_step ::
    "('spec, 'm) env \<Rightarrow> guest_input \<Rightarrow> 'spec \<Rightarrow> ('spec block_reconstruction \<Rightarrow> (guest_error, block) outcome)
      \<Rightarrow> 'm block_manifest list \<Rightarrow> l2_chain \<Rightarrow> stateless_input \<Rightarrow> l2_chain \<Rightarrow> bool" for e g spec reconstruct ms where
  append: "l2_step e g spec reconstruct ms c w
      \<lparr>lc_headers = lc_headers c @ [from_header (env_hash_slow e) h], lc_blocks = lc_blocks c @ [h]\<rparr>"
  if "h = bl_header (si_block w)" "replays e g spec reconstruct ms c w"
    "lc_blocks c \<noteq> [] \<Longrightarrow> h_parent_hash h = env_hash_slow e (last (lc_blocks c))
        \<and> h_number h = h_number (last (lc_blocks c)) + 1"

inductive l2_run ::
    "('spec, 'm) env \<Rightarrow> guest_input \<Rightarrow> 'spec \<Rightarrow> ('spec block_reconstruction \<Rightarrow> (guest_error, block) outcome)
      \<Rightarrow> 'm block_manifest list \<Rightarrow> l2_chain \<Rightarrow> stateless_input list \<Rightarrow> l2_chain \<Rightarrow> bool" for e g spec reconstruct ms where
  done': "l2_run e g spec reconstruct ms c [] c"
| step: "l2_step e g spec reconstruct ms c w c' \<Longrightarrow> l2_run e g spec reconstruct ms c' ws c''
     \<Longrightarrow> l2_run e g spec reconstruct ms c (w # ws) c''"

text \<open>The simulation relation between the loop variables and the chain.\<close>

definition simulates :: "('spec, 'm) env \<Rightarrow> prove_state \<Rightarrow> l2_chain \<Rightarrow> bool" where
  "simulates e s c =
     (pv_ancestor_headers s = last_n 256 (lc_headers c)
      \<and> (if lc_blocks c = []
         then pv_first_parent_block_hash s = None \<and> pv_previous_block_hash s = None
              \<and> pv_previous_block_number s = None \<and> pv_last_state_root s = None
         else pv_first_parent_block_hash s = Some (h_parent_hash (hd (lc_blocks c)))
              \<and> pv_previous_block_hash s = Some (env_hash_slow e (last (lc_blocks c)))
              \<and> pv_previous_block_number s = Some (h_number (last (lc_blocks c)))
              \<and> pv_last_state_root s = Some (h_state_root (last (lc_blocks c)))))"

lemma ball_zip_eq_iff:
  "length xs = length ys \<Longrightarrow> (\<forall>(x, y) \<in> set (zip xs ys). f x = g y) \<longleftrightarrow> map f xs = map g ys"
  by (induction rule: list_induct2) auto

lemma generated_block_Ok_iff [ok_iff]:
  "validate_generated_block_matches_canonical b c = Ok u \<longleftrightarrow> same_block b c"
  using ball_zip_eq_iff [of "bl_transactions b" "bl_transactions c" tx_rlp tx_rlp]
    map_eq_imp_length_eq [of tx_rlp "bl_transactions b" tx_rlp "bl_transactions c"]
  by (auto simp: validate_generated_block_matches_canonical_def same_block_def ok_iff)

lemma prove_block_simulated:
  assumes "prove_block e g spec signer (Some ms) (reconstructing_verifier e g recoverable reconstruct) s (i, w) = Ok s'"
    and "simulates e s c" "i = length (lc_blocks c)"
  shows "\<exists>c'. l2_step e g spec reconstruct ms c w c' \<and> simulates e s' c' \<and> length (lc_blocks c') = Suc i"
proof -
  let ?h = "bl_header (si_block w)"
  let ?c = "\<lparr>lc_headers = lc_headers c @ [from_header (env_hash_slow e) ?h], lc_blocks = lc_blocks c @ [?h]\<rparr>"
  obtain cp hash where
    v: "reconstructing_verifier e g recoverable reconstruct i w (expected_at (Some ms) i)
      (pv_canonical_parent_header s) (pv_ancestor_headers s) spec = Ok hash"
    and links: "\<forall>p. pv_previous_block_hash s = Some p \<longrightarrow> h_parent_hash ?h = p"
      "\<forall>n. pv_previous_block_number s = Some n \<longrightarrow> h_number ?h = n + 1"
    and s': "pv_first_parent_block_hash s' = (case pv_first_parent_block_hash s of
               None \<Rightarrow> Some (h_parent_hash ?h) | Some p \<Rightarrow> Some p)"
      "pv_previous_block_hash s' = Some hash" "pv_previous_block_number s' = Some (h_number ?h)"
      "pv_last_state_root s' = Some (h_state_root ?h)"
      "pv_ancestor_headers s' = roll_proposal_ancestor_headers_in_place (pv_ancestor_headers s) ?h hash"
    using prove_block_Ok [OF assms(1)] by auto
  have i: "i < length ms"
    using v by (auto simp: reconstructing_verifier_def expected_at_def ok_iff split: if_splits)
  obtain tx rest where tx: "bl_transactions (si_block w) = tx # rest"
    using v i by (cases "bl_transactions (si_block w)") (auto simp: reconstructing_verifier_def expected_at_def)
  have anc: "pv_ancestor_headers s = last_n 256 (lc_headers c)" using assms(2) by (simp add: simulates_def)
  have "replays e g spec reconstruct ms c w" and hash: "hash = env_hash_slow e ?h"
    using v i assms(3)
    by (auto simp: reconstructing_verifier_def expected_at_def ok_iff replays_def anc tx same_block_def)
  then have "l2_step e g spec reconstruct ms c w ?c"
    using links assms(2) by (intro l2_step.append) (auto simp: simulates_def)
  moreover have "simulates e s' ?c"
    using assms(2) s' by (auto simp: simulates_def hash roll_last_n from_header_def split: if_splits)
  ultimately show ?thesis using assms(3) by (intro exI [of _ ?c]) simp
qed

lemma prove_blocks_simulated:
  assumes "try_fold (prove_block e g spec signer (Some ms) (reconstructing_verifier e g recoverable reconstruct))
             s (enumerate (length (lc_blocks c)) ws) = Ok s'"
    and "simulates e s c"
  shows "\<exists>c'. l2_run e g spec reconstruct ms c ws c' \<and> simulates e s' c'
           \<and> length (lc_blocks c') = length (lc_blocks c) + length ws"
  using assms
proof (induction ws arbitrary: s c)
  case Nil
  then show ?case by (auto intro: l2_run.intros)
next
  case (Cons w ws)
  then obtain t where t: "prove_block e g spec signer (Some ms) (reconstructing_verifier e g recoverable reconstruct)
      s (length (lc_blocks c), w) = Ok t"
    "try_fold (prove_block e g spec signer (Some ms) (reconstructing_verifier e g recoverable reconstruct)) t
      (enumerate (Suc (length (lc_blocks c))) ws) = Ok s'"
    by (auto simp: ok_iff)
  obtain c1 where c1: "l2_step e g spec reconstruct ms c w c1" "simulates e t c1"
      "length (lc_blocks c1) = Suc (length (lc_blocks c))"
    using prove_block_simulated [OF t(1) Cons.prems(2) refl] by blast
  from Cons.IH [of t c1] t(2) c1 show ?case by (auto intro: l2_run.intros)
qed

text \<open>What the carry data says about the proposal, and about the chain of its blocks.\<close>

definition carries_proposal :: "('spec, 'm) env \<Rightarrow> guest_input \<Rightarrow> bool" where
  "carries_proposal e g =
     (let carry = gi_proof_carry_data g; ti = pc_transition_input carry; proposal = guest_proposal g
      in td_proposal_id ti = ucast (pr_id proposal)
         \<and> td_proposal_hash ti = hash_proposal (env_keccak256 e) (env_abi_encode_proposal e) proposal
         \<and> td_parent_proposal_hash ti = pr_parentProposalHash proposal
         \<and> st_proposer (td_transition ti) = pr_proposer proposal
         \<and> st_timestamp (td_transition ti) = ucast (pr_timestamp proposal)
         \<and> td_actual_prover ti = pd_actual_prover (tm_prover_data (gi_taiko g))
         \<and> list_all (\<lambda>w. cs_chain_id (si_chain_spec w) = pc_chain_id carry) (gi_witnesses g))"

definition carries_chain :: "('spec, 'm) env \<Rightarrow> guest_input \<Rightarrow> header list \<Rightarrow> bool" where
  "carries_chain e g hs =
     (let ti = pc_transition_input (gi_proof_carry_data g)
      in hs \<noteq> [] \<and> td_parent_block_hash ti = h_parent_hash (hd hs)
         \<and> ucast (cp_blockNumber (td_checkpoint ti)) = h_number (last hs)
         \<and> cp_blockHash (td_checkpoint ti) = env_hash_slow e (last hs)
         \<and> cp_stateRoot (td_checkpoint ti) = h_state_root (last hs))"

lemma carries_proposal_Ok:
  assumes "check_carry e g = Ok ()" "check_chain_ids e g (pc_chain_id (gi_proof_carry_data g)) = Ok ()"
  shows "carries_proposal e g"
  using assms by (auto simp: check_carry_def check_chain_ids_def carries_proposal_def Let_def ok_iff list_all_iff)

lemma carries_chain_Ok:
  assumes "check_checkpoint g s = Ok ()" "simulates e s c" "lc_blocks c \<noteq> []"
  shows "carries_chain e g (lc_blocks c)"
  using assms by (auto simp: check_checkpoint_def simulates_def carries_chain_def Let_def ok_iff)

lemma l2_run_blocks:
  "l2_run e g spec reconstruct ms c ws c' \<Longrightarrow> lc_blocks c' = lc_blocks c @ map (bl_header \<circ> si_block) ws"
  by (induction rule: l2_run.induct) (auto elim: l2_step.cases)

lemma prove_block_unexpected:
  "prove_block e g spec signer None (reconstructing_verifier e g recoverable reconstruct) s (i, w) \<noteq> Ok s'"
  using prove_block_Ok [of e g spec signer None "reconstructing_verifier e g recoverable reconstruct" s i w s']
  by (auto simp: reconstructing_verifier_def expected_at_def)

lemma reconstructed_proof:
  assumes "prove_shasta_proposal_with_reconstructor_and_parent_reader e recoverable g reconstruct read_parent = Ok out"
  obtains spec parent_anchor derived c where
    "builtin_taiko_chain_spec e (pc_chain_id (gi_proof_carry_data g)) = Ok spec"
    "verified_parent_anchor_block_number g read_parent = Ok parent_anchor"
    "derive_expected_shasta_blocks e g spec parent_anchor = Ok (Some derived)"
    "l2_run e g spec reconstruct (ds_blocks derived)
       \<lparr>lc_headers = initial_proposal_ancestor_headers g, lc_blocks = []\<rparr> (gi_witnesses g) c"
    "lc_blocks c = map (bl_header \<circ> si_block) (gi_witnesses g)"
    "carries_proposal e g" "carries_chain e g (lc_blocks c)"
    "hash_shasta_subproof_input (env_keccak256 e) (gi_proof_carry_data g) = (Ok out :: (guest_error, b256) outcome)"
  using assms unfolding prove_shasta_proposal_with_reconstructor_and_parent_reader_def
proof (rule prove_Ok)
  fix spec signer pa derived s
  let ?init = "\<lparr>lc_headers = initial_proposal_ancestor_headers g, lc_blocks = []\<rparr>"
  let ?v = "reconstructing_verifier e g recoverable reconstruct"
  assume ws: "gi_witnesses g \<noteq> []" and count: "validate_proposal_ancestor_header_count g = Ok ()"
    and fold: "try_fold (prove_block e g spec signer (map_option ds_blocks derived) ?v)
       (prove_start (if derived = None \<or> initial_proposal_ancestor_headers g = [] then None
         else full_header (last (initial_proposal_ancestor_headers g))) (initial_proposal_ancestor_headers g))
       (enumerate 0 (gi_witnesses g)) = Ok s"
    and facts: "builtin_taiko_chain_spec e (pc_chain_id (gi_proof_carry_data g)) = Ok spec"
      "verified_parent_anchor_block_number g read_parent = Ok pa"
      "derive_expected_shasta_blocks e g spec pa = Ok derived"
      "check_chain_ids e g (pc_chain_id (gi_proof_carry_data g)) = Ok ()" "check_carry e g = Ok ()"
      "check_checkpoint g s = Ok ()"
      "hash_shasta_subproof_input (env_keccak256 e) (gi_proof_carry_data g) = (Ok out :: (guest_error, b256) outcome)"
  have "derived \<noteq> None"
    using fold ws by (cases "gi_witnesses g"; cases derived) (auto simp: ok_iff prove_block_unexpected)
  then obtain d where d: "derived = Some d" by blast
  have "length (initial_proposal_ancestor_headers g) \<le> 256"
    using count by (auto simp: validate_proposal_ancestor_header_count_def Let_def ok_iff
        initial_proposal_ancestor_headers_def canonicalize_headers_def ANCESTOR_HEADER_WINDOW_LIMIT_def)
  then have sim: "simulates e (prove_start p (initial_proposal_ancestor_headers g)) ?init" for p
    by (simp add: simulates_def last_n_def)
  have "try_fold (prove_block e g spec signer (Some (ds_blocks d)) ?v)
      (prove_start (if initial_proposal_ancestor_headers g = [] then None
         else full_header (last (initial_proposal_ancestor_headers g))) (initial_proposal_ancestor_headers g))
      (enumerate (length (lc_blocks ?init)) (gi_witnesses g)) = Ok s"
    using fold d by simp
  from prove_blocks_simulated [OF this sim]
  obtain c where c: "l2_run e g spec reconstruct (ds_blocks d) ?init (gi_witnesses g) c" "simulates e s c"
    by blast
  have blocks: "lc_blocks c = map (bl_header \<circ> si_block) (gi_witnesses g)"
    using l2_run_blocks [OF c(1)] by simp
  show thesis
    by (rule that [OF facts(1,2) facts(3) [unfolded d] c(1) blocks carries_proposal_Ok [OF facts(5,4)]
          carries_chain_Ok [OF facts(6) c(2)] facts(7)]) (simp add: blocks ws)
qed

text \<open>
  C1: The proof program refines the execution of a chain. When it returns a public input, this
  is the hash of carry data that describes the proposal, and the blocks of the input are a
  run of the chain specification: each block is what re-executing the derived transactions
  on the last 256 headers gives, and the blocks are linked by hash and number. The carry
  data names the parent of the first block and the number, hash and state root of the last.
\<close>

theorem proof_refines_execution:
  assumes "prove_shasta_proposal_with_reconstructor_and_parent_reader e recoverable g reconstruct read_parent = Ok out"
  shows "\<exists>spec parent_anchor derived c.
     builtin_taiko_chain_spec e (pc_chain_id (gi_proof_carry_data g)) = Ok spec
     \<and> verified_parent_anchor_block_number g read_parent = Ok parent_anchor
     \<and> derive_expected_shasta_blocks e g spec parent_anchor = Ok (Some derived)
     \<and> l2_run e g spec reconstruct (ds_blocks derived)
         \<lparr>lc_headers = initial_proposal_ancestor_headers g, lc_blocks = []\<rparr> (gi_witnesses g) c
     \<and> carries_proposal e g \<and> carries_chain e g (lc_blocks c)
     \<and> hash_shasta_subproof_input (env_keccak256 e) (gi_proof_carry_data g)
         = (Ok out :: (guest_error, b256) outcome)"
  by (rule reconstructed_proof [OF assms]) blast

section \<open>Aggregation\<close>

lemma ball_enumerate_iff: "(\<forall>x \<in> set (enumerate 0 xs). P x) \<longleftrightarrow> (\<forall>i < length xs. P (i, xs ! i))"
  by (metis (no_types, lifting) add_0 in_set_conv_nth length_enumerate nth_enumerate_eq)

lemma aggregate_Ok_iff:
  "aggregate_shasta_zk_with_verifier k input img vp = Ok out \<longleftrightarrow>
     (let carries = za_proof_carry_data_vec input; inputs = za_block_inputs input in
        length inputs = length carries \<and> za_prover_address input = 0
        \<and> validate_shasta_proof_carry_data_vec carries
        \<and> (\<forall>i < length carries. vp i (inputs ! i)
             \<and> hash_shasta_subproof_input k (carries ! i) = (Ok (inputs ! i) :: (guest_error, b256) outcome))
        \<and> shasta_zk_aggregation_public_input_from_proof_carry_data_vec k img carries 0
            = (Ok (Some out) :: (guest_error, b256 option) outcome))"
proof -
  have check: "verify_block_input k vp cs (i, x) = Ok () \<longleftrightarrow> vp i x
      \<and> hash_shasta_subproof_input k (cs ! i) = (Ok x :: (guest_error, b256) outcome)" for cs i x
    by (auto simp: verify_block_input_def ok_iff)
  have fold: "try_fold (\<lambda>_. verify_block_input k vp cs) () (enumerate 0 xs) = Ok () \<longleftrightarrow>
      (\<forall>i < length xs. vp i (xs ! i)
         \<and> hash_shasta_subproof_input k (cs ! i) = (Ok (xs ! i) :: (guest_error, b256) outcome))" for cs xs
    by (auto simp: try_fold_unit_Ok_iff ball_enumerate_iff check)
  show ?thesis
    by (cases "za_proof_carry_data_vec input")
      (auto simp: aggregate_shasta_zk_with_verifier_def Let_def bind_unit_Ok_iff ok_iff build_commitment_eq fold
        shasta_zk_aggregation_public_input_from_proof_carry_data_vec_def validate_carry_iff)
qed

lemma carry_fits_hash:
  assumes "carry_fits c"
  shows "hash_shasta_subproof_input k c = Ok (k (words_message (subproof_words k c)))"
  using assms by (simp add: carry_fits_iff hash_subproof_input_eq word_le_nat_alt)

lemma aggregate_no_panic: "\<not> panics (aggregate_shasta_zk_with_verifier k input img vp)"
proof -
  let ?cs = "za_proof_carry_data_vec input" and ?xs = "za_block_inputs input"
  have "\<not> panics (try_fold (\<lambda>_. verify_block_input k vp ?cs) () (enumerate 0 ?xs))"
    if valid: "validate_shasta_proof_carry_data_vec ?cs" and len: "length ?xs = length ?cs"
  proof (rule try_fold_no_panic [where P = "\<lambda>_. True"])
    fix x assume "x \<in> set (enumerate 0 ?xs)"
    then have "fst x < length ?cs" using len by (simp add: in_set_enumerate_eq)
    then obtain i y where x: "x = (i, y)" "i < length ?cs" by (cases x) simp
    then have "carry_fits (?cs ! i)" using valid by (simp add: validate_carry_iff list_all_length)
    then show "\<not> panics (verify_block_input k vp ?cs x)"
      by (simp add: x verify_block_input_def panics_bind_iff carry_fits_hash)
  qed simp_all
  then show ?thesis
    by (cases ?cs) (auto simp: aggregate_shasta_zk_with_verifier_def Let_def panics_bind_iff build_commitment_eq ok_iff
        split: if_splits)
qed

text \<open>
  C22: The aggregation program returns a public input exactly when the carry data is a
  consecutive batch, the prover address is zero, there is one sub-proof for each carry
  record, every sub-proof verifies, and its public input is the hash of its record; the result is
  then the public input that the host computes for this batch. It never panics: the fields
  that the hash cannot encode are refused before anything is hashed.
\<close>

theorem aggregate_exact:
  "(aggregate_shasta_zk_with_verifier keccak256 input image_id verify_proof = Ok out \<longleftrightarrow>
     (let carries = za_proof_carry_data_vec input; inputs = za_block_inputs input in
        length inputs = length carries \<and> za_prover_address input = 0 \<and> consecutive_batch carries
        \<and> list_all (\<lambda>i. verify_proof i (inputs ! i)
             \<and> hash_shasta_subproof_input keccak256 (carries ! i) = (Ok (inputs ! i) :: (guest_error, b256) outcome))
            [0..<length carries]
        \<and> shasta_zk_aggregation_public_input_from_proof_carry_data_vec keccak256 image_id carries 0
            = (Ok (Some out) :: (guest_error, b256 option) outcome)))
   \<and> \<not> panics (aggregate_shasta_zk_with_verifier keccak256 input image_id verify_proof)"
  using consecutive_batch_of_valid valid_of_consecutive_batch aggregate_no_panic
  by (auto simp: aggregate_Ok_iff Let_def list_all_iff)

section \<open>An aggregated batch is one chain\<close>

lemma successively_concat:
  assumes "\<forall>xs \<in> set xss. xs \<noteq> [] \<and> successively P xs"
    and "successively (\<lambda>xs ys. P (last xs) (hd ys)) xss"
  shows "successively P (concat xss)"
  using assms
proof (induction xss rule: induct_list012)
  case (3 xs ys xss)
  then show ?case by (auto simp: successively_append_iff)
qed simp_all

lemma l2_run_linked:
  assumes "l2_run e g spec reconstruct ms c ws c'"
    and "successively (\<lambda>h h'. h_parent_hash h' = env_hash_slow e h) (lc_blocks c)"
  shows "successively (\<lambda>h h'. h_parent_hash h' = env_hash_slow e h) (lc_blocks c')"
  using assms
  by (induction rule: l2_run.induct) (auto elim!: l2_step.cases simp: successively_append_iff)

abbreviation block_headers :: "guest_input \<Rightarrow> header list" where
  "block_headers g \<equiv> map (bl_header \<circ> si_block) (gi_witnesses g)"

lemma proved_chain:
  assumes "prove_shasta_proposal_with_reconstructor_and_parent_reader e recoverable g reconstruct read_parent = Ok out"
  shows "carries_proposal e g \<and> carries_chain e g (block_headers g)
     \<and> successively (\<lambda>h h'. h_parent_hash h' = env_hash_slow e h) (block_headers g)
     \<and> hash_shasta_subproof_input (env_keccak256 e) (gi_proof_carry_data g) = (Ok out :: (guest_error, b256) outcome)"
  by (rule reconstructed_proof [OF assms]) (use l2_run_linked in \<open>fastforce simp del: comp_apply\<close>)

lemma same_carry:
  assumes "hash_shasta_subproof_input k c = (Ok x :: (guest_error, b256) outcome)"
    and "hash_shasta_subproof_input k c' = (Ok x :: (guest_error, b256) outcome)"
    and "inj_on k M" "subproof_messages k c \<subseteq> M" "subproof_messages k c' \<subseteq> M"
  shows "c = c'"
  using assms(1,2) inj_on_subset [OF assms(3), of "subproof_messages k c \<union> subproof_messages k c'"] assms(4,5)
  by (intro subproof_message_inject [of k]) (auto simp: hash_subproof_input_eq split: if_splits)

lemma linked_batch:
  assumes "validate_shasta_proof_carry_data_vec (map gi_proof_carry_data gs)"
    and g: "\<And>g. g \<in> set gs \<Longrightarrow> carries_proposal e g \<and> carries_chain e g (block_headers g)
      \<and> successively (\<lambda>h h'. h_parent_hash h' = env_hash_slow e h) (block_headers g)"
  shows "successively (\<lambda>h h'. h_parent_hash h' = env_hash_slow e h) (concat (map block_headers gs))"
    and "successively (\<lambda>g g'. pr_parentProposalHash (guest_proposal g')
          = hash_proposal (env_keccak256 e) (env_abi_encode_proposal e) (guest_proposal g)) gs"
proof -
  have follows: "successively (\<lambda>g g'. carry_follows (gi_proof_carry_data g) (gi_proof_carry_data g')) gs"
    using assms(1) by (simp add: validate_carry_iff successively_map)
  show "successively (\<lambda>g g'. pr_parentProposalHash (guest_proposal g')
      = hash_proposal (env_keccak256 e) (env_abi_encode_proposal e) (guest_proposal g)) gs"
    using g by (intro successively_mono [OF follows]) (auto simp: carry_follows_iff carries_proposal_def Let_def)
  have "successively (\<lambda>g g'. h_parent_hash (hd (block_headers g')) = env_hash_slow e (last (block_headers g))) gs"
    using g by (intro successively_mono [OF follows]) (auto simp: carry_follows_iff carries_chain_def Let_def simp del: comp_apply)
  then show "successively (\<lambda>h h'. h_parent_hash h' = env_hash_slow e h) (concat (map block_headers gs))"
    using g by (intro successively_concat) (auto simp: successively_map carries_chain_def Let_def simp del: comp_apply)
qed

lemma batch_ends:
  assumes "gs \<noteq> []" and "\<And>g. g \<in> set gs \<Longrightarrow> block_headers g \<noteq> []"
  shows "hd (concat (map block_headers gs)) = hd (block_headers (hd gs))"
    and "last (concat (map block_headers gs)) = last (block_headers (last gs))"
  using assms by (cases gs; simp) (use assms in \<open>cases gs rule: rev_cases; simp\<close>)

text \<open>
  C2: End to end: suppose every sub-proof that the aggregation accepts was produced by the
  proof program on some guest input, and the hash does not collide on the messages of the
  carry records. Then the aggregated records are those of the guest inputs, and all their
  blocks together form one chain linked by header hashes, across the proposals; each
  proposal names the one before it as its parent; and the commitment starts at the parent
  of the first block and ends with the number and the state root of the last.
\<close>

theorem aggregated_batch_is_one_chain:
  fixes gs :: "guest_input list"
  defines "headers \<equiv> concat (map block_headers gs)"
  assumes "aggregate_shasta_zk_with_verifier (env_keccak256 e) input image_id verify_proof = Ok out"
    and "length gs = length (za_block_inputs input)"
    and "\<forall>i < length gs. verify_proof i (za_block_inputs input ! i) \<longrightarrow>
      prove_shasta_proposal_with_reconstructor_and_parent_reader e recoverable (gs ! i) reconstruct read_parent
        = Ok (za_block_inputs input ! i)"
    and "inj_on (env_keccak256 e) (\<Union>c \<in> set (za_proof_carry_data_vec input) \<union> gi_proof_carry_data ` set gs.
      subproof_messages (env_keccak256 e) c)"
  shows "map gi_proof_carry_data gs = za_proof_carry_data_vec input
     \<and> successively (\<lambda>h h'. h_parent_hash h' = env_hash_slow e h) headers
     \<and> successively (\<lambda>g g'. pr_parentProposalHash (guest_proposal g')
          = hash_proposal (env_keccak256 e) (env_abi_encode_proposal e) (guest_proposal g)) gs
     \<and> (\<exists>commitment. build_shasta_commitment_from_proof_carry_data_vec (za_proof_carry_data_vec input)
            = (Ok (Some commitment) :: (guest_error, commitment option) outcome)
          \<and> cm_firstProposalParentBlockHash commitment = h_parent_hash (hd headers)
          \<and> ucast (cm_endBlockNumber commitment) = h_number (last headers)
          \<and> cm_endStateRoot commitment = h_state_root (last headers))"
proof -
  let ?cs = "za_proof_carry_data_vec input" and ?xs = "za_block_inputs input" and ?k = "env_keccak256 e"
  have agg: "length ?xs = length ?cs" "validate_shasta_proof_carry_data_vec ?cs"
    "\<forall>i < length ?cs. verify_proof i (?xs ! i)
       \<and> hash_shasta_subproof_input ?k (?cs ! i) = (Ok (?xs ! i) :: (guest_error, b256) outcome)"
    using assms(2) by (auto simp: aggregate_Ok_iff Let_def)
  have g: "carries_proposal e (gs ! i) \<and> carries_chain e (gs ! i) (block_headers (gs ! i))
      \<and> successively (\<lambda>h h'. h_parent_hash h' = env_hash_slow e h) (block_headers (gs ! i))
      \<and> gi_proof_carry_data (gs ! i) = ?cs ! i" if i: "i < length gs" for i
  proof -
    have p: "prove_shasta_proposal_with_reconstructor_and_parent_reader e recoverable (gs ! i) reconstruct read_parent
        = Ok (?xs ! i)" using assms(3,4) agg i by auto
    have "gi_proof_carry_data (gs ! i) = ?cs ! i"
      using proved_chain [OF p] agg assms(3,5) i by (intro same_carry [of ?k]) auto
    then show ?thesis using proved_chain [OF p] by blast
  qed
  have carries: "map gi_proof_carry_data gs = ?cs"
    using g agg assms(3) by (simp add: list_eq_iff_nth_eq)
  have all: "carries_proposal e g \<and> carries_chain e g (block_headers g)
      \<and> successively (\<lambda>h h'. h_parent_hash h' = env_hash_slow e h) (block_headers g)" if "g \<in> set gs" for g
    using that g by (auto simp: in_set_conv_nth)
  have ne: "gs \<noteq> []" using agg(2) carries by (auto simp: validate_carry_iff)
  let ?cm = "commitment_of (map gi_proof_carry_data gs)"
  have "build_shasta_commitment_from_proof_carry_data_vec ?cs
      = (Ok (Some ?cm) :: (guest_error, commitment option) outcome)"
    using agg(2) carries by (simp add: build_commitment_eq)
  moreover have "cm_firstProposalParentBlockHash ?cm = h_parent_hash (hd headers)"
    "ucast (cm_endBlockNumber ?cm) = h_number (last headers)" "cm_endStateRoot ?cm = h_state_root (last headers)"
    using batch_ends [OF ne] all [of "hd gs"] all [of "last gs"] all ne unfolding headers_def
    by (simp_all add: carries_chain_def commitment_of_def Let_def hd_map last_map del: comp_apply)
  ultimately show ?thesis
    using linked_batch [of gs e] agg(2) carries all unfolding headers_def by auto
qed

end
