(* ===== verification/Guest_Checks.thy ===== *)
theory Guest_Checks
  imports Guest_Sound
begin

text \<open>
  The blob check of the proof program, exactly, and the absence of panics in the whole
  program.
\<close>

section \<open>Blobs\<close>

text \<open>
  The blobs of a source are proved: without blob hashes nothing is supplied; otherwise there is
  one blob with one commitment and one proof per hash, the proof is valid for the blob and
  the commitment, and the versioned hash of the commitment is the one in the proposal.
\<close>

definition blobs_proved :: "('spec, 'm) env \<Rightarrow> input_data_source \<Rightarrow> derivation_source \<Rightarrow> bool" where
  "blobs_proved e ds source =
     (let hashes = blob_hashes (blob_slice_of source)
      in if hashes = []
         then tx_data_from_calldata ds = [] \<and> tx_data_from_blob ds = [] \<and> blob_commitments ds = []
              \<and> blob_proofs ds = []
         else length (tx_data_from_blob ds) = length hashes \<and> length (blob_commitments ds) = length hashes
              \<and> length (blob_proofs ds) = length hashes
              \<and> list_all (\<lambda>i. length (blob_commitments ds ! i) = 48 \<and> length (blob_proofs ds ! i) = 48
                    \<and> verify_blob_proof_of_equivalence e (tx_data_from_blob ds ! i) (blob_commitments ds ! i)
                        (blob_proofs ds ! i) = Ok ()
                    \<and> commitment_to_version_hash e (blob_commitments ds ! i) = hashes ! i)
                  [0..<length hashes])"

lemma check_blob_Ok_iff:
  "i < length (blob_proofs ds) \<Longrightarrow> check_blob e ds hashes (i, b) = Ok () \<longleftrightarrow>
     length (blob_commitments ds ! i) = 48 \<and> length (blob_proofs ds ! i) = 48
     \<and> verify_blob_proof_of_equivalence e b (blob_commitments ds ! i) (blob_proofs ds ! i) = Ok ()
     \<and> commitment_to_version_hash e (blob_commitments ds ! i) = hashes ! i"
  by (auto simp: check_blob_def read_kzg_bytes_def bind_outcome_Ok_iff)

lemma check_data_source_Ok_iff:
  "check_data_source e sources (i, ds) = Ok () \<longleftrightarrow> i < length sources \<and> blobs_proved e ds (sources ! i)"
proof (cases "i < length sources \<and> blob_hashes (blob_slice_of (sources ! i)) \<noteq> []")
  case True
  let ?h = "blob_hashes (blob_slice_of (sources ! i))"
  have "try_fold (\<lambda>_. check_blob e ds ?h) () (enumerate 0 (tx_data_from_blob ds)) = Ok () \<longleftrightarrow>
      blobs_proved e ds (sources ! i)"
    if "length (tx_data_from_blob ds) = length ?h" "length (blob_commitments ds) = length ?h"
      "length (blob_proofs ds) = length ?h"
    using True that
    by (auto simp: try_fold_unit_Ok_iff ball_enumerate_iff check_blob_Ok_iff blobs_proved_def list_all_iff Let_def)
  moreover have "\<not> blobs_proved e ds (sources ! i)"
    if "\<not> (length (tx_data_from_blob ds) = length ?h \<and> length (blob_commitments ds) = length ?h
      \<and> length (blob_proofs ds) = length ?h)"
    using True that by (auto simp: blobs_proved_def Let_def)
  ultimately show ?thesis using True by (auto simp: check_data_source_def Let_def)
qed (auto simp: check_data_source_def blobs_proved_def Let_def)

text \<open>
  C39: The blob check of the guest accepts an input exactly when the proposal has one data
  source per derivation source and the blobs of each source are proved: a source without
  blob hashes brings no payload at all, and every blob of the others matches the versioned
  hash in the proposal through a 48-byte commitment and a valid 48-byte proof.
\<close>

theorem blob_usage_exact:
  "verify_proposal_mode_blob_usage e g = Ok () \<longleftrightarrow>
     list_all2 (blobs_proved e) (tm_data_sources (gi_taiko g)) (pr_sources (guest_proposal g))"
  by (auto simp: verify_proposal_mode_blob_usage_def Let_def try_fold_unit_Ok_iff ball_enumerate_iff
      check_data_source_Ok_iff list_all2_conv_all_nth)

section \<open>No panics\<close>

named_theorems no_panic \<open>checks that do not panic\<close>

lemmas [no_panic] = panics_bind_iff split_def Let_def

lemma try_fold_no_panic_all [no_panic]:
  "(\<And>a x. \<not> panics (f a x)) \<Longrightarrow> \<not> panics (try_fold f s xs)"
  by (rule try_fold_no_panic [where P = "\<lambda>_. True"]) simp_all

lemma predeploys_no_panic [no_panic]:
  "\<not> panics (shasta_taiko_l2_address c)" "\<not> panics (shasta_checkpoint_store_address c)"
  by (simp_all add: shasta_taiko_l2_address_def shasta_checkpoint_store_address_def shasta_predeploy_address_def Let_def)

lemma anchor_checks_no_panic [no_panic]:
  "\<not> panics (validate_anchor_progression as l t c)"
  "\<not> panics (validate_source_aware_anchor_progression M as spans l t c)"
proof -
  show p: "\<not> panics (validate_anchor_progression as l t c)" for as l t c
    by (simp add: validate_anchor_progression_def no_panic check_anchor_def split: option.splits)
  show "\<not> panics (validate_source_aware_anchor_progression M as spans l t c)"
    by (simp add: validate_source_aware_anchor_progression_def no_panic check_forced_source_def
        check_forced_anchor_def p split: if_splits)
qed

lemma blob_usage_no_panic [no_panic]: "\<not> panics (verify_proposal_mode_blob_usage e g)"
  by (simp add: verify_proposal_mode_blob_usage_def check_data_source_def check_blob_def read_kzg_bytes_def
      verify_blob_proof_of_equivalence_def kzg_bytes48_def no_panic)

lemma anchor_transaction_no_panic [no_panic]:
  "\<not> panics (decode_anchor_checkpoint e b)" "\<not> panics (validate_anchor_transaction_common e si spec signer)"
proof -
  show d: "\<not> panics (decode_anchor_checkpoint e b)" for b
    by (simp add: decode_anchor_checkpoint_def no_panic split: list.splits)
  show "\<not> panics (validate_anchor_transaction_common e si spec signer)"
    by (simp add: validate_anchor_transaction_common_def no_panic d split: list.splits option.splits)
qed

lemma header_checks_no_panic [no_panic]:
  "\<not> panics (validate_proposal_ancestor_header_count g)" "\<not> panics (checked_initial_proposal_ancestor_headers g)"
  "\<not> panics (last_full_header hs)" "\<not> panics (builtin_taiko_chain_spec e c)"
  "\<not> panics (shasta_fork_timestamp e spec)"
  by (simp_all add: validate_proposal_ancestor_header_count_def checked_initial_proposal_ancestor_headers_def
      last_full_header_def builtin_taiko_chain_spec_def shasta_fork_timestamp_def no_panic
      split: list.splits fork_condition.splits)

lemma metadata_no_panic [no_panic]: "\<not> panics (validate_shasta_manifest_block_metadata e g si x p)"
  by (simp add: validate_shasta_manifest_block_metadata_def validate_anchor_transaction_binding_def no_panic)

lemma input_checks_no_panic [no_panic]:
  "\<not> panics (check_forks e g spec)" "\<not> panics (check_chain_ids e g c)" "\<not> panics (check_carry e g)"
  by (simp_all add: check_forks_def check_chain_ids_def validate_supported_chain_id_def check_carry_def no_panic)

lemma take_checkpoints_no_panic [no_panic]: "\<not> panics (take_checkpoints h hash cs)"
  by (induction cs) simp_all

lemma link_headers_no_panic [no_panic]: "\<not> panics (link_headers e g cps)"
  by (simp add: link_headers_def link_header_def no_panic split: option.splits)

lemma derived_no_panic [no_panic]:
  assumes "protocol_ok (env_protocol e)"
  shows "\<not> panics (derive_expected_shasta_blocks e g spec pa)"
proof -
  have "\<not> panics (derive_source e data meta fork_ts st x)" for data meta fork_ts st x
    by (cases st; cases x)
      (simp add: derive_source_def no_panic prepare_result(2) [OF assms] source_payload_no_panic)
  then show ?thesis by (simp add: derive_expected_shasta_blocks_def no_panic)
qed

lemma parent_reads_no_panic:
  assumes "\<And>r. \<not> panics (read_parent r)"
  shows "\<not> panics (verified_parent_anchor_block_number g read_parent)"
    and "\<not> panics (verified_parent_shasta_checkpoint e g n read_parent)"
    and "\<not> panics (validate_l1_anchor_linkage e g cps pa spans read_parent)"
proof -
  show "\<not> panics (verified_parent_anchor_block_number g read_parent)"
    by (simp add: verified_parent_anchor_block_number_def no_panic assms split: list.splits option.splits)
  show p: "\<not> panics (verified_parent_shasta_checkpoint e g n read_parent)" for n
    by (simp add: verified_parent_shasta_checkpoint_def no_panic assms split: list.splits)
  show "\<not> panics (validate_l1_anchor_linkage e g cps pa spans read_parent)"
    by (simp add: validate_l1_anchor_linkage_def anchor_start_index_def check_parent_checkpoints_def no_panic p
        split: option.splits)
qed

lemma try_fold_last_round:
  "try_fold f s xs = Ok s' \<Longrightarrow> xs \<noteq> [] \<Longrightarrow> \<exists>a x. f a x = Ok s'"
proof (induction xs arbitrary: s)
  case (Cons x xs)
  then obtain t where "f s x = Ok t" "try_fold f t xs = Ok s'" by (auto simp: ok_iff)
  then show ?case using Cons.IH by (cases "xs = []") auto
qed simp

lemma prove_block_no_panic:
  assumes "\<And>i w x p hs. \<not> panics (vb i w x p hs spec)"
  shows "\<not> panics (prove_block e g spec signer xb vb s x)"
  using assms by (cases x) (simp add: prove_block_def no_panic split: option.splits)

lemma check_checkpoint_no_panic:
  assumes "try_fold (prove_block e g spec signer xb vb) s0 (enumerate 0 ws) = Ok s" "ws \<noteq> []"
  shows "\<not> panics (check_checkpoint g s)"
proof -
  have "enumerate 0 ws \<noteq> []" using assms(2) by (cases ws) simp_all
  then obtain a x where "prove_block e g spec signer xb vb a x = Ok s"
    using try_fold_last_round [OF assms(1)] by blast
  then obtain p n h r where "pv_first_parent_block_hash s = Some p" "pv_previous_block_number s = Some n"
    "pv_previous_block_hash s = Some h" "pv_last_state_root s = Some r"
    by (cases x) (auto dest!: prove_block_Ok split: option.splits)
  then show ?thesis by (simp add: check_checkpoint_def no_panic)
qed

text \<open>
  C23: The proof program of a release build never panics: when the block verifier and the reader of the
  parent state do not, and the constants of the protocol library are in their ranges, every
  malformed input ends in an error value. In particular the variables
  that are unwrapped after the loop are set, the derivation's arithmetic does not divide by
  zero or overflow, and the fields that are hashed as 48-bit numbers fit.
\<close>

theorem guest_never_panics:
  assumes "protocol_ok (env_protocol e)"
    and "\<And>i w x p hs spec. \<not> panics (verify_block i w x p hs spec)"
    and "\<And>r. \<not> panics (read_parent r)"
  shows "\<not> panics (prove_shasta_proposal_with_block_verifier_and_parent_reader e g verify_block read_parent)"
proof (cases "gi_witnesses g")
  case Nil
  then show ?thesis by (simp add: prove_shasta_proposal_with_block_verifier_and_parent_reader_def)
next
  case (Cons w ws)
  have "\<not> panics (hash_shasta_subproof_input (env_keccak256 e) (gi_proof_carry_data g) :: (guest_error, b256) outcome)"
    if "check_carry e g = Ok ()"
    using that by (auto simp: check_carry_def Let_def ok_iff hash_subproof_input_eq fits_iff word_le_nat_alt)
  moreover have "\<not> panics (check_checkpoint g s)"
    if "try_fold (prove_block e g spec signer xb verify_block) s0 (enumerate 0 (w # ws)) = Ok s"
    for spec signer xb s0 s
    using check_checkpoint_no_panic [OF that] by simp
  moreover have "\<not> panics (try_fold (prove_block e g spec signer xb verify_block) s0 (enumerate 0 (w # ws)))"
    for spec signer xb s0
    by (rule try_fold_no_panic_all, rule prove_block_no_panic, rule assms(2))
  ultimately show ?thesis
    unfolding prove_shasta_proposal_with_block_verifier_and_parent_reader_def Cons list.case Let_def
    by (simp del: try_fold.simps enumerate_simps
        add: panics_bind_iff no_panic parent_reads_no_panic assms)
qed

end
