(* ===== verification/Guest_Example.thy ===== *)
theory Guest_Example
  imports Guest_Checks
begin

text \<open>
  A complete run of the proof program and of the aggregation on a concrete input: a proposal on
  the devnet with one source without blobs, hence one default block, whose anchor is the
  second-last L1 block before the proposal. The run shows that the theorems about accepted
  proofs apply.
\<close>

section \<open>The input\<close>

definition toy_hash_slow :: "header \<Rightarrow> b256" where
  "toy_hash_slow h = ucast (h_number h) + 1000000"

definition toy_header :: "u64 \<Rightarrow> u64 \<Rightarrow> b256 \<Rightarrow> header" where
  "toy_header n ts root =
     \<lparr>h_number = n, h_parent_hash = ucast n + 999999, h_timestamp = ts, h_gas_limit = 31000000,
      h_state_root = root, h_beneficiary = 7, h_extra_data = [3], h_mix_hash = 77, h_difficulty = 0,
      h_base_fee_per_gas = Some 5, h_rest = []\<rparr>"

definition toy_kzg :: kzg_rs where
  "toy_kzg =
     \<lparr>kzg_blob_from_slice = (\<lambda>_. None), kzg_g1_affine_from_bytes = (\<lambda>_. None), kzg_scalar_from_bytes = (\<lambda>_. 0),
      kzg_as_polynomial = (\<lambda>_. None), kzg_evaluate_polynomial = (\<lambda>_ _. None),
      kzg_verify_proof_impl = (\<lambda>_ _ _ _. None)\<rparr>"

definition toy_env :: "(unit, nat) env" where
  "toy_env =
     \<lparr>env_keccak256 = example_hash, env_sha256 = (\<lambda>_. []), env_hash_slow = toy_hash_slow,
      env_abi_encode_proposal = (\<lambda>_. []), env_anchorV4_selector = [1, 2, 3, 4],
      env_anchorV4_abi_decode_validate =
        (\<lambda>_. Some \<lparr>cp_blockNumber = 1199, cp_blockHash = 1001199, cp_stateRoot = 21\<rparr>),
      env_anchorV4_abi_encode = (\<lambda>_. [1, 2, 3, 4, 5]),
      env_TAIKO_MAINNET = (), env_TAIKO_DEVNET = (), env_TAIKO_HOODI = (),
      env_shasta_activation = (\<lambda>_. Timestamp 0), env_unzen_active_at = (\<lambda>_ _. True),
      env_validate_anchor_transaction = (\<lambda>_ _ _ _ _. True), env_golden_touch = Some (\<lambda>_. Some [9]),
      env_encode_extra_data = (\<lambda>_ id. [ucast id]), env_calculate_shasta_difficulty = (\<lambda>_ _. 77),
      env_rlp_encode_manifest_tx = (\<lambda>_. []), env_rlp_decode_exact = (\<lambda>_. None),
      env_kzg = toy_kzg, env_protocol = example_protocol,
      env_usize_max = 2 ^ 64 - 1\<rparr>"

definition toy_recipient :: address where
  "toy_recipient = (case shasta_taiko_l2_address 167001 of Ok a \<Rightarrow> a | _ \<Rightarrow> 0)"

definition toy_anchor_tx :: eth_tx where
  "toy_anchor_tx =
     \<lparr>tx_input = [1, 2, 3, 4, 5], tx_is_eip1559 = True, tx_to = Some toy_recipient, tx_chain_id = Some 167001,
      tx_max_fee_per_gas = 5, tx_max_priority_fee_per_gas = Some 0, tx_access_list = None,
      tx_signature_hash = 0, tx_signature = [9], tx_rlp = [2]\<rparr>"

definition toy_block :: block where
  "toy_block = \<lparr>bl_header = toy_header 42 4991 12, bl_transactions = [toy_anchor_tx]\<rparr>"

definition toy_proposal :: proposal where
  "toy_proposal =
     \<lparr>pr_id = 3, pr_timestamp = 5100, pr_endOfSubmissionWindowTimestamp = 0, pr_proposer = 7,
      pr_parentProposalHash = 31, pr_originBlockNumber = 1200, pr_originBlockHash = 1001200,
      pr_basefeeSharingPctg = 0,
      pr_sources = [\<lparr>is_forced_inclusion = False,
        blob_slice_of = \<lparr>blob_hashes = [], blob_offset = 0, blob_timestamp = 5100\<rparr>\<rparr>]\<rparr>"

definition toy_carry :: proof_carry_data where
  "toy_carry =
     \<lparr>pc_chain_id = 167001, pc_verifier = 4,
      pc_transition_input =
        \<lparr>td_proposal_id = 3, td_proposal_hash = 5, td_parent_proposal_hash = 31,
         td_parent_block_hash = 1000041, td_actual_prover = 8,
         td_transition = \<lparr>st_proposer = 7, st_timestamp = 5100\<rparr>,
         td_checkpoint = \<lparr>cp_blockNumber = 42, cp_blockHash = 1000042, cp_stateRoot = 12\<rparr>\<rparr>\<rparr>"

definition toy_witness :: stateless_input where
  "toy_witness =
     \<lparr>si_block = toy_block, si_chain_spec = \<lparr>cs_chain_id = 167001\<rparr>,
      si_witness = \<lparr>ew_state = [], ew_state_indices = [], ew_codes = [], ew_keys = [],
        ew_headers = [from_header toy_hash_slow (toy_header 41 4990 11)]\<rparr>\<rparr>"

definition toy_input :: guest_input where
  "toy_input =
     \<lparr>gi_witnesses = [toy_witness],
      gi_taiko = \<lparr>tm_proposal_id = 3, tm_l1_header = toy_header 1200 5000 22,
        tm_proposal_event = \<lparr>se_proposal = toy_proposal\<rparr>,
        tm_chain_spec = \<lparr>mc_name = ''devnet'', mc_chain_id = 167001, mc_is_taiko = True\<rparr>,
        tm_prover_data = \<lparr>pd_actual_prover = 8, pd_designated_prover = None, pd_graffiti = 0,
          pd_parent_transition_hash = None, pd_checkpoint = None, pd_last_anchor_block_number = Some 1199\<rparr>,
        tm_blob_proof_type = ProofOfEquivalence,
        tm_data_sources = [\<lparr>tx_data_from_calldata = [], tx_data_from_blob = [], blob_commitments = [],
          blob_proofs = [], ds_is_forced_inclusion = False\<rparr>],
        tm_l1_ancestor_headers = [toy_header 1199 4988 21, toy_header 1200 5000 22]\<rparr>,
      gi_proposal_ancestor_headers = [], gi_proposal_state_nodes = [], gi_proof_carry_data = toy_carry\<rparr>"

text \<open>The word in the anchor's slot; the block that the execution gives.\<close>

definition toy_storage :: "b256 \<Rightarrow> parent_storage_read \<Rightarrow> (guest_error, b256) outcome" where
  "toy_storage root r = (if root = 11 then Ok 1199 else Err (Msg ''unknown root''))"

abbreviation toy_reader :: parent_reader where
  "toy_reader \<equiv> default_parent_storage_reader toy_storage"

definition toy_reconstruct :: "unit block_reconstruction \<Rightarrow> (guest_error, block) outcome" where
  "toy_reconstruct r = (if br_transactions r = [] then Ok toy_block else Err (Msg ''unexpected transactions''))"

section \<open>The run\<close>

lemma toy_fields [simp]:
  "gi_witnesses toy_input = [toy_witness]" "gi_proposal_ancestor_headers toy_input = []"
  "gi_proposal_state_nodes toy_input = []" "gi_proof_carry_data toy_input = toy_carry"
  "guest_proposal toy_input = toy_proposal" "tm_proposal_id (gi_taiko toy_input) = 3"
  "tm_l1_header (gi_taiko toy_input) = toy_header 1200 5000 22"
  "mc_chain_id (tm_chain_spec (gi_taiko toy_input)) = 167001"
  "pd_actual_prover (tm_prover_data (gi_taiko toy_input)) = 8"
  "pd_last_anchor_block_number (tm_prover_data (gi_taiko toy_input)) = Some 1199"
  "tm_data_sources (gi_taiko toy_input) = [\<lparr>tx_data_from_calldata = [], tx_data_from_blob = [],
     blob_commitments = [], blob_proofs = [], ds_is_forced_inclusion = False\<rparr>]"
  "tm_l1_ancestor_headers (gi_taiko toy_input) = [toy_header 1199 4988 21, toy_header 1200 5000 22]"
  "si_block toy_witness = toy_block" "cs_chain_id (si_chain_spec toy_witness) = 167001"
  "ew_headers (si_witness toy_witness) = [from_header toy_hash_slow (toy_header 41 4990 11)]"
  "bl_header toy_block = toy_header 42 4991 12" "bl_transactions toy_block = [toy_anchor_tx]"
  by (simp_all add: toy_input_def toy_witness_def toy_block_def)

lemma toy_header_fields [simp]:
  "h_number (toy_header n ts root) = n" "h_parent_hash (toy_header n ts root) = ucast n + 999999"
  "h_timestamp (toy_header n ts root) = ts" "h_gas_limit (toy_header n ts root) = 31000000"
  "h_state_root (toy_header n ts root) = root" "h_beneficiary (toy_header n ts root) = 7"
  "h_extra_data (toy_header n ts root) = [3]" "h_mix_hash (toy_header n ts root) = 77"
  "h_base_fee_per_gas (toy_header n ts root) = Some 5"
  "toy_hash_slow (toy_header n ts root) = ucast n + 1000000"
  by (simp_all add: toy_header_def toy_hash_slow_def)

lemma toy_recipient: "shasta_taiko_l2_address 167001 = Ok toy_recipient"
proof -
  have "\<exists>a. shasta_taiko_l2_address 167001 = Ok a"
    unfolding shasta_taiko_l2_address_def
    by (rule shasta_predeploy_address_defined) (simp_all add: SHASTA_TAIKO_L2_ADDRESS_SUFFIX_def)
  then show ?thesis by (auto simp: toy_recipient_def)
qed

lemma toy_headers: "initial_proposal_ancestor_headers toy_input = [from_header toy_hash_slow (toy_header 41 4990 11)]"
  by (simp add: initial_proposal_ancestor_headers_def proposal_ancestor_headers_def canonicalize_headers_def)

lemma toy_headers_checked:
  "validate_proposal_ancestor_header_count toy_input = Ok ()"
  "checked_initial_proposal_ancestor_headers toy_input = Ok [from_header toy_hash_slow (toy_header 41 4990 11)]"
  by (simp_all add: checked_initial_proposal_ancestor_headers_def toy_headers validate_proposal_ancestor_header_count_def
      proposal_ancestor_headers_def ANCESTOR_HEADER_WINDOW_LIMIT_def ensure_def)

lemma full_header_from_header [simp]: "full_header (from_header hash_slow h) = Some h"
  by (simp add: full_header_def from_header_def from_header_with_hash_def)

lemma toy_parent_anchor: "verified_parent_anchor_block_number toy_input toy_reader = Ok 1199"
proof -
  have "anchor_block_number_from_storage_word 1199 = 1199"
    by code_simp
  then show ?thesis
    by (simp add: verified_parent_anchor_block_number_def toy_headers_checked default_parent_storage_reader_def
        determine_pre_state_root_def parent_read_def toy_storage_def toy_recipient ensure_def)
qed

definition toy_manifest :: "nat block_manifest" where
  "toy_manifest = \<lparr>bm_timestamp = 4991, bm_coinbase = 7, bm_anchor_block_number = 1199,
     bm_gas_limit = 30000000, bm_transactions = []\<rparr>"

text \<open>A source without blobs gives the default manifest with inherited metadata.\<close>

lemma prepare_without_blobs:
  assumes "blob_hashes (blob_slice_of src) = []" "\<not> is_forced_inclusion src" "ensure_no_inline_payload ds = Ok ()"
  shows "prepare_source_manifest_with_max_blocks example_protocol src ds parent meta f n
     = Ok (apply_inherited_metadata example_protocol (default_manifest example_protocol) (inherited_input parent meta f))"
proof -
  have "manifest_is_default (default_manifest example_protocol)"
    using example_protocol_ok by (simp add: protocol_ok_def)
  moreover have "validate_source_manifest example_protocol m ctx \<noteq> Panic p" for m ctx p
    using validate_source_manifest_no_panic [of example_protocol m ctx] by (auto simp: example_protocol_def)
  ultimately show ?thesis
    using assms
    by (auto simp: prepare_source_manifest_with_max_blocks_def source_payload_def Let_def split: outcome.splits)
qed

lemma example_protocol_fields:
  "timestamp_max_offset_for_chain example_protocol = (\<lambda>_. 1536)" "ANCHOR_V3_V4_GAS_LIMIT example_protocol = 1000000"
  "default_manifest example_protocol = \<lparr>sm_blocks = [\<lparr>bm_timestamp = 0, bm_coinbase = 0,
     bm_anchor_block_number = 0, bm_gas_limit = 0, bm_transactions = []\<rparr>]\<rparr>"
  by (simp_all add: example_protocol_def)

lemma toy_derived:
  "derive_expected_shasta_blocks toy_env toy_input () 1199 = Ok (Some \<lparr>ds_blocks = [toy_manifest],
     ds_source_spans = [\<lparr>span_is_forced_inclusion = False, span_block_count = 1\<rparr>]\<rparr>)"
  by (simp add: derive_expected_shasta_blocks_def derive_source_def toy_headers_checked last_full_header_def
      List.map_filter_simps prepare_without_blobs ensure_no_inline_payload_def ensure_def shasta_fork_timestamp_def
      toy_env_def toy_proposal_def apply_inherited_metadata_def inherited_input_def example_protocol_fields
      compute_timestamp_lower_bound_def saturating_add_def saturating_sub_def effective_parent_gas_limit_def
      toy_manifest_def Let_def)

lemma toy_anchor: "validate_anchor_transaction_common toy_env toy_witness () (\<lambda>_. Some [9])
     = Ok \<lparr>dc_block_number = 1199, dc_block_hash = 1001199, dc_state_root = 21\<rparr>"
  by (simp add: validate_anchor_transaction_common_def decode_anchor_checkpoint_def toy_anchor_tx_def toy_env_def
      toy_recipient ensure_def)

lemma toy_metadata:
  "validate_shasta_manifest_block_metadata toy_env toy_input toy_witness toy_manifest (toy_header 41 4990 11) = Ok ()"
  by (simp add: validate_shasta_manifest_block_metadata_def validate_anchor_transaction_binding_def
      decode_anchor_checkpoint_def toy_anchor_tx_def toy_env_def toy_manifest_def toy_proposal_def
      saturating_add_def ANCHOR_GAS_LIMIT_def ensure_def Let_def)

lemma toy_verifier:
  "reconstructing_verifier toy_env toy_input (\<lambda>_. True) toy_reconstruct i toy_witness (Some toy_manifest) p hs ()
     = Ok 1000042"
  by (simp add: reconstructing_verifier_def manifest_transactions_for_reconstruction_def toy_manifest_def
      shasta_block_env_attributes_def toy_reconstruct_def validate_generated_block_matches_canonical_def
      toy_env_def ensure_def Let_def)

lemma toy_linkage:
  "validate_l1_anchor_linkage toy_env toy_input
     [\<lparr>dc_block_number = 1199, dc_block_hash = 1001199, dc_state_root = 21\<rparr>] 1199
     (Some [\<lparr>span_is_forced_inclusion = False, span_block_count = 1\<rparr>]) toy_reader = Ok ()"
  by (simp add: validate_l1_anchor_linkage_def should_bypass_stalled_anchor_linkage_def anchor_start_index_def
      validate_source_aware_anchor_progression_def validate_anchor_progression_def check_anchor_def
      anchor_max_offset_for_chain_def TAIKO_MAINNET_CHAIN_ID_def ANCHOR_MAX_OFFSET_def saturating_sub_def
      checked_add_usize_def get_range_def link_headers_def link_header_def toy_proposal_def toy_env_def
      ensure_def Let_def)

lemma toy_checks:
  "builtin_taiko_chain_spec toy_env 167001 = Ok ()" "check_forks toy_env toy_input () = Ok ()"
  "verify_proposal_mode_blob_usage toy_env toy_input = Ok ()" "check_chain_ids toy_env toy_input 167001 = Ok ()"
  "check_carry toy_env toy_input = Ok ()"
  by (simp_all add: builtin_taiko_chain_spec_def check_forks_def verify_proposal_mode_blob_usage_def
      check_data_source_def check_chain_ids_def validate_supported_chain_id_def check_carry_def
      SHASTA_PROPOSAL_ID_MAX_def fits_shasta_uint48_def SHASTA_UINT48_MAX_def hash_proposal_def example_hash_def
      toy_env_def toy_proposal_def toy_carry_def ensure_def Let_def push_bit_eq_mult)

lemma toy_run:
  "prove_shasta_proposal_with_reconstructor_and_parent_reader toy_env (\<lambda>_. True) toy_input toy_reconstruct toy_reader
     = Ok 167001"
proof -
  let ?s = "prove_start (Some (toy_header 41 4990 11)) [from_header toy_hash_slow (toy_header 41 4990 11)]"
  have step: "prove_block toy_env toy_input () (\<lambda>_. Some [9]) (Some [toy_manifest])
      (reconstructing_verifier toy_env toy_input (\<lambda>_. True) toy_reconstruct) ?s (0, toy_witness)
    = Ok \<lparr>pv_anchor_checkpoints = [\<lparr>dc_block_number = 1199, dc_block_hash = 1001199, dc_state_root = 21\<rparr>],
         pv_first_parent_block_hash = Some 1000041, pv_previous_block_hash = Some 1000042,
         pv_previous_block_number = Some 42, pv_last_state_root = Some 12,
         pv_canonical_parent_header = Some (toy_header 42 4991 12),
         pv_ancestor_headers = roll_proposal_ancestor_headers_in_place
           [from_header toy_hash_slow (toy_header 41 4990 11)] (toy_header 42 4991 12) 1000042\<rparr>"
    by (simp add: prove_block_def toy_anchor toy_metadata toy_verifier Let_def)
  have hash: "hash_shasta_subproof_input example_hash toy_carry = (Ok 167001 :: (guest_error, b256) outcome)"
    by (simp add: hash_subproof_input_eq example_hash_subproof) (simp add: toy_carry_def)
  have e: "env_golden_touch toy_env = Some (\<lambda>_. Some [9])" "env_keccak256 toy_env = example_hash"
    by (simp_all add: toy_env_def)
  show ?thesis
    unfolding prove_shasta_proposal_with_reconstructor_and_parent_reader_def
      prove_shasta_proposal_with_block_verifier_and_parent_reader_def
    by (simp add: toy_checks toy_headers_checked toy_parent_anchor toy_derived e step toy_linkage [unfolded One_nat_def] hash)
      (simp add: check_checkpoint_def toy_carry_def ensure_def)
qed

lemma toy_run_verifier:
  "prove_shasta_proposal_with_block_verifier_and_parent_reader toy_env toy_input
     (reconstructing_verifier toy_env toy_input (\<lambda>_. True) toy_reconstruct) toy_reader = Ok 167001"
  using toy_run by (simp add: prove_shasta_proposal_with_reconstructor_and_parent_reader_def)

section \<open>The theorems on this run\<close>

text \<open>The anchor of the block is found in the L1 headers.\<close>

theorem proved_anchors_on_l1_witness:
  "\<exists>c. decode_anchor_checkpoint toy_env toy_block = Ok c \<and> on_l1_chain toy_env toy_input c"
proof -
  obtain pa c where c: "decode_anchor_checkpoint toy_env toy_block = Ok c"
    "verified_parent_shasta_checkpoint toy_env toy_input pa toy_reader = Ok c \<or> on_l1_chain toy_env toy_input c"
    using proved_anchors_on_l1 [OF toy_run_verifier] by auto
  have "verified_parent_shasta_checkpoint toy_env toy_input pa toy_reader \<noteq> Ok c"
  proof -
    have "dc_state_root c = 21" using c(1)
      by (auto simp: decode_anchor_checkpoint_def toy_anchor_tx_def toy_env_def)
    moreover have "dc_state_root x = 1199"
      if "verified_parent_shasta_checkpoint toy_env toy_input pa toy_reader = Ok x" for x
      using that by (auto simp: verified_parent_shasta_checkpoint_def toy_headers_checked default_parent_storage_reader_def
          determine_pre_state_root_def parent_read_def toy_storage_def storage_word_as_b256_def from_to_be_bytes_all
          ok_iff split: prod.splits)
    ultimately show ?thesis by force
  qed
  then show ?thesis using c by blast
qed

theorem proved_blocks_match_derivation_witness:
  "chain_matches toy_env toy_input (toy_header 41 4990 11) [toy_witness] [toy_manifest]"
proof -
  have "prove_shasta_proposal_with_block_verifier toy_env toy_storage toy_input
      (reconstructing_verifier toy_env toy_input (\<lambda>_. True) toy_reconstruct) = Ok 167001"
    using toy_run_verifier by (simp add: prove_shasta_proposal_with_block_verifier_def)
  from proved_blocks_match_derivation [OF this] obtain pa derived where
    "verified_parent_anchor_block_number toy_input toy_reader = Ok pa"
    "derive_expected_shasta_blocks toy_env toy_input () pa = Ok (Some derived)"
    "chain_matches toy_env toy_input (toy_header 41 4990 11) [toy_witness] (ds_blocks derived)"
    by (auto simp: toy_headers toy_proposal_def)
  then show ?thesis by (auto simp: toy_parent_anchor toy_derived)
qed

theorem proof_refines_execution_witness:
  "\<exists>c. l2_run toy_env toy_input () toy_reconstruct [toy_manifest]
         \<lparr>lc_headers = [from_header toy_hash_slow (toy_header 41 4990 11)], lc_blocks = []\<rparr> [toy_witness] c
     \<and> carries_proposal toy_env toy_input \<and> carries_chain toy_env toy_input (lc_blocks c)"
  using proof_refines_execution [OF toy_run] by (auto simp: toy_parent_anchor toy_derived toy_headers)

theorem guest_never_panics_witness:
  "\<not> panics (prove_shasta_proposal_with_block_verifier_and_parent_reader toy_env toy_input
     (\<lambda>_ _ _ _ _ _. Err (Msg ''refused'')) (\<lambda>_. Ok 1199))"
  by (rule guest_never_panics) (simp_all add: toy_env_def example_protocol_ok)

text \<open>The aggregation of this one proof.\<close>

definition toy_aggregation :: shasta_zk_aggregation_guest_input where
  "toy_aggregation = \<lparr>za_image_id = [], za_block_inputs = [167001], za_proof_carry_data_vec = [toy_carry],
     za_prover_address = 0\<rparr>"

lemma toy_carry_valid: "validate_shasta_proof_carry_data_vec [toy_carry]"
  by (simp add: validate_carry_iff carry_fits_iff toy_carry_def)

lemma toy_carry_no_collision: "inj_on example_hash (subproof_messages example_hash toy_carry)"
proof -
  have "example_hash (words_message (transition_input_words k td)) = 5" for k td
    by (simp add: example_hash_def length_words_message transition_input_words_def)
  then show ?thesis
    unfolding subproof_messages_def
    by (auto simp: inj_on_def example_hash_subproof) (simp_all add: toy_carry_def)
qed

theorem aggregated_batch_is_one_chain_witness:
  "\<exists>out commitment. aggregate_shasta_zk_with_verifier example_hash toy_aggregation 9 (\<lambda>_ x. x = 167001) = Ok out
     \<and> build_shasta_commitment_from_proof_carry_data_vec [toy_carry]
         = (Ok (Some commitment) :: (guest_error, commitment option) outcome)
     \<and> cm_firstProposalParentBlockHash commitment = 1000041 \<and> cm_endStateRoot commitment = 12"
proof -
  have e: "env_keccak256 toy_env = example_hash" by (simp add: toy_env_def)
  have "hash_shasta_subproof_input example_hash toy_carry = (Ok 167001 :: (guest_error, b256) outcome)"
    by (simp add: hash_subproof_input_eq example_hash_subproof) (simp add: toy_carry_def)
  then obtain out where out:
    "aggregate_shasta_zk_with_verifier (env_keccak256 toy_env) toy_aggregation 9 (\<lambda>_ x. x = 167001) = Ok out"
    using toy_carry_valid by (auto simp: e aggregate_Ok_iff toy_aggregation_def aggregation_public_input_eq)
  have "\<exists>commitment. build_shasta_commitment_from_proof_carry_data_vec (za_proof_carry_data_vec toy_aggregation)
         = (Ok (Some commitment) :: (guest_error, commitment option) outcome)
     \<and> cm_firstProposalParentBlockHash commitment = h_parent_hash (hd (concat (map block_headers [toy_input])))
     \<and> cm_endStateRoot commitment = h_state_root (last (concat (map block_headers [toy_input])))"
    using aggregated_batch_is_one_chain [OF out, of "[toy_input]" "\<lambda>_. True" toy_reconstruct toy_reader]
      toy_run toy_carry_no_collision by (auto simp: e toy_aggregation_def)
  then show ?thesis using out by (auto simp: e toy_aggregation_def)
qed

end
