(* ===== verification/Guest_Input_Facts.thy ===== *)
theory Guest_Input_Facts
  imports Guest_Input
begin

text \<open>
  The compaction of a guest input and its wire form lose nothing: the window of ancestor
  headers and the trie nodes that each block can use are the same afterwards.
\<close>

section \<open>The pool\<close>

definition guest_nodes :: "guest_input \<Rightarrow> witness_state_node set" where
  "guest_nodes g = set (gi_proposal_state_nodes g) \<union> set (inline_state_nodes g)"






lemma push_unknown_append:
  "known = wn_hash ` set pool \<Longrightarrow> \<exists>ns'. push_unknown known pool ns = pool @ ns' \<and> set ns' \<subseteq> set ns
     \<and> wn_hash ` set (push_unknown known pool ns) = wn_hash ` set pool \<union> wn_hash ` set ns"
proof (induction known pool ns rule: push_unknown.induct)
  case (2 known pool n ns)
  then show ?case by (cases "wn_hash n \<in> known") fastforce+
qed simp

lemma state_pool_facts:
  "set (state_pool g) \<subseteq> guest_nodes g" "wn_hash ` set (state_pool g) = wn_hash ` guest_nodes g"
  "has_positional_proposal_state_pool g \<Longrightarrow> \<exists>ns. state_pool g = gi_proposal_state_nodes g @ ns"
proof -
  let ?p = "gi_proposal_state_nodes g"
  obtain ns where ns: "push_unknown (set (map wn_hash ?p)) ?p (canonicalize_state_nodes (inline_state_nodes g)) = ?p @ ns"
    "set ns \<subseteq> set (canonicalize_state_nodes (inline_state_nodes g))"
    "wn_hash ` set (?p @ ns) = wn_hash ` set ?p \<union> wn_hash ` set (canonicalize_state_nodes (inline_state_nodes g))"
    using push_unknown_append [of "set (map wn_hash ?p)" ?p "canonicalize_state_nodes (inline_state_nodes g)"] by auto
  show "set (state_pool g) \<subseteq> guest_nodes g"
    using ns canonical_nodes(3) [of "inline_state_nodes g"] canonical_nodes(3) [of "?p @ inline_state_nodes g"]
    by (auto simp: state_pool_def guest_nodes_def)
  show "wn_hash ` set (state_pool g) = wn_hash ` guest_nodes g"
    using ns canonical_nodes(4) by (auto simp: state_pool_def guest_nodes_def image_Un)
  show "\<exists>ns. state_pool g = ?p @ ns" if "has_positional_proposal_state_pool g"
    using that ns(1) by (simp add: state_pool_def)
qed

definition index_ok :: "(b256 \<Rightarrow> u32 option) \<Rightarrow> witness_state_node list \<Rightarrow> bool" where
  "index_ok m xs = ((\<forall>h j. m h = Some j \<longrightarrow> unat j < length xs \<and> wn_hash (xs ! unat j) = h)
                    \<and> (\<forall>h \<in> wn_hash ` set xs. m h \<noteq> None))"

lemma index_ok_mono: "index_ok m xs \<Longrightarrow> m (wn_hash n) \<noteq> None \<Longrightarrow> index_ok m (xs @ [n])"
  by (fastforce simp: index_ok_def nth_append)

lemma index_ok_upd:
  assumes "index_ok m xs" "length xs < 2 ^ 32"
  shows "index_ok (m(wn_hash n \<mapsto> of_nat (length xs))) (xs @ [n])"
proof -
  have "unat (of_nat (length xs) :: u32) = length xs"
    using assms(2) by (simp add: unat_of_nat take_bit_nat_eq_self)
  then show ?thesis using assms(1) by (fastforce simp: index_ok_def nth_append)
qed

lemma index_nodes_ok:
  "index_nodes (length xs) ns m = Ok m' \<Longrightarrow> index_ok m xs \<Longrightarrow> index_ok m' (xs @ ns)"
proof (induction ns arbitrary: xs m)
  case (Cons n ns)
  show ?case
  proof (cases "m (wn_hash n)")
    case None
    then have "length xs < 2 ^ 32" "index_nodes (length (xs @ [n])) ns (m(wn_hash n \<mapsto> of_nat (length xs))) = Ok m'"
      using Cons.prems(1) by (auto split: if_splits)
    from Cons.IH [OF this(2) index_ok_upd [OF Cons.prems(2) this(1)]] show ?thesis by simp
  next
    case (Some j)
    then show ?thesis
      using Cons.IH [of "xs @ [n]" m] Cons.prems index_ok_mono [of m xs n] by simp
  qed
qed simp


section \<open>Compaction\<close>



lemma initial_pool_Ok:
  assumes "initial_proposal_state_pool g = Ok (pool, indices)"
  obtains m where "pool = state_pool g" "index_ok m pool"
    "indices = map (if pool = [] then (\<lambda>_. []) else witness_indices m) (gi_witnesses g)"
proof (cases "state_pool g = []")
  case True
  have "index_ok Map.empty []" by (simp add: index_ok_def)
  then show ?thesis
    using assms True that by (simp add: initial_proposal_state_pool_def map_replicate_const)
next
  case False
  then obtain m where m: "index_nodes 0 (state_pool g) Map.empty = Ok m"
    and p: "pool = state_pool g" "indices = map (witness_indices m) (gi_witnesses g)"
    using assms by (auto simp: initial_proposal_state_pool_def bind_outcome_Ok_iff Let_def)
  have "index_ok m (state_pool g)"
    using index_nodes_ok [of "[]" "state_pool g" Map.empty m] m by (simp add: index_ok_def)
  then show ?thesis using that p False by simp
qed

lemma inline_state_nodes_clear [simp]:
  "inline_state_nodes (g\<lparr>gi_proposal_ancestor_headers := hs, gi_witnesses := map clear_headers (gi_witnesses g)\<rparr>)
     = inline_state_nodes g"
  by (simp add: inline_state_nodes_def clear_headers_def comp_def)

lemma state_pool_clear [simp]:
  "state_pool (g\<lparr>gi_proposal_ancestor_headers := hs, gi_witnesses := map clear_headers (gi_witnesses g)\<rparr>)
     = state_pool g"
  by (simp add: state_pool_def has_positional_proposal_state_pool_def list_ex_iff clear_headers_def)

lemma witness_indices_clear [simp]: "witness_indices m (clear_headers w) = witness_indices m w"
  by (simp add: witness_indices_def clear_headers_def)

lemma initial_pool_Nil: "initial_proposal_state_pool g = Ok ([], b) \<Longrightarrow> gi_proposal_state_nodes g = []"
  using state_pool_facts(2) [of g] by (auto elim!: initial_pool_Ok simp: guest_nodes_def)

lemma guest_input_update_same:
  "gi_proposal_ancestor_headers g = [] \<Longrightarrow> gi_proposal_state_nodes g = [] \<Longrightarrow>
     g\<lparr>gi_proposal_ancestor_headers := [], gi_proposal_state_nodes := []\<rparr> = g"
  "gi_proposal_state_nodes g = [] \<Longrightarrow>
     g\<lparr>gi_witnesses := ws, gi_proposal_ancestor_headers := hs, gi_proposal_state_nodes := []\<rparr>
     = g\<lparr>gi_witnesses := ws, gi_proposal_ancestor_headers := hs\<rparr>"
  by (cases g; simp)+

text \<open>What is written is the compacted input.\<close>

lemma guest_input_to_serde_eq: "guest_input_to_serde g = compact_proposal_witness_data g"
proof (cases "initial_proposal_ancestor_headers g = []")
  case True
  then have "gi_proposal_ancestor_headers g = []"
    by (auto simp: initial_proposal_ancestor_headers_def proposal_ancestor_headers_def
        split: if_splits)
  with True show ?thesis
    by (cases "initial_proposal_state_pool g")
      (auto simp: guest_input_to_serde_def compact_proposal_witness_data_def Let_def
        compact_proposal_ancestor_headers_def compact_proposal_state_nodes_def
        initial_pool_Nil guest_input_update_same)
next
  case False
  let ?h = "g\<lparr>gi_proposal_ancestor_headers := initial_proposal_ancestor_headers g,
      gi_witnesses := map clear_headers (gi_witnesses g)\<rparr>"
  have "initial_proposal_state_pool ?h = initial_proposal_state_pool g"
    by (simp add: initial_proposal_state_pool_def comp_def Let_def)
  with False show ?thesis
    by (cases "initial_proposal_state_pool g")
      (auto simp: guest_input_to_serde_def compact_proposal_witness_data_def Let_def
        compact_proposal_ancestor_headers_def compact_proposal_state_nodes_def
        initial_pool_Nil guest_input_update_same)
qed







section \<open>The wire\<close>
























end
