(* ===== verification/Artifact_Store.thy ===== *)
theory Artifact_Store
  imports Ready_Sort Shasta_Base "HOL-Library.Finite_Map"
begin

text \<open>
  Pipeline routes (\<open>crates/pipeline/src/lib.rs\<close>), and the storage of proof artifacts and of the
  runtime state (\<open>crates/runtime/src/artifact_store.rs\<close>): the keys and descriptors of artifacts,
  the encoding of key components in object names, and the in-memory store, whose single mutex
  makes every operation one step on the record \<open>memory_store\<close>.

  Strings are the lists of their UTF-8 bytes. The hexadecimal SHA-256 digest of a byte string
  (\<open>sha256\<close>) is an argument. The preflight cache of the store is keyed by a type parameter \<open>'k\<close>,
  the keys of the preflight cache, with the check of their schema and their digest as arguments.
  A lock is poisoned only after a panic of its holder, which is not part of the model. Times and
  generations of type \<open>i64\<close> are integers; the generation counter saturates like the source's.
\<close>

section \<open>Routes\<close>

datatype guest_system = GuestRisc0 | GuestSp1 | GuestNative | GuestSgx | GuestSgxGeth

datatype runner_kind = LocalRunner | NetworkRunner | RemoteRunner

record pipeline_route =
  route_guest :: guest_system
  route_runner :: runner_kind

fun pipeline_key_str :: "pipeline_key \<Rightarrow> string" where
  "pipeline_key_str ShastaRisc0 = ''shasta-risc0-local''"
| "pipeline_key_str ShastaSp1 = ''shasta-sp1-local''"
| "pipeline_key_str ShastaNative = ''shasta-native-local''"
| "pipeline_key_str ShastaSgx = ''shasta-sgx-remote''"
| "pipeline_key_str ShastaSgxGeth = ''shasta-sgxgeth-remote''"

fun guest_system_str :: "guest_system \<Rightarrow> string" where
  "guest_system_str GuestRisc0 = ''risc0''"
| "guest_system_str GuestSp1 = ''sp1''"
| "guest_system_str GuestNative = ''native''"
| "guest_system_str GuestSgx = ''sgx''"
| "guest_system_str GuestSgxGeth = ''sgxgeth''"

fun runner_kind_str :: "runner_kind \<Rightarrow> string" where
  "runner_kind_str LocalRunner = ''local''"
| "runner_kind_str NetworkRunner = ''network''"
| "runner_kind_str RemoteRunner = ''remote''"

definition route_str :: "pipeline_route \<Rightarrow> string" where
  "route_str r = guest_system_str (route_guest r) @ ''/'' @ runner_kind_str (route_runner r)"

fun key_route :: "pipeline_key \<Rightarrow> pipeline_route" where
  "key_route ShastaRisc0 = \<lparr>route_guest = GuestRisc0, route_runner = LocalRunner\<rparr>"
| "key_route ShastaSp1 = \<lparr>route_guest = GuestSp1, route_runner = LocalRunner\<rparr>"
| "key_route ShastaNative = \<lparr>route_guest = GuestNative, route_runner = LocalRunner\<rparr>"
| "key_route ShastaSgx = \<lparr>route_guest = GuestSgx, route_runner = RemoteRunner\<rparr>"
| "key_route ShastaSgxGeth = \<lparr>route_guest = GuestSgxGeth, route_runner = RemoteRunner\<rparr>"

definition supports_route :: "pipeline_key \<Rightarrow> pipeline_route \<Rightarrow> bool" where
  "supports_route key r =
     (case (key, route_guest r, route_runner r) of
        (ShastaRisc0, GuestRisc0, LocalRunner) \<Rightarrow> True
      | (ShastaSp1, GuestSp1, LocalRunner) \<Rightarrow> True
      | (ShastaSp1, GuestSp1, NetworkRunner) \<Rightarrow> True
      | (ShastaNative, GuestNative, LocalRunner) \<Rightarrow> True
      | (ShastaSgx, GuestSgx, RemoteRunner) \<Rightarrow> True
      | (ShastaSgxGeth, GuestSgxGeth, RemoteRunner) \<Rightarrow> True
      | _ \<Rightarrow> False)"

text \<open>Old states recorded the wrong guest system for the SGX Geth pipeline.\<close>

definition canonicalize_persisted_route :: "pipeline_key \<Rightarrow> pipeline_route \<Rightarrow> pipeline_route option" where
  "canonicalize_persisted_route key r =
     (if supports_route key r then Some r
      else if key = ShastaSgxGeth \<and> route_guest r = GuestSgx \<and> route_runner r = RemoteRunner
      then Some (key_route key)
      else None)"

section \<open>Keys, descriptors and objects\<close>

record proof_artifact_key =
  ak_network_pair :: string
  ak_pipeline_key :: pipeline_key
  ak_route :: pipeline_route
  ak_proof_ref :: string

record proof_artifact_descriptor =
  d_proof_uri :: string
  d_content_hash :: string
  d_generation :: "int option"

record proof_artifact_object =
  o_proof_uri :: string
  o_content_hash :: string
  o_generation :: "int option"
  o_bytes :: bytes

definition object_descriptor :: "proof_artifact_object \<Rightarrow> proof_artifact_descriptor" where
  "object_descriptor obj =
     \<lparr>d_proof_uri = o_proof_uri obj, d_content_hash = o_content_hash obj, d_generation = o_generation obj\<rparr>"

datatype put_result =
    PutCreated proof_artifact_object
  | PutAlreadyExists proof_artifact_object
  | PutConflict proof_artifact_descriptor "proof_artifact_object option"

fun try_object :: "put_result \<Rightarrow> proof_artifact_object option" where
  "try_object (PutCreated obj) = Some obj"
| "try_object (PutAlreadyExists obj) = Some obj"
| "try_object (PutConflict _ obj) = obj"

datatype exact_delete_result = DeleteRemoved | DeleteMissing | DeleteStale

record runtime_state_object =
  rso_bytes :: bytes
  rso_generation :: "int option"

datatype state_write_result = Stored "int option" | WriteConflict "runtime_state_object option"

datatype cleanup_scope = ProofScope | PreflightScope

type_synonym cleanup_mask = u8

definition mask_contains :: "cleanup_mask \<Rightarrow> cleanup_mask \<Rightarrow> bool" where
  "mask_contains m other \<longleftrightarrow> and m other = other"

fun scope_mask :: "cleanup_scope \<Rightarrow> cleanup_mask" where
  "scope_mask ProofScope = 1"
| "scope_mask PreflightScope = 2"

record cleanup_scope_report =
  report_scope :: cleanup_scope
  report_matched :: nat
  report_removed :: nat
  report_failed :: nat

section \<open>Names of objects\<close>

definition is_ascii_alphanumeric :: "char \<Rightarrow> bool" where
  "is_ascii_alphanumeric c =
     (let n = of_char c :: nat in (48 \<le> n \<and> n \<le> 57) \<or> (65 \<le> n \<and> n \<le> 90) \<or> (97 \<le> n \<and> n \<le> 122))"

definition is_plain_char :: "char \<Rightarrow> bool" where
  "is_plain_char c \<longleftrightarrow> is_ascii_alphanumeric c \<or> c \<in> {CHR ''-'', CHR ''_'', CHR ''.''}"

text \<open>\<open>{byte:02X}\<close>\<close>

definition upper_hex_digit :: "nat \<Rightarrow> char" where
  "upper_hex_digit d = char_of (if d < 10 then 48 + d else 55 + d)"

fun encode_component :: "string \<Rightarrow> string" where
  "encode_component [] = []"
| "encode_component (c # cs) =
     (if is_plain_char c then [c]
      else [CHR ''~'', upper_hex_digit (of_char c div 16), upper_hex_digit (of_char c mod 16)])
     @ encode_component cs"

definition content_hash :: "(bytes \<Rightarrow> bytes) \<Rightarrow> bytes \<Rightarrow> string" where
  "content_hash sha256 bs = concat (map hex_byte (sha256 bs))"

definition content_uri :: "string \<Rightarrow> string \<Rightarrow> proof_artifact_key \<Rightarrow> string \<Rightarrow> string" where
  "content_uri environment namespace key hash =
     ''memory://'' @ encode_component environment @ ''/'' @ encode_component namespace @ ''/proofs/'' @
     encode_component (pipeline_key_str (ak_pipeline_key key)) @ ''/'' @
     encode_component (route_str (ak_route key)) @ ''/'' @ encode_component (ak_network_pair key) @ ''/'' @
     encode_component (ak_proof_ref key) @ ''/'' @ encode_component hash @ ''.json''"

section \<open>The memory store\<close>

record memory_manifest =
  mm_content_hash :: string
  mm_generation :: int

record 'k memory_preflight =
  mp_key :: 'k
  mp_content_hash :: string
  mp_bytes :: bytes
  mp_generation :: int

record 'k memory_store =
  ms_environment :: string
  ms_namespace :: string
  ms_next_generation :: int
  ms_manifests :: "(proof_artifact_key, memory_manifest) fmap"
  ms_contents :: "(proof_artifact_key \<times> string, bytes) fmap"
  ms_preflights :: "(b256, 'k memory_preflight) fmap"
  ms_runtime_state :: "runtime_state_object option"

definition new_memory_store :: "string \<Rightarrow> string \<Rightarrow> 'k memory_store" where
  "new_memory_store environment namespace =
     \<lparr>ms_environment = environment, ms_namespace = namespace, ms_next_generation = 0,
      ms_manifests = fmempty, ms_contents = fmempty, ms_preflights = fmempty, ms_runtime_state = None\<rparr>"

text \<open>
  The constructor of the store validates both parts of the scope before it builds the empty store
  above.
\<close>

datatype scope_error =
    EmptyScope string
  | SurroundingWhitespace string
  | ForbiddenCharacter string

definition validate_scope_component :: "string \<Rightarrow> string \<Rightarrow> (scope_error, unit) outcome" where
  "validate_scope_component name v =
     (if trim_is_empty v then Err (EmptyScope name)
      else if starts_white v \<or> ends_white v then Err (SurroundingWhitespace name)
      else if \<not> list_all is_plain_char v then Err (ForbiddenCharacter name)
      else Ok ())"

definition memory_store_new :: "string \<Rightarrow> string \<Rightarrow> (scope_error, 'k memory_store) outcome" where
  "memory_store_new environment namespace =
     bind_outcome (validate_scope_component ''runtime.environment'' environment) (\<lambda>_.
     bind_outcome (validate_scope_component ''runtime.namespace'' namespace) (\<lambda>_.
     Ok (new_memory_store environment namespace)))"

definition i64_max :: int where
  "i64_max = 2 ^ 63 - 1"

definition next_generation :: "'k memory_store \<Rightarrow> int \<times> 'k memory_store" where
  "next_generation s =
     (let g = min (ms_next_generation s + 1) i64_max in (g, s\<lparr>ms_next_generation := g\<rparr>))"

definition manifest_descriptor ::
  "'k memory_store \<Rightarrow> proof_artifact_key \<Rightarrow> memory_manifest \<Rightarrow> proof_artifact_descriptor" where
  "manifest_descriptor s key m =
     \<lparr>d_proof_uri = content_uri (ms_environment s) (ms_namespace s) key (mm_content_hash m),
      d_content_hash = mm_content_hash m, d_generation = Some (mm_generation m)\<rparr>"

definition manifest_object ::
  "'k memory_store \<Rightarrow> proof_artifact_key \<Rightarrow> memory_manifest \<Rightarrow> bytes \<Rightarrow> proof_artifact_object" where
  "manifest_object s key m bs =
     \<lparr>o_proof_uri = content_uri (ms_environment s) (ms_namespace s) key (mm_content_hash m),
      o_content_hash = mm_content_hash m, o_generation = Some (mm_generation m), o_bytes = bs\<rparr>"

text \<open>\<open>entry(k).or_insert_with(v)\<close>\<close>

definition fm_or_insert :: "'a \<Rightarrow> 'b \<Rightarrow> ('a, 'b) fmap \<Rightarrow> ('a, 'b) fmap" where
  "fm_or_insert k v m = (case fmlookup m k of None \<Rightarrow> fmupd k v m | Some _ \<Rightarrow> m)"

lemma fmlookup_fm_or_insert [simp]:
  "fmlookup (fm_or_insert k v m) x =
     (if x = k then Some (case fmlookup m k of None \<Rightarrow> v | Some w \<Rightarrow> w) else fmlookup m x)"
  by (auto simp: fm_or_insert_def split: option.splits)

definition put_if_absent ::
  "(bytes \<Rightarrow> bytes) \<Rightarrow> proof_artifact_key \<Rightarrow> bytes \<Rightarrow> 'k memory_store \<Rightarrow> put_result \<times> 'k memory_store" where
  "put_if_absent sha256 key bs s =
     (let hash = content_hash sha256 bs in
      case fmlookup (ms_manifests s) key of
        Some existing \<Rightarrow>
          (if mm_content_hash existing = hash
           then (PutAlreadyExists (manifest_object s key existing bs),
                 s\<lparr>ms_contents := fm_or_insert (key, hash) bs (ms_contents s)\<rparr>)
           else (PutConflict (manifest_descriptor s key existing)
                   (map_option (manifest_object s key existing)
                     (fmlookup (ms_contents s) (key, mm_content_hash existing))), s))
      | None \<Rightarrow>
          (let s1 = s\<lparr>ms_contents := fm_or_insert (key, hash) bs (ms_contents s)\<rparr>;
               (g, s2) = next_generation s1;
               m = \<lparr>mm_content_hash = hash, mm_generation = g\<rparr>
           in (PutCreated (manifest_object s key m bs),
               s2\<lparr>ms_manifests := fmupd key m (ms_manifests s2)\<rparr>)))"

definition get_object ::
  "proof_artifact_key \<Rightarrow> 'k memory_store \<Rightarrow> (string, proof_artifact_object option) outcome" where
  "get_object key s =
     (case fmlookup (ms_manifests s) key of
        None \<Rightarrow> Ok None
      | Some m \<Rightarrow>
          bind_outcome (ok_or (fmlookup (ms_contents s) (key, mm_content_hash m))
                         ''proof manifest references missing content'') (\<lambda>bs.
          Ok (Some (manifest_object s key m bs))))"

definition get_descriptor ::
  "proof_artifact_key \<Rightarrow> 'k memory_store \<Rightarrow> proof_artifact_descriptor option" where
  "get_descriptor key s = map_option (manifest_descriptor s key) (fmlookup (ms_manifests s) key)"

definition delete_exact ::
  "proof_artifact_key \<Rightarrow> proof_artifact_descriptor \<Rightarrow> 'k memory_store \<Rightarrow>
   exact_delete_result \<times> 'k memory_store" where
  "delete_exact key descriptor s =
     (case fmlookup (ms_manifests s) key of
        None \<Rightarrow> (DeleteMissing, s)
      | Some current \<Rightarrow>
          (if Some (mm_generation current) \<noteq> d_generation descriptor
              \<or> mm_content_hash current \<noteq> d_content_hash descriptor
              \<or> content_uri (ms_environment s) (ms_namespace s) key (mm_content_hash current)
                  \<noteq> d_proof_uri descriptor
           then (DeleteStale, s)
           else (DeleteRemoved, s\<lparr>ms_manifests := fmdrop key (ms_manifests s)\<rparr>)))"

definition load_runtime_state :: "'k memory_store \<Rightarrow> runtime_state_object option" where
  "load_runtime_state s = ms_runtime_state s"

definition store_runtime_state ::
  "bytes \<Rightarrow> int option \<Rightarrow> 'k memory_store \<Rightarrow> state_write_result \<times> 'k memory_store" where
  "store_runtime_state bs expected_generation s =
     (if Option.bind (ms_runtime_state s) rso_generation \<noteq> expected_generation
      then (WriteConflict (ms_runtime_state s), s)
      else
        (let (g, s1) = next_generation s
         in (Stored (Some g),
             s1\<lparr>ms_runtime_state := Some \<lparr>rso_bytes = bs, rso_generation = Some g\<rparr>\<rparr>)))"

definition cleanup_before_start ::
  "cleanup_mask \<Rightarrow> 'k memory_store \<Rightarrow> cleanup_scope_report list \<times> 'k memory_store" where
  "cleanup_before_start scopes s =
     (let (r1, s1) =
        (if mask_contains scopes (scope_mask ProofScope)
         then let matched = fcard (fmdom (ms_manifests s)) + (if ms_runtime_state s \<noteq> None then 1 else 0)
              in ([\<lparr>report_scope = ProofScope, report_matched = matched, report_removed = matched, report_failed = 0\<rparr>],
                  s\<lparr>ms_runtime_state := None, ms_manifests := fmempty\<rparr>)
         else ([], s));
        (r2, s2) =
        (if mask_contains scopes (scope_mask PreflightScope)
         then let matched = fcard (fmdom (ms_preflights s1))
              in ([\<lparr>report_scope = PreflightScope, report_matched = matched, report_removed = matched, report_failed = 0\<rparr>],
                  s1\<lparr>ms_preflights := fmempty\<rparr>)
         else ([], s1))
      in (r1 @ r2, s2))"

definition reset_namespace :: "'k memory_store \<Rightarrow> nat \<times> 'k memory_store" where
  "reset_namespace s =
     (fcard (fmdom (ms_manifests s)) + fcard (fmdom (ms_contents s)) + fcard (fmdom (ms_preflights s))
        + (if ms_runtime_state s \<noteq> None then 1 else 0),
      (new_memory_store (ms_environment s) (ms_namespace s))\<lparr>ms_next_generation := ms_next_generation s\<rparr>)"

subsection \<open>The preflight cache of the store\<close>

record preflight_descriptor =
  pd_key_digest :: b256
  pd_content_hash :: string
  pd_generation :: "int option"

record preflight_object =
  po_key_digest :: b256
  po_content_hash :: string
  po_generation :: "int option"
  po_bytes :: bytes

datatype preflight_put_result =
    PreflightCreated preflight_object
  | PreflightAlreadyExists preflight_object
  | PreflightConflict preflight_descriptor

text \<open>
  \<open>supported\<close> is the check of the schema of a key (\<open>validate_canonical_preflight_key\<close>), \<open>digest\<close> the
  digest of a key, which fails when the key cannot be encoded.
\<close>

definition preflight_digest ::
  "('k \<Rightarrow> bool) \<Rightarrow> ('k \<Rightarrow> (string, b256) outcome) \<Rightarrow> 'k \<Rightarrow> (string, b256) outcome" where
  "preflight_digest supported digest key =
     bind_outcome (ensure (supported key) ''unsupported canonical preflight key schema'') (\<lambda>_. digest key)"

definition stored_preflight :: "b256 \<Rightarrow> 'k memory_preflight \<Rightarrow> preflight_object" where
  "stored_preflight key_digest obj =
     \<lparr>po_key_digest = key_digest, po_content_hash = mp_content_hash obj,
      po_generation = Some (mp_generation obj), po_bytes = mp_bytes obj\<rparr>"

definition get_canonical_preflight ::
  "('k \<Rightarrow> bool) \<Rightarrow> ('k \<Rightarrow> (string, b256) outcome) \<Rightarrow> 'k \<Rightarrow> 'k memory_store \<Rightarrow>
   (string, preflight_object option) outcome" where
  "get_canonical_preflight supported digest key s =
     bind_outcome (preflight_digest supported digest key) (\<lambda>key_digest.
     case fmlookup (ms_preflights s) key_digest of
       None \<Rightarrow> Ok None
     | Some obj \<Rightarrow>
         bind_outcome (ensure (mp_key obj = key)
           ''canonical preflight object key does not match requested full key'') (\<lambda>_.
         Ok (Some (stored_preflight key_digest obj))))"

definition put_canonical_preflight_if_absent ::
  "('k \<Rightarrow> bool) \<Rightarrow> ('k \<Rightarrow> (string, b256) outcome) \<Rightarrow> (bytes \<Rightarrow> bytes) \<Rightarrow> 'k \<Rightarrow> bytes \<Rightarrow> 'k memory_store \<Rightarrow>
   (string, preflight_put_result \<times> 'k memory_store) outcome" where
  "put_canonical_preflight_if_absent supported digest sha256 key bs s =
     bind_outcome (preflight_digest supported digest key) (\<lambda>key_digest.
     let hash = content_hash sha256 bs in
     case fmlookup (ms_preflights s) key_digest of
       Some existing \<Rightarrow>
         bind_outcome (ensure (mp_key existing = key) ''canonical preflight key digest collision'') (\<lambda>_.
         if mp_content_hash existing = hash
         then Ok (PreflightAlreadyExists (stored_preflight key_digest existing), s)
         else Ok (PreflightConflict
                   \<lparr>pd_key_digest = key_digest, pd_content_hash = mp_content_hash existing,
                    pd_generation = Some (mp_generation existing)\<rparr>, s))
     | None \<Rightarrow>
         (let (g, s1) = next_generation s;
              obj = \<lparr>mp_key = key, mp_content_hash = hash, mp_bytes = bs, mp_generation = g\<rparr>
          in Ok (PreflightCreated (stored_preflight key_digest obj),
                 s1\<lparr>ms_preflights := fmupd key_digest obj (ms_preflights s1)\<rparr>)))"

definition delete_canonical_preflight_exact ::
  "('k \<Rightarrow> bool) \<Rightarrow> ('k \<Rightarrow> (string, b256) outcome) \<Rightarrow> 'k \<Rightarrow> preflight_descriptor \<Rightarrow> 'k memory_store \<Rightarrow>
   (string, exact_delete_result \<times> 'k memory_store) outcome" where
  "delete_canonical_preflight_exact supported digest key descriptor s =
     bind_outcome (preflight_digest supported digest key) (\<lambda>key_digest.
     if pd_key_digest descriptor \<noteq> key_digest then Ok (DeleteStale, s)
     else
       (case fmlookup (ms_preflights s) key_digest of
          None \<Rightarrow> Ok (DeleteMissing, s)
        | Some current \<Rightarrow>
            (if mp_key current \<noteq> key \<or> Some (mp_generation current) \<noteq> pd_generation descriptor
             then Ok (DeleteStale, s)
             else Ok (DeleteRemoved, s\<lparr>ms_preflights := fmdrop key_digest (ms_preflights s)\<rparr>))))"

end
