(* ===== verification/Runtime_State.thy ===== *)
theory Runtime_State
  imports Artifact_Store
begin

text \<open>
  The authoritative runtime state (\<open>crates/runtime/src/lib.rs\<close>): the records of tasks, proof
  artifacts and pending publications, the validation that every committed state passes, and the
  operations. An operation of the runtime manager is a closure that edits a copy of the state
  and is committed by a compare-and-swap (theory \<open>Runtime_Commit\<close>); here it is a function from
  the state to the result and the edited state, or to an error, in which case the copy is dropped.

  A \<open>HashMap\<close> is a finite map; \<open>fm_values\<close> lists its values in the order of the keys, which stands for
  the unspecified order of the source: everything the source collects from a map is sorted,
  turned into a set, or only searched. The readings of the clock during an operation are the
  values \<open>clock 0\<close>, \<open>clock 1\<close>, and so on, and the fresh identifier of a task lifetime is an
  argument. Metadata is only stored, copied and compared, and is kept as its JSON text. Errors are their messages.
\<close>

section \<open>Data\<close>

datatype runner_status = RAllocated | RRunning | RCompleted | RFailed | RCancelled

fun status_terminal :: "runner_status \<Rightarrow> bool" where
  "status_terminal RCompleted = True"
| "status_terminal RFailed = True"
| "status_terminal RCancelled = True"
| "status_terminal _ = False"

text \<open>\<open>matches!(status, Failed | Cancelled)\<close>\<close>

fun status_dead :: "runner_status \<Rightarrow> bool" where
  "status_dead RFailed = True"
| "status_dead RCancelled = True"
| "status_dead _ = False"

datatype retention_state = Retained | Removing

datatype artifact_lifecycle = LPending | LActive | LInvalidated

record task_registration =
  g_task_id :: string
  g_pipeline_key :: pipeline_key
  g_route :: pipeline_route
  g_task_kind :: string
  g_network_pair :: string
  g_artifact_refs :: "string list"
  g_metadata :: string
  g_fingerprint :: string

record runtime_task =
  t_task_id :: string
  t_incarnation :: uuid
  t_pipeline_key :: pipeline_key
  t_route :: pipeline_route
  t_task_kind :: string
  t_network_pair :: string
  t_artifact_refs :: "string list"
  t_status :: runner_status
  t_retention :: retention_state
  t_image_ref :: "string option"
  t_proof_uri :: "string option"
  t_error :: "string option"
  t_metadata :: string
  t_fingerprint :: string
  t_updated_at :: int

record task_lifetime =
  lt_task_id :: string
  lt_incarnation :: uuid

definition task_lifetime_of :: "runtime_task \<Rightarrow> task_lifetime" where
  "task_lifetime_of r = \<lparr>lt_task_id = t_task_id r, lt_incarnation = t_incarnation r\<rparr>"

record artifact_record =
  a_environment :: string
  a_network_pair :: string
  a_proof_ref :: string
  a_pipeline_key :: pipeline_key
  a_route :: pipeline_route
  a_proof_uri :: string
  a_content_hash :: string
  a_generation :: "int option"
  a_lifecycle :: artifact_lifecycle
  a_invalidated_at :: "int option"
  a_updated_at :: int

definition artifact_descriptor :: "artifact_record \<Rightarrow> proof_artifact_descriptor" where
  "artifact_descriptor r =
     \<lparr>d_proof_uri = a_proof_uri r, d_content_hash = a_content_hash r, d_generation = a_generation r\<rparr>"

definition artifact_key_of :: "artifact_record \<Rightarrow> proof_artifact_key" where
  "artifact_key_of r =
     \<lparr>ak_network_pair = a_network_pair r, ak_pipeline_key = a_pipeline_key r, ak_route = a_route r,
      ak_proof_ref = a_proof_ref r\<rparr>"

record artifact_registration =
  ar_key :: proof_artifact_key
  ar_descriptor :: proof_artifact_descriptor

record artifact_precondition =
  pre_key :: proof_artifact_key
  pre_descriptor :: proof_artifact_descriptor

record artifact_expectation =
  ae_key :: proof_artifact_key
  ae_descriptor :: proof_artifact_descriptor
  ae_lifecycle :: artifact_lifecycle

definition expectation_of :: "artifact_record \<Rightarrow> artifact_expectation" where
  "expectation_of r =
     \<lparr>ae_key = artifact_key_of r, ae_descriptor = artifact_descriptor r, ae_lifecycle = a_lifecycle r\<rparr>"

record pending_publication =
  p_key :: proof_artifact_key
  p_content_hash :: string
  p_owners :: "uuid list"

text \<open>
  The identity of an artifact, four fields of every struct above in the source, is grouped as a
  \<open>proof_artifact_key\<close> in the registrations, preconditions and pending publications.
  \<open>PendingPublicationExpectation\<close> has the same three components, so the expectation of a pending
  publication is the record itself.
\<close>

record runtime_state =
  rs_tasks :: "(string, runtime_task) fmap"
  rs_artifacts :: "(string, artifact_record) fmap"
  rs_pending :: "(string, pending_publication) fmap"

definition default_state :: runtime_state where
  "default_state = \<lparr>rs_tasks = fmempty, rs_artifacts = fmempty, rs_pending = fmempty\<rparr>"

datatype mutation_outcome = Applied | AlreadyApplied | MStale | MBlocked | MMissing | MConflict

datatype registration_outcome = TaskCreated runtime_task | TaskExisting runtime_task

section \<open>Values of a map\<close>

definition fm_values :: "('k::linorder, 'v) fmap \<Rightarrow> 'v list" where
  "fm_values m = map (\<lambda>k. the (fmlookup m k)) (sorted_list_of_fset (fmdom m))"

definition fm_items :: "('k::linorder, 'v) fmap \<Rightarrow> ('k \<times> 'v) list" where
  "fm_items m = map (\<lambda>k. (k, the (fmlookup m k))) (sorted_list_of_fset (fmdom m))"

lemma set_fm_values: "set (fm_values m) = {v. \<exists>k. fmlookup m k = Some v}"
  by (force simp: fm_values_def fmlookup_dom_iff)

lemma set_fm_items: "set (fm_items m) = {(k, v). fmlookup m k = Some v}"
  by (force simp: fm_items_def fmlookup_dom_iff)

lemma distinct_fm_items: "distinct (map fst (fm_items m))"
  by (simp add: fm_items_def comp_def sorted_list_of_fset.rep_eq)

section \<open>Keys of the state\<close>

text \<open>\<open>{}\<close> of a \<open>usize\<close>.\<close>

function dec_nat :: "nat \<Rightarrow> string" where
  "dec_nat n = (if n < 10 then [dec_digit n] else dec_nat (n div 10) @ [dec_digit (n mod 10)])"
  by pat_completeness auto
termination by (relation "measure id") auto

declare dec_nat.simps [simp del]

definition artifact_record_key :: "proof_artifact_key \<Rightarrow> string" where
  "artifact_record_key k =
     ''artifact:v1:'' @
     concat (map (\<lambda>component. dec_nat (length component) @ '':'' @ component)
       [ak_network_pair k, pipeline_key_str (ak_pipeline_key k), route_str (ak_route k), ak_proof_ref k])"

abbreviation record_key :: "artifact_record \<Rightarrow> string" where
  "record_key r \<equiv> artifact_record_key (artifact_key_of r)"

section \<open>Who refers to an artifact\<close>

definition task_references :: "runtime_task \<Rightarrow> string \<Rightarrow> bool" where
  "task_references r task_ref \<longleftrightarrow> t_task_id r = task_ref \<or> task_ref \<in> set (t_artifact_refs r)"

definition task_matches_artifact_identity :: "runtime_task \<Rightarrow> proof_artifact_key \<Rightarrow> bool" where
  "task_matches_artifact_identity r k \<longleftrightarrow>
     task_references r (ak_proof_ref k) \<and> t_pipeline_key r = ak_pipeline_key k \<and> t_route r = ak_route k
     \<and> t_network_pair r = ak_network_pair k"

definition artifact_task_records :: "runtime_state \<Rightarrow> proof_artifact_key \<Rightarrow> runtime_task list" where
  "artifact_task_records s k = filter (\<lambda>r. task_matches_artifact_identity r k) (fm_values (rs_tasks s))"

definition pending_publication_has_live_owner :: "runtime_state \<Rightarrow> proof_artifact_key \<Rightarrow> bool" where
  "pending_publication_has_live_owner s k =
     (case fmlookup (rs_pending s) (artifact_record_key k) of
        None \<Rightarrow> False
      | Some pending \<Rightarrow>
          list_ex (\<lambda>owner.
            list_ex (\<lambda>task. t_incarnation task = owner \<and> task_matches_artifact_identity task k
                \<and> \<not> status_dead (t_status task)) (fm_values (rs_tasks s))) (p_owners pending))"

definition pending_publication_has_retention_owner :: "runtime_state \<Rightarrow> string \<Rightarrow> proof_artifact_key \<Rightarrow> bool" where
  "pending_publication_has_retention_owner s state_key k \<longleftrightarrow>
     state_key = artifact_record_key k \<and> fmlookup (rs_pending s) state_key \<noteq> None
     \<and> list_ex (\<lambda>task. task_matches_artifact_identity task k) (fm_values (rs_tasks s))"

text \<open>\<open>RetentionOwnershipIndex\<close>: the keys of all artifacts that some task refers to.\<close>

definition task_artifact_key :: "runtime_task \<Rightarrow> string \<Rightarrow> string" where
  "task_artifact_key r proof_ref =
     artifact_record_key \<lparr>ak_network_pair = t_network_pair r, ak_pipeline_key = t_pipeline_key r,
       ak_route = t_route r, ak_proof_ref = proof_ref\<rparr>"

definition owned_artifacts :: "runtime_state \<Rightarrow> string set" where
  "owned_artifacts s =
     set (concat (map (\<lambda>r. map (task_artifact_key r) (t_task_id r # t_artifact_refs r)) (fm_values (rs_tasks s))))"

definition artifact_is_reclaimable_for_retention :: "artifact_record \<Rightarrow> string \<Rightarrow> string set \<Rightarrow> bool" where
  "artifact_is_reclaimable_for_retention r state_key ownership \<longleftrightarrow>
     a_lifecycle r = LInvalidated \<or> state_key \<notin> ownership"

section \<open>Validation\<close>

definition validate_runtime_task_record ::
  "uuid list \<times> string list \<Rightarrow> string \<times> runtime_task \<Rightarrow> (string, uuid list \<times> string list) outcome" where
  "validate_runtime_task_record seen item =
     (case (seen, item) of ((incarnations, fingerprints), (task_id, r)) \<Rightarrow>
     bind_outcome (ensure (task_id = t_task_id r) ''runtime task key does not match record'') (\<lambda>_.
     bind_outcome (ensure (t_task_id r \<noteq> []) ''runtime task id is empty'') (\<lambda>_.
     bind_outcome (ensure (t_incarnation r \<noteq> 0) ''runtime task incarnation is nil'') (\<lambda>_.
     bind_outcome (ensure (t_incarnation r \<notin> set incarnations) ''runtime task incarnation is duplicated'') (\<lambda>_.
     bind_outcome (ensure (canonicalize_persisted_route (t_pipeline_key r) (t_route r) \<noteq> None)
       ''runtime task pipeline does not support its route'') (\<lambda>_.
     bind_outcome (ensure (t_task_kind r \<noteq> []) ''runtime task kind is empty'') (\<lambda>_.
     bind_outcome (ensure (t_network_pair r \<noteq> []) ''runtime task network pair is empty'') (\<lambda>_.
     bind_outcome (ensure ([] \<notin> set (t_artifact_refs r)) ''runtime task contains an empty artifact reference'') (\<lambda>_.
     bind_outcome (ensure (distinct (t_artifact_refs r)) ''runtime task contains duplicate artifact references'') (\<lambda>_.
     bind_outcome (ensure (t_retention r = Retained \<or> status_terminal (t_status r))
       ''non-terminal runtime task cannot enter retention removal'') (\<lambda>_.
     bind_outcome (ensure (t_fingerprint r \<noteq> []) ''runtime task request fingerprint is empty'') (\<lambda>_.
     bind_outcome (ensure (t_fingerprint r \<notin> set fingerprints) ''runtime task request fingerprint is duplicated'') (\<lambda>_.
     Ok (t_incarnation r # incarnations, t_fingerprint r # fingerprints))))))))))))))"

definition validate_proof_artifact_record :: "string \<Rightarrow> string \<times> artifact_record \<Rightarrow> (string, unit) outcome" where
  "validate_proof_artifact_record environment item =
     (case item of (key, r) \<Rightarrow>
     bind_outcome (ensure (key = record_key r) ''runtime artifact key does not match record'') (\<lambda>_.
     bind_outcome (ensure (a_environment r = environment) ''runtime artifact environment does not match the store'') (\<lambda>_.
     bind_outcome (ensure (canonicalize_persisted_route (a_pipeline_key r) (a_route r) \<noteq> None)
       ''runtime artifact pipeline does not support its route'') (\<lambda>_.
     bind_outcome (ensure (a_network_pair r \<noteq> [] \<and> a_proof_ref r \<noteq> [] \<and> a_proof_uri r \<noteq> [] \<and> a_content_hash r \<noteq> [])
       ''runtime artifact identity or descriptor is empty'') (\<lambda>_.
     ensure ((a_lifecycle r = LInvalidated) = (a_invalidated_at r \<noteq> None))
       ''runtime artifact invalidation timestamp does not match its lifecycle'')))))"

definition validate_pending_publication_record ::
  "runtime_state \<Rightarrow> string \<times> pending_publication \<Rightarrow> (string, unit) outcome" where
  "validate_pending_publication_record s item =
     (case item of (key, r) \<Rightarrow>
     bind_outcome (ensure (key = artifact_record_key (p_key r)) ''pending publication key does not match record'') (\<lambda>_.
     bind_outcome (ensure (canonicalize_persisted_route (ak_pipeline_key (p_key r)) (ak_route (p_key r)) \<noteq> None)
       ''pending publication pipeline does not support its route'') (\<lambda>_.
     bind_outcome (ensure (ak_network_pair (p_key r) \<noteq> [] \<and> ak_proof_ref (p_key r) \<noteq> [] \<and> p_content_hash r \<noteq> [])
       ''pending publication identity or content hash is empty'') (\<lambda>_.
     bind_outcome (ensure (distinct (p_owners r)) ''pending publication contains duplicate owners'') (\<lambda>_.
     ensure (list_all (\<lambda>owner. list_ex (\<lambda>task. t_incarnation task = owner
                \<and> task_matches_artifact_identity task (p_key r)) (fm_values (rs_tasks s))) (p_owners r))
       ''pending publication owner does not match its artifact identity'')))))"

definition validate_runtime_state :: "string \<Rightarrow> runtime_state \<Rightarrow> (string, unit) outcome" where
  "validate_runtime_state environment s =
     bind_outcome (try_fold validate_runtime_task_record ([], []) (fm_items (rs_tasks s))) (\<lambda>_.
     bind_outcome (try_fold (\<lambda>_. validate_proof_artifact_record environment) () (fm_items (rs_artifacts s))) (\<lambda>_.
     try_fold (\<lambda>_. validate_pending_publication_record s) () (fm_items (rs_pending s))))"

end
