(* ===== verification/Runtime_Ops.thy ===== *)
theory Runtime_Ops
  imports Runtime_State "HOL-Library.Product_Lexorder"
begin

text \<open>
  The operations of the runtime manager (\<open>crates/runtime/src/lib.rs\<close>) on the authoritative state:
  the life of a task, the life of a proof artifact, pending publications, and retention. Each
  definition is the closure the source hands to \<open>mutate\<close>, together with the checks in front of it;
  the commit itself is in the theory \<open>Runtime_Commit\<close>.
\<close>

type_synonym 'o mutation = "runtime_state \<Rightarrow> (string, 'o \<times> runtime_state) outcome"

definition unchanged :: "'o \<Rightarrow> 'o mutation" where
  "unchanged out s = Ok (out, s)"

definition put_task :: "runtime_task \<Rightarrow> runtime_state \<Rightarrow> runtime_state" where
  "put_task r s = s\<lparr>rs_tasks := fmupd (t_task_id r) r (rs_tasks s)\<rparr>"

definition set_task :: "string \<Rightarrow> runtime_task \<Rightarrow> runtime_state \<Rightarrow> runtime_state" where
  "set_task task_id r s = s\<lparr>rs_tasks := fmupd task_id r (rs_tasks s)\<rparr>"

definition put_artifact :: "string \<Rightarrow> artifact_record \<Rightarrow> runtime_state \<Rightarrow> runtime_state" where
  "put_artifact key r s = s\<lparr>rs_artifacts := fmupd key r (rs_artifacts s)\<rparr>"

text \<open>
  \<open>for pending in state.pending_publications.values_mut() { pending.owner_incarnations.retain(..) }\<close>
\<close>

definition retain_owners :: "(uuid \<Rightarrow> bool) \<Rightarrow> pending_publication \<Rightarrow> pending_publication" where
  "retain_owners keep pending = pending\<lparr>p_owners := filter keep (p_owners pending)\<rparr>"

definition retain_all_owners :: "(uuid \<Rightarrow> bool) \<Rightarrow> runtime_state \<Rightarrow> runtime_state" where
  "retain_all_owners keep s = s\<lparr>rs_pending := fmmap (retain_owners keep) (rs_pending s)\<rparr>"

section \<open>Tasks\<close>

definition build_task_record :: "uuid \<Rightarrow> int \<Rightarrow> task_registration \<Rightarrow> (string, runtime_task) outcome" where
  "build_task_record fresh now g =
     bind_outcome (ensure (g_task_id g \<noteq> []) ''task registration id is empty'') (\<lambda>_.
     bind_outcome (ensure (g_task_kind g \<noteq> []) ''task registration kind is empty'') (\<lambda>_.
     bind_outcome (ensure (supports_route (g_pipeline_key g) (g_route g)) ''pipeline_key does not match route'') (\<lambda>_.
     bind_outcome (ensure (g_network_pair g \<noteq> []) ''task registration requires network_pair'') (\<lambda>_.
     bind_outcome (ensure ([] \<notin> set (g_artifact_refs g)) ''task registration contains an empty artifact reference'') (\<lambda>_.
     bind_outcome (ensure (distinct (g_artifact_refs g)) ''task registration contains duplicate artifact references'') (\<lambda>_.
     bind_outcome (ensure (g_fingerprint g \<noteq> []) ''task registration request fingerprint is empty'') (\<lambda>_.
     Ok \<lparr>t_task_id = g_task_id g, t_incarnation = fresh, t_pipeline_key = g_pipeline_key g, t_route = g_route g,
         t_task_kind = g_task_kind g, t_network_pair = g_network_pair g, t_artifact_refs = g_artifact_refs g,
         t_status = RAllocated, t_retention = Retained, t_image_ref = None, t_proof_uri = None, t_error = None,
         t_metadata = g_metadata g, t_fingerprint = g_fingerprint g, t_updated_at = now\<rparr>)))))))"

definition check_precondition :: "runtime_state \<Rightarrow> artifact_precondition \<Rightarrow> (string, unit) outcome" where
  "check_precondition s expected =
     (case fmlookup (rs_artifacts s) (artifact_record_key (pre_key expected)) of
        None \<Rightarrow> Err ''cached proof artifact disappeared before task admission''
      | Some artifact \<Rightarrow>
          if a_lifecycle artifact \<noteq> LActive \<or> artifact_descriptor artifact \<noteq> pre_descriptor expected
          then Err ''cached proof artifact changed before task admission''
          else Ok ())"

definition ensure_artifact_preconditions :: "runtime_state \<Rightarrow> artifact_precondition list \<Rightarrow> (string, unit) outcome" where
  "ensure_artifact_preconditions s preconditions = try_fold (\<lambda>_. check_precondition s) () preconditions"

definition ensure_task_fingerprint_available :: "runtime_state \<Rightarrow> runtime_task \<Rightarrow> (string, unit) outcome" where
  "ensure_task_fingerprint_available s r =
     ensure (\<not> list_ex (\<lambda>task. t_task_id task \<noteq> t_task_id r \<and> t_fingerprint task = t_fingerprint r)
               (fm_values (rs_tasks s)))
       ''request fingerprint already belongs to another task''"

definition replace_task_if_unchanged ::
  "uuid \<Rightarrow> (nat \<Rightarrow> int) \<Rightarrow> runtime_task \<Rightarrow> task_registration \<Rightarrow> artifact_precondition list \<Rightarrow>
   runtime_task option mutation" where
  "replace_task_if_unchanged fresh clock expected registration preconditions s =
     bind_outcome (build_task_record fresh (clock 0) registration) (\<lambda>r.
     case fmlookup (rs_tasks s) (t_task_id expected) of
       None \<Rightarrow> unchanged None s
     | Some current \<Rightarrow>
         if current \<noteq> expected then unchanged None s
         else
           bind_outcome (ensure_artifact_preconditions s preconditions) (\<lambda>_.
           bind_outcome (ensure (t_task_id r = t_task_id expected \<or> fmlookup (rs_tasks s) (t_task_id r) = None)
             ''replacement task id already belongs to another task'') (\<lambda>_.
           let s1 = s\<lparr>rs_tasks := fmdrop (t_task_id expected) (rs_tasks s)\<rparr>;
               s2 = retain_all_owners (\<lambda>owner. owner \<noteq> t_incarnation current) s1
           in bind_outcome (ensure_task_fingerprint_available s2 r) (\<lambda>_.
              Ok (Some r, put_task r s2)))))"

definition register_task_if_absent ::
  "uuid \<Rightarrow> (nat \<Rightarrow> int) \<Rightarrow> task_registration \<Rightarrow> artifact_precondition list \<Rightarrow> registration_outcome mutation" where
  "register_task_if_absent fresh clock registration preconditions s =
     bind_outcome (build_task_record fresh (clock 0) registration) (\<lambda>r.
     case (case fmlookup (rs_tasks s) (t_task_id r) of
             Some existing \<Rightarrow> Some existing
           | None \<Rightarrow> find (\<lambda>task. t_fingerprint task = g_fingerprint registration) (fm_values (rs_tasks s))) of
       Some existing \<Rightarrow> unchanged (TaskExisting existing) s
     | None \<Rightarrow>
         bind_outcome (ensure_artifact_preconditions s preconditions) (\<lambda>_.
         Ok (TaskCreated r, put_task r s)))"

definition complete_nonterminal_task ::
  "(nat \<Rightarrow> int) \<Rightarrow> string \<Rightarrow> uuid \<Rightarrow> string \<Rightarrow> artifact_precondition list \<Rightarrow> bool mutation" where
  "complete_nonterminal_task clock task_id expected_incarnation proof_uri preconditions s =
     (case fmlookup (rs_tasks s) task_id of
        None \<Rightarrow> unchanged False s
      | Some task \<Rightarrow>
          if t_incarnation task \<noteq> expected_incarnation \<or> status_terminal (t_status task) then unchanged False s
          else if ensure_artifact_preconditions s preconditions \<noteq> Ok () then unchanged False s
          else Ok (True, set_task task_id
                 (task\<lparr>t_status := RCompleted, t_proof_uri := Some proof_uri, t_error := None,
                       t_updated_at := clock 0\<rparr>) s))"

definition prepare_task_for_recovery_if_unchanged ::
  "(nat \<Rightarrow> int) \<Rightarrow> runtime_task \<Rightarrow> runtime_task option mutation" where
  "prepare_task_for_recovery_if_unchanged clock expected s =
     (case fmlookup (rs_tasks s) (t_task_id expected) of
        None \<Rightarrow> unchanged None s
      | Some task \<Rightarrow>
          if t_incarnation task \<noteq> t_incarnation expected then unchanged None s
          else if task \<noteq> expected \<or> t_status task = RCompleted \<or> t_status task = RCancelled then unchanged None s
          else
            let task' = task\<lparr>t_status := RAllocated, t_retention := Retained, t_error := None,
                             t_updated_at := clock 0\<rparr>
            in Ok (Some task', set_task (t_task_id expected) task' s))"

definition restore_task_after_recovery_if_unchanged ::
  "runtime_task \<Rightarrow> runtime_task \<Rightarrow> mutation_outcome mutation" where
  "restore_task_after_recovery_if_unchanged prepared original s =
     bind_outcome (ensure (t_task_id prepared = t_task_id original \<and> t_incarnation prepared = t_incarnation original)
       ''recovery rollback snapshots belong to different task lifetimes'') (\<lambda>_.
     bind_outcome (ensure (prepared\<lparr>t_status := t_status original, t_retention := t_retention original,
                                    t_error := t_error original, t_updated_at := t_updated_at original\<rparr> = original)
       ''recovery rollback may only restore status, retention state, error, and update time'') (\<lambda>_.
     case fmlookup (rs_tasks s) (t_task_id prepared) of
       None \<Rightarrow> unchanged MMissing s
     | Some current \<Rightarrow>
         if t_incarnation current \<noteq> t_incarnation prepared then unchanged MStale s
         else if current \<noteq> prepared then unchanged MBlocked s
         else Ok (Applied, set_task (t_task_id prepared) original s)))"

definition fail_task_if_unchanged :: "(nat \<Rightarrow> int) \<Rightarrow> runtime_task \<Rightarrow> string \<Rightarrow> mutation_outcome mutation" where
  "fail_task_if_unchanged clock expected err s =
     (case fmlookup (rs_tasks s) (t_task_id expected) of
        None \<Rightarrow> unchanged MMissing s
      | Some current \<Rightarrow>
          if t_incarnation current \<noteq> t_incarnation expected then unchanged MStale s
          else if current \<noteq> expected \<or> status_terminal (t_status current) then unchanged MBlocked s
          else Ok (Applied, set_task (t_task_id expected)
                 (current\<lparr>t_status := RFailed, t_error := Some err, t_updated_at := clock 0\<rparr>) s))"

definition cancel_task_if_current ::
  "(nat \<Rightarrow> int) \<Rightarrow> task_lifetime \<Rightarrow> string option \<Rightarrow> mutation_outcome mutation" where
  "cancel_task_if_current clock lifetime err s =
     (case fmlookup (rs_tasks s) (lt_task_id lifetime) of
        None \<Rightarrow> unchanged MMissing s
      | Some task \<Rightarrow>
          if t_incarnation task \<noteq> lt_incarnation lifetime then unchanged MStale s
          else
            (case t_status task of
               RCancelled \<Rightarrow> unchanged AlreadyApplied s
             | RCompleted \<Rightarrow> unchanged MBlocked s
             | RFailed \<Rightarrow> unchanged MBlocked s
             | _ \<Rightarrow> Ok (Applied, set_task (lt_task_id lifetime)
                      (task\<lparr>t_status := RCancelled, t_error := err, t_updated_at := clock 0\<rparr>) s)))"

definition cancel_task_if_unchanged ::
  "(nat \<Rightarrow> int) \<Rightarrow> runtime_task \<Rightarrow> string option \<Rightarrow> mutation_outcome mutation" where
  "cancel_task_if_unchanged clock expected err s =
     (case fmlookup (rs_tasks s) (t_task_id expected) of
        None \<Rightarrow> unchanged MMissing s
      | Some task \<Rightarrow>
          if t_incarnation task \<noteq> t_incarnation expected then unchanged MStale s
          else if task \<noteq> expected \<or> status_terminal (t_status task) then unchanged MBlocked s
          else Ok (Applied, set_task (t_task_id expected)
                 (task\<lparr>t_status := RCancelled, t_error := err, t_updated_at := clock 0\<rparr>) s))"

definition retire_task_if_unchanged :: "runtime_task \<Rightarrow> string option \<Rightarrow> mutation_outcome mutation" where
  "retire_task_if_unchanged expected err s =
     (case fmlookup (rs_tasks s) (t_task_id expected) of
        None \<Rightarrow> unchanged MMissing s
      | Some task \<Rightarrow>
          if t_incarnation task \<noteq> t_incarnation expected then unchanged MStale s
          else if task \<noteq> expected then unchanged MBlocked s
          else if t_status task = RCancelled then unchanged AlreadyApplied s
          else Ok (Applied, set_task (t_task_id expected)
                 (task\<lparr>t_status := RCancelled, t_error := err, t_proof_uri := None\<rparr>) s))"

definition remove_task_if_current :: "task_lifetime \<Rightarrow> mutation_outcome mutation" where
  "remove_task_if_current lifetime s =
     (case fmlookup (rs_tasks s) (lt_task_id lifetime) of
        None \<Rightarrow> unchanged MMissing s
      | Some current \<Rightarrow>
          if t_incarnation current \<noteq> lt_incarnation lifetime then unchanged MStale s
          else if t_status current \<noteq> RCancelled then unchanged MBlocked s
          else Ok (Applied, retain_all_owners (\<lambda>owner. owner \<noteq> t_incarnation current)
                 (s\<lparr>rs_tasks := fmdrop (lt_task_id lifetime) (rs_tasks s)\<rparr>)))"

text \<open>
  The operations that hand the matching records to a caller's function and store what it returns.
\<close>

definition put_tasks :: "runtime_task list \<Rightarrow> runtime_state \<Rightarrow> runtime_state" where
  "put_tasks rs s = fold put_task rs s"

definition update_tasks_by_ref ::
  "string \<Rightarrow> (runtime_task list \<Rightarrow> (string, 'o \<times> runtime_task list) outcome) \<Rightarrow> 'o mutation" where
  "update_tasks_by_ref task_ref update s =
     bind_outcome (update (sort_key t_task_id (filter (\<lambda>r. task_references r task_ref) (fm_values (rs_tasks s)))))
       (\<lambda>(out, records). Ok (out, put_tasks records s))"

section \<open>Proof artifacts\<close>

definition proof_artifact_record ::
  "string \<Rightarrow> (nat \<Rightarrow> int) \<Rightarrow> artifact_registration \<Rightarrow> artifact_lifecycle \<Rightarrow> string \<times> artifact_record" where
  "proof_artifact_record environment clock registration lifecycle =
     (let k = ar_key registration; d = ar_descriptor registration in
      (artifact_record_key k,
       \<lparr>a_environment = environment, a_network_pair = ak_network_pair k, a_proof_ref = ak_proof_ref k,
        a_pipeline_key = ak_pipeline_key k, a_route = ak_route k, a_proof_uri = d_proof_uri d,
        a_content_hash = d_content_hash d, a_generation = d_generation d, a_lifecycle = lifecycle,
        a_invalidated_at = (if lifecycle = LInvalidated then Some (clock 0) else None),
        a_updated_at = clock 1\<rparr>))"

definition ensure_canonical_artifact_registration :: "artifact_registration \<Rightarrow> (string, unit) outcome" where
  "ensure_canonical_artifact_registration registration =
     ensure (supports_route (ak_pipeline_key (ar_key registration)) (ak_route (ar_key registration)))
       ''proof artifact pipeline does not support its route''"

definition register_pending_proof_artifact ::
  "string \<Rightarrow> (nat \<Rightarrow> int) \<Rightarrow> artifact_registration \<Rightarrow> artifact_lifecycle mutation" where
  "register_pending_proof_artifact environment clock registration s =
     bind_outcome (ensure_canonical_artifact_registration registration) (\<lambda>_.
     let (key, r) = proof_artifact_record environment clock registration LPending;
         insert_next =
           (let has_owner = pending_publication_has_live_owner s (ar_key registration);
                next = r\<lparr>a_lifecycle := (if has_owner then LPending else LInvalidated),
                         a_invalidated_at := (if has_owner then None else Some (clock 2))\<rparr>
            in Ok (a_lifecycle next, put_artifact key next s))
     in case fmlookup (rs_artifacts s) key of
          Some existing \<Rightarrow>
            if artifact_descriptor existing \<noteq> artifact_descriptor r then unchanged LInvalidated s
            else if a_lifecycle existing = LInvalidated then unchanged LInvalidated s
            else insert_next
        | None \<Rightarrow> insert_next)"

text \<open>\<open>lifecycle = Invalidated; invalidated_at.get_or_insert_with(now_ts); updated_at = now_ts()\<close>\<close>

definition mark_invalidated :: "int \<Rightarrow> int \<Rightarrow> artifact_record \<Rightarrow> artifact_record" where
  "mark_invalidated now now' r =
     r\<lparr>a_lifecycle := LInvalidated,
       a_invalidated_at := (case a_invalidated_at r of None \<Rightarrow> Some now | Some t \<Rightarrow> Some t),
       a_updated_at := now'\<rparr>"

definition register_invalidated_proof_artifact ::
  "string \<Rightarrow> (nat \<Rightarrow> int) \<Rightarrow> artifact_registration \<Rightarrow> unit mutation" where
  "register_invalidated_proof_artifact environment clock registration s =
     bind_outcome (ensure_canonical_artifact_registration registration) (\<lambda>_.
     let (key, r) = proof_artifact_record environment clock registration LInvalidated
     in case fmlookup (rs_artifacts s) key of
          Some existing \<Rightarrow>
            if artifact_descriptor existing \<noteq> artifact_descriptor r then unchanged () s
            else Ok ((), put_artifact key (mark_invalidated (clock 2) (clock 3) existing) s)
        | None \<Rightarrow> Ok ((), put_artifact key r s))"

definition activate_proof_artifact_with_tasks ::
  "(nat \<Rightarrow> int) \<Rightarrow> string \<Rightarrow> artifact_registration \<Rightarrow> uuid list \<Rightarrow>
   (runtime_task list \<Rightarrow> (string, ('o \<times> runtime_task list) option) outcome) \<Rightarrow> 'o option mutation" where
  "activate_proof_artifact_with_tasks clock task_ref registration owner_incarnations update s =
     (let key = artifact_record_key (ar_key registration); descriptor = ar_descriptor registration in
      bind_outcome (ok_or (fmlookup (rs_pending s) key) ''pending proof publication ownership is missing'') (\<lambda>pending.
      bind_outcome (ok_or (fmlookup (rs_artifacts s) key) ''proof artifact lifecycle registration is missing'') (\<lambda>artifact.
      bind_outcome (ensure (artifact_descriptor artifact = descriptor)
        ''proof artifact lifecycle descriptor changed before activation'') (\<lambda>_.
      bind_outcome (ensure (a_lifecycle artifact \<noteq> LInvalidated)
        ''proof artifact lifecycle was invalidated before activation'') (\<lambda>_.
      bind_outcome (ensure (a_lifecycle artifact = LActive \<or> p_content_hash pending = d_content_hash descriptor)
        ''pending proof publication content changed before activation'') (\<lambda>_.
      let records = sort_key t_task_id (artifact_task_records s ((ar_key registration)\<lparr>ak_proof_ref := task_ref\<rparr>));
          active = map t_incarnation (filter (\<lambda>r. \<not> status_dead (t_status r)) records)
      in if \<not> list_ex (\<lambda>owner. owner \<in> set active) owner_incarnations then unchanged None s
         else
           bind_outcome (ensure (list_all (\<lambda>owner. owner \<in> set active) owner_incarnations)
             ''proof publication activation includes a stale runtime owner'') (\<lambda>_.
           bind_outcome (update records) (\<lambda>updated.
           case updated of
             None \<Rightarrow> unchanged None s
           | Some (out, records') \<Rightarrow>
               let s1 = put_tasks records' s;
                   s2 = put_artifact key (artifact\<lparr>a_lifecycle := LActive, a_invalidated_at := None,
                                                   a_updated_at := clock 0\<rparr>) s1
               in Ok (Some out, s2\<lparr>rs_pending := fmupd key (pending\<lparr>p_owners := []\<rparr>) (rs_pending s2)\<rparr>)))))))))"

definition update_tasks_and_invalidate_artifact ::
  "(nat \<Rightarrow> int) \<Rightarrow> proof_artifact_key \<Rightarrow>
   (runtime_task list \<Rightarrow> (string, 'o \<times> bool \<times> runtime_task list) outcome) \<Rightarrow>
   ('o \<times> bool \<times> proof_artifact_descriptor option) mutation" where
  "update_tasks_and_invalidate_artifact clock k update s =
     (let key = artifact_record_key k in
      bind_outcome (update (sort_key t_task_id (artifact_task_records s k))) (\<lambda>(out, requested, records).
      let s1 = put_tasks records s;
          live = map t_incarnation (filter (\<lambda>r. \<not> status_dead (t_status r)) (artifact_task_records s1 k));
          s2 = (case fmlookup (rs_pending s1) key of
                  None \<Rightarrow> s1
                | Some pending \<Rightarrow>
                    s1\<lparr>rs_pending := fmupd key (retain_owners (\<lambda>owner. owner \<in> set live) pending) (rs_pending s1)\<rparr>);
          invalidate = (requested \<and> live = [])
      in if invalidate
         then (case fmlookup (rs_artifacts s2) key of
                 None \<Rightarrow> Ok ((out, invalidate, None), s2)
               | Some artifact \<Rightarrow>
                   if a_lifecycle artifact = LInvalidated
                   then Ok ((out, invalidate, Some (artifact_descriptor artifact)), s2)
                   else let artifact' = mark_invalidated (clock 0) (clock 1) artifact
                        in Ok ((out, invalidate, Some (artifact_descriptor artifact')), put_artifact key artifact' s2))
         else Ok ((out, invalidate, None), s2)))"

definition remove_proof_artifact_if_descriptor ::
  "proof_artifact_key \<Rightarrow> proof_artifact_descriptor \<Rightarrow> bool mutation" where
  "remove_proof_artifact_if_descriptor k descriptor s =
     (let key = artifact_record_key k in
      case fmlookup (rs_artifacts s) key of
        None \<Rightarrow> unchanged False s
      | Some r \<Rightarrow>
          if artifact_descriptor r = descriptor
          then Ok (True, s\<lparr>rs_artifacts := fmdrop key (rs_artifacts s)\<rparr>)
          else unchanged False s)"

definition get_proof_artifact :: "runtime_state \<Rightarrow> proof_artifact_key \<Rightarrow> artifact_record option" where
  "get_proof_artifact s k =
     (case fmlookup (rs_artifacts s) (artifact_record_key k) of
        None \<Rightarrow> None
      | Some r \<Rightarrow> if a_lifecycle r = LActive then Some r else None)"

section \<open>Pending publications\<close>

text \<open>\<open>sort_unstable(); dedup()\<close> on identifiers.\<close>

fun dedup_adjacent :: "'a list \<Rightarrow> 'a list" where
  "dedup_adjacent (x # y # ys) = (if x = y then dedup_adjacent (y # ys) else x # dedup_adjacent (y # ys))"
| "dedup_adjacent xs = xs"

definition record_pending_proof_publication_intent :: "pending_publication \<Rightarrow> bool mutation" where
  "record_pending_proof_publication_intent record s =
     (let key = artifact_record_key (p_key record);
          live = map t_incarnation
                   (filter (\<lambda>task. task_matches_artifact_identity task (p_key record) \<and> \<not> status_dead (t_status task))
                     (fm_values (rs_tasks s)));
          owners = filter (\<lambda>owner. owner \<in> set live) (p_owners record)
      in if owners = [] then unchanged False s
         else
           let current = fmlookup (rs_pending s) key;
               different_live_intent =
                 (case current of
                    None \<Rightarrow> False
                  | Some pending \<Rightarrow> p_content_hash pending \<noteq> p_content_hash record
                      \<and> list_ex (\<lambda>owner. owner \<in> set live) (p_owners pending))
           in bind_outcome (ensure (\<not> different_live_intent)
                ''different pending proof is owned by another task incarnation'') (\<lambda>_.
              let owners' =
                    (case current of
                       None \<Rightarrow> owners
                     | Some pending \<Rightarrow>
                         if p_content_hash pending = p_content_hash record
                         then owners @ filter (\<lambda>owner. owner \<in> set live) (p_owners pending) else owners)
              in Ok (True, s\<lparr>rs_pending :=
                   fmupd key (record\<lparr>p_owners := dedup_adjacent (sort owners')\<rparr>) (rs_pending s)\<rparr>)))"

definition release_pending_owner :: "proof_artifact_key \<Rightarrow> uuid \<Rightarrow> bool mutation" where
  "release_pending_owner k owner_incarnation s =
     (let key = artifact_record_key k in
      case fmlookup (rs_pending s) key of
        None \<Rightarrow> unchanged False s
      | Some pending \<Rightarrow>
          Ok (True, s\<lparr>rs_pending :=
            fmupd key (retain_owners (\<lambda>owner. owner \<noteq> owner_incarnation) pending) (rs_pending s)\<rparr>))"

definition remove_pending_if_unowned :: "proof_artifact_key \<Rightarrow> bool mutation" where
  "remove_pending_if_unowned k s =
     (if pending_publication_has_live_owner s k then unchanged False s
      else let key = artifact_record_key k
           in Ok (fmlookup (rs_pending s) key \<noteq> None, s\<lparr>rs_pending := fmdrop key (rs_pending s)\<rparr>))"

definition mark_unowned_pending_publication_invalidated ::
  "(nat \<Rightarrow> int) \<Rightarrow> proof_artifact_key \<Rightarrow> artifact_record option \<Rightarrow> bool option mutation" where
  "mark_unowned_pending_publication_invalidated clock k canonical_record s =
     (let state_key = artifact_record_key k in
      if pending_publication_has_live_owner s k then unchanged None s
      else
        let has_live_task = list_ex (\<lambda>task. \<not> status_dead (t_status task)) (artifact_task_records s k);
            pending = fmlookup (rs_pending s) state_key;
            artifact = fmlookup (rs_artifacts s) state_key;
            canonical_descriptor = map_option artifact_descriptor canonical_record;
            canonical_has_lifecycle =
              (\<lambda>lifecycle. case artifact of
                 None \<Rightarrow> False
               | Some r \<Rightarrow> Some (artifact_descriptor r) = canonical_descriptor \<and> a_lifecycle r = lifecycle)
        in if has_live_task \<and> (pending = None \<or> canonical_has_lifecycle LActive) then unchanged None s
           else
             let pending_matches_canonical =
                   (case (pending, canonical_descriptor) of
                      (Some p, Some d) \<Rightarrow> p_content_hash p = d_content_hash d
                    | _ \<Rightarrow> False);
                 invalidate_canonical =
                   (canonical_record \<noteq> None \<and>
                    (canonical_has_lifecycle LInvalidated \<or> pending_matches_canonical \<or> \<not> has_live_task))
             in (case canonical_record of
                   Some c \<Rightarrow>
                     if invalidate_canonical
                     then (case artifact of
                             None \<Rightarrow> Ok (Some True, put_artifact state_key c s)
                           | Some r \<Rightarrow>
                               if artifact_descriptor r = artifact_descriptor c
                               then Ok (Some True, put_artifact state_key (mark_invalidated (clock 2) (clock 3) r) s)
                               else unchanged (Some True) s)
                     else unchanged (Some False) s
                 | None \<Rightarrow> unchanged (Some invalidate_canonical) s))"

text \<open>
  The part of \<open>invalidate_pending_proof_publication\<close> that edits the state: the descriptor of the
  canonical object, when there is one, is turned into an invalidated record.
\<close>

definition invalidate_pending_mutation ::
  "string \<Rightarrow> (nat \<Rightarrow> int) \<Rightarrow> proof_artifact_key \<Rightarrow> proof_artifact_descriptor option \<Rightarrow> bool option mutation" where
  "invalidate_pending_mutation environment clock k canonical s =
     mark_unowned_pending_publication_invalidated clock k
       (map_option (\<lambda>d. snd (proof_artifact_record environment clock \<lparr>ar_key = k, ar_descriptor = d\<rparr> LInvalidated))
         canonical) s"

text \<open>
  \<open>prepare_pending_canonical_for_retention\<close> after its read of the object's descriptor.
\<close>

definition prepare_pending_canonical_for_retention ::
  "string \<Rightarrow> (nat \<Rightarrow> int) \<Rightarrow> pending_publication \<Rightarrow> proof_artifact_descriptor option \<Rightarrow>
   artifact_expectation option mutation" where
  "prepare_pending_canonical_for_retention environment clock expected canonical s =
     (case canonical of
        None \<Rightarrow> unchanged None s
      | Some d \<Rightarrow>
          if d_content_hash d \<noteq> p_content_hash expected then unchanged None s
          else
            let (state_key, c) = proof_artifact_record environment clock
                                   \<lparr>ar_key = p_key expected, ar_descriptor = d\<rparr> LInvalidated
            in case fmlookup (rs_pending s) state_key of
                 None \<Rightarrow> unchanged None s
               | Some current \<Rightarrow>
                   bind_outcome (ensure (current = expected)
                     ''pending proof publication changed before canonical cleanup admission'') (\<lambda>_.
                   bind_outcome (ensure (\<not> pending_publication_has_retention_owner s state_key (p_key expected))
                     ''pending proof publication gained a retained owner before canonical cleanup admission'') (\<lambda>_.
                   case fmlookup (rs_artifacts s) state_key of
                     Some r \<Rightarrow>
                       if artifact_descriptor r = artifact_descriptor c
                       then (if a_lifecycle r \<noteq> LInvalidated then unchanged None s
                             else unchanged (Some (expectation_of r)) s)
                       else unchanged None s
                   | None \<Rightarrow> Ok (Some (expectation_of c), put_artifact state_key c s))))"

section \<open>Retention\<close>

record artifact_retention_prepare =
  arp_invalidations :: "artifact_expectation list"
  arp_newly_invalidated :: nat
  arp_skipped :: nat

definition prepare_artifact ::
  "int \<Rightarrow> string set \<Rightarrow> artifact_record \<Rightarrow> artifact_retention_prepare \<times> runtime_state \<Rightarrow>
   artifact_retention_prepare \<times> runtime_state" where
  "prepare_artifact invalidated_at ownership expected acc =
     (case acc of (prepared, s) \<Rightarrow>
      let key = record_key expected in
      case fmlookup (rs_artifacts s) key of
        Some current \<Rightarrow>
          if current = expected \<and> artifact_is_reclaimable_for_retention current key ownership
          then
            (if a_lifecycle current \<noteq> LInvalidated
             then let artifact = current\<lparr>a_lifecycle := LInvalidated, a_invalidated_at := Some invalidated_at,
                                         a_updated_at := invalidated_at\<rparr>
                  in (prepared\<lparr>arp_newly_invalidated := arp_newly_invalidated prepared + 1,
                               arp_invalidations := arp_invalidations prepared @ [expectation_of artifact]\<rparr>,
                      put_artifact key artifact s)
             else (prepared\<lparr>arp_invalidations := arp_invalidations prepared @ [expectation_of current]\<rparr>, s))
          else (prepared\<lparr>arp_skipped := arp_skipped prepared + 1\<rparr>, s)
      | None \<Rightarrow> (prepared\<lparr>arp_skipped := arp_skipped prepared + 1\<rparr>, s))"

definition prepare_artifact_retention_batch ::
  "(nat \<Rightarrow> int) \<Rightarrow> artifact_record list \<Rightarrow> artifact_retention_prepare mutation" where
  "prepare_artifact_retention_batch clock expected_artifacts s =
     (let empty = \<lparr>arp_invalidations = [], arp_newly_invalidated = 0, arp_skipped = 0\<rparr> in
      if expected_artifacts = [] then unchanged empty s
      else bind_outcome (ensure (distinct (map record_key expected_artifacts))
             ''artifact retention batch contains duplicate artifact keys'') (\<lambda>_.
           Ok (fold (prepare_artifact (clock 0) (owned_artifacts s)) expected_artifacts (empty, s))))"

record task_retention_prepare =
  trp_retired_tasks :: "runtime_task list"
  trp_skipped_tasks :: nat

definition retire_for_removal ::
  "runtime_task \<Rightarrow> task_retention_prepare \<times> runtime_state \<Rightarrow> task_retention_prepare \<times> runtime_state" where
  "retire_for_removal expected acc =
     (case acc of (prepared, s) \<Rightarrow>
      case fmlookup (rs_tasks s) (t_task_id expected) of
        None \<Rightarrow> (prepared\<lparr>trp_skipped_tasks := trp_skipped_tasks prepared + 1\<rparr>, s)
      | Some current \<Rightarrow>
          if current \<noteq> expected \<or> \<not> status_terminal (t_status current)
          then (prepared\<lparr>trp_skipped_tasks := trp_skipped_tasks prepared + 1\<rparr>, s)
          else let r = current\<lparr>t_retention := Removing\<rparr>
               in (prepared\<lparr>trp_retired_tasks := trp_retired_tasks prepared @ [r]\<rparr>,
                   set_task (t_task_id expected) r s))"

text \<open>
  \<open>prepare_terminal_task_retention_batch\<close> edits the local state directly, without a commit: the
  retention state of a task is not part of the stored bytes.
\<close>

definition prepare_terminal_task_retention_batch :: "runtime_task list \<Rightarrow> task_retention_prepare mutation" where
  "prepare_terminal_task_retention_batch expected_tasks s =
     (let empty = \<lparr>trp_retired_tasks = [], trp_skipped_tasks = 0\<rparr> in
      if expected_tasks = [] then unchanged empty s
      else bind_outcome (ensure (distinct (map t_task_id expected_tasks))
             ''terminal task retention batch contains duplicate task ids'') (\<lambda>_.
           Ok (fold retire_for_removal expected_tasks (empty, s))))"

record retention_finalize =
  rf_removed_tasks :: "task_lifetime list"
  rf_removed_artifacts :: "artifact_expectation list"
  rf_removed_pending :: "pending_publication list"
  rf_skipped_tasks :: nat
  rf_skipped_artifacts :: nat
  rf_skipped_pending :: nat

definition validate_terminal_retention_finalization ::
  "runtime_task list \<Rightarrow> artifact_expectation list \<Rightarrow> pending_publication list \<Rightarrow> (string, unit) outcome" where
  "validate_terminal_retention_finalization retired_tasks artifacts pendings =
     bind_outcome (ensure (distinct (map t_task_id retired_tasks))
       ''terminal task retention finalization contains duplicate task ids'') (\<lambda>_.
     bind_outcome (ensure (list_all (\<lambda>task. status_terminal (t_status task) \<and> t_retention task = Removing) retired_tasks)
       ''terminal task retention finalization requires retired tasks'') (\<lambda>_.
     bind_outcome (ensure (distinct (map ae_key artifacts))
       ''terminal task retention finalization contains duplicate artifacts'') (\<lambda>_.
     bind_outcome (ensure (list_all (\<lambda>artifact. ae_lifecycle artifact = LInvalidated) artifacts)
       ''terminal task retention finalization requires invalidated artifacts'') (\<lambda>_.
     ensure (distinct (map p_key pendings))
       ''terminal task retention finalization contains duplicate pending publications''))))"

definition finalize_pending ::
  "string set \<Rightarrow> pending_publication \<Rightarrow> retention_finalize \<times> runtime_state \<Rightarrow> retention_finalize \<times> runtime_state" where
  "finalize_pending ownership expected acc =
     (case acc of (finalized, s) \<Rightarrow>
      let key = artifact_record_key (p_key expected) in
      case fmlookup (rs_pending s) key of
        None \<Rightarrow> (finalized\<lparr>rf_removed_pending := rf_removed_pending finalized @ [expected]\<rparr>, s)
      | Some current \<Rightarrow>
          if current \<noteq> expected \<or> key \<in> ownership
          then (finalized\<lparr>rf_skipped_pending := rf_skipped_pending finalized + 1\<rparr>, s)
          else (finalized\<lparr>rf_removed_pending := rf_removed_pending finalized @ [expected]\<rparr>,
                s\<lparr>rs_pending := fmdrop key (rs_pending s)\<rparr>))"

definition finalize_task ::
  "runtime_task \<Rightarrow> retention_finalize \<times> runtime_state \<Rightarrow> retention_finalize \<times> runtime_state" where
  "finalize_task expected acc =
     (case acc of (finalized, s) \<Rightarrow>
      if fmlookup (rs_tasks s) (t_task_id expected) = Some expected
      then (finalized\<lparr>rf_removed_tasks := rf_removed_tasks finalized @ [task_lifetime_of expected]\<rparr>,
            s\<lparr>rs_tasks := fmdrop (t_task_id expected) (rs_tasks s)\<rparr>)
      else (finalized\<lparr>rf_skipped_tasks := rf_skipped_tasks finalized + 1\<rparr>, s))"

definition finalize_artifact ::
  "artifact_expectation \<Rightarrow> retention_finalize \<times> runtime_state \<Rightarrow> retention_finalize \<times> runtime_state" where
  "finalize_artifact expected acc =
     (case acc of (finalized, s) \<Rightarrow>
      let key = artifact_record_key (ae_key expected) in
      if (case fmlookup (rs_artifacts s) key of None \<Rightarrow> False | Some current \<Rightarrow> expectation_of current = expected)
      then (finalized\<lparr>rf_removed_artifacts := rf_removed_artifacts finalized @ [expected]\<rparr>,
            s\<lparr>rs_artifacts := fmdrop key (rs_artifacts s)\<rparr>)
      else (finalized\<lparr>rf_skipped_artifacts := rf_skipped_artifacts finalized + 1\<rparr>, s))"

definition finalize_terminal_task_retention_batch ::
  "runtime_task list \<Rightarrow> artifact_expectation list \<Rightarrow> pending_publication list \<Rightarrow> retention_finalize mutation" where
  "finalize_terminal_task_retention_batch retired_tasks artifacts pendings s =
     (let empty = \<lparr>rf_removed_tasks = [], rf_removed_artifacts = [], rf_removed_pending = [],
                   rf_skipped_tasks = 0, rf_skipped_artifacts = 0, rf_skipped_pending = 0\<rparr> in
      if retired_tasks = [] \<and> artifacts = [] \<and> pendings = [] then unchanged empty s
      else
        bind_outcome (validate_terminal_retention_finalization retired_tasks artifacts pendings) (\<lambda>_.
        let (f1, s1) = fold (finalize_pending (owned_artifacts s)) pendings (empty, s);
            (f2, s2) = fold finalize_task retired_tasks (f1, s1);
            removed = map lt_incarnation (rf_removed_tasks f2);
            s3 = (if removed = [] then s2 else retain_all_owners (\<lambda>owner. owner \<notin> set removed) s2)
        in Ok (fold finalize_artifact artifacts (f2, s3))))"

section \<open>Queries\<close>

definition tasks_referencing :: "runtime_state \<Rightarrow> string \<Rightarrow> runtime_task list" where
  "tasks_referencing s task_ref =
     sort_key (\<lambda>r. (- t_updated_at r, t_task_id r))
       (filter (\<lambda>r. task_references r task_ref) (fm_values (rs_tasks s)))"

text \<open>\<open>i64\<close> saturating subtraction, and \<open>i64::try_from(ttl).unwrap_or(i64::MAX)\<close>.\<close>

definition i64_saturating_sub :: "int \<Rightarrow> int \<Rightarrow> int" where
  "i64_saturating_sub a b = max (- (2 ^ 63)) (min (a - b) i64_max)"

definition list_tasks_matching ::
  "runtime_state \<Rightarrow> int \<Rightarrow> u64 \<Rightarrow> (int \<times> string) option \<Rightarrow> nat \<Rightarrow> bool \<Rightarrow> runtime_task list" where
  "list_tasks_matching s now ttl_secs after limit terminal =
     (if ttl_secs = 0 \<or> limit = 0 then []
      else
        let cutoff = i64_saturating_sub now (min (uint ttl_secs) i64_max) in
        take limit (sort_key (\<lambda>task. (t_updated_at task, t_task_id task))
          (filter (\<lambda>task. status_terminal (t_status task) = terminal \<and> t_updated_at task \<le> cutoff
              \<and> (case after of None \<Rightarrow> True
                 | Some (at, task_id) \<Rightarrow> at < t_updated_at task \<or> at = t_updated_at task \<and> task_id < t_task_id task))
            (fm_values (rs_tasks s)))))"

definition list_reclaimable_proof_artifacts ::
  "runtime_state \<Rightarrow> string option \<Rightarrow> nat \<Rightarrow> artifact_record list" where
  "list_reclaimable_proof_artifacts s after limit =
     (if limit = 0 then []
      else
        map snd (take limit (filter (\<lambda>(key, r).
            (case after of None \<Rightarrow> True | Some cursor \<Rightarrow> cursor < key)
            \<and> artifact_is_reclaimable_for_retention r key (owned_artifacts s)) (fm_items (rs_artifacts s)))))"

definition get_reclaimable_proof_artifact :: "runtime_state \<Rightarrow> proof_artifact_key \<Rightarrow> artifact_record option" where
  "get_reclaimable_proof_artifact s k =
     (let state_key = artifact_record_key k in
      case fmlookup (rs_artifacts s) state_key of
        None \<Rightarrow> None
      | Some r \<Rightarrow> if artifact_is_reclaimable_for_retention r state_key (owned_artifacts s) then Some r else None)"

end
