(* ===== verification/Runtime_Commit.thy ===== *)
theory Runtime_Commit
  imports Runtime_Ops
begin

text \<open>
  How the runtime manager commits a change of its state (\<open>mutate_authoritative\<close> and its helpers in
  \<open>crates/runtime/src/lib.rs\<close>): the edited copy is validated, encoded, and written to the store under
  the generation the manager last saw; the local state follows only after the write is known to
  have happened. A transport error is resolved by reading the object back.

  The mutation lock is held throughout, so a commit is one step of the manager; what happens
  around it is an argument, one \<open>attempt_env\<close> for each attempt. It says what the
  transport does to the write, whether the read-back fails, and what the lifecycle flags are at
  each of the points where the source looks at them. A write can be delivered, can be delivered
  with its reply lost, can be lost, and can arrive late, after the read-back. The codec of
  the state is an argument: the bytes depend on the iteration order of hash maps, so \<open>encode\<close> takes
  the number of the attempt. The edit is a function of the number of the attempt as well, since it reads the clock.
  The store is an argument too, as its two operations.
\<close>

section \<open>State of the manager\<close>

datatype coherence = Coherent | Recoverable | Violated

record lifecycle_flags =
  lf_active :: bool
  lf_draining :: bool
  lf_permit_valid :: bool \<comment> \<open>the permit was issued by this runtime\<close>

record manager =
  m_environment :: string
  m_state :: runtime_state
  m_generation :: "int option"
  m_serialized_bytes :: u64
  m_coherence :: coherence

datatype write_fault = Delivered | ReplyLost | RequestLost | DeliveredLate

record attempt_env =
  env_start :: lifecycle_flags
  env_fault :: write_fault
  env_written :: lifecycle_flags
  env_read_fails :: bool
  env_read_back :: lifecycle_flags
  env_install :: lifecycle_flags

record commit_env =
  ce_enter :: lifecycle_flags
  ce_fence_free :: bool
  ce_fenced :: lifecycle_flags
  ce_reload_fails :: bool
  ce_reload :: lifecycle_flags
  ce_attempts :: "nat \<Rightarrow> attempt_env"

text \<open>The operations of the store and the codec of the state.\<close>

record 's state_store =
  st_load :: "'s \<Rightarrow> runtime_state_object option"
  st_store :: "bytes \<Rightarrow> int option \<Rightarrow> 's \<Rightarrow> state_write_result \<times> 's"

record state_codec =
  encode_state :: "nat \<Rightarrow> runtime_state \<Rightarrow> bytes"
  decode_state :: "bytes \<Rightarrow> runtime_state option"

section \<open>Guards\<close>

definition ensure_active :: "lifecycle_flags \<Rightarrow> manager \<Rightarrow> (string, unit) outcome" where
  "ensure_active f m =
     bind_outcome (ensure (lf_active f \<and> \<not> lf_draining f) ''runtime is draining'') (\<lambda>_.
     ensure (m_coherence m = Coherent) ''runtime state generation is not coherent with the authoritative store'')"

definition ensure_checkpoint_write_allowed :: "lifecycle_flags \<Rightarrow> manager \<Rightarrow> (string, unit) outcome" where
  "ensure_checkpoint_write_allowed f m =
     bind_outcome (ensure (lf_active f) ''runtime checkpoint deadline elapsed'') (\<lambda>_.
     bind_outcome (ensure (m_coherence m \<noteq> Violated) ''runtime state generation invariant was violated'') (\<lambda>_.
     ensure (lf_permit_valid f) ''submission checkpoint permit belongs to another runtime''))"

text \<open>\<open>permit\<close>: the caller holds a checkpoint permit.\<close>

definition ensure_authoritative_write_allowed :: "bool \<Rightarrow> lifecycle_flags \<Rightarrow> manager \<Rightarrow> (string, unit) outcome" where
  "ensure_authoritative_write_allowed permit f m =
     (if permit then ensure_checkpoint_write_allowed f m else ensure_active f m)"

text \<open>
  A guard that fails while a write is in flight (\<open>ensure_in_flight_write_allowed\<close>) also makes the
  manager recoverable: \<open>set_coherence Recoverable\<close>.
\<close>

definition set_coherence :: "coherence \<Rightarrow> manager \<Rightarrow> manager" where
  "set_coherence c m = m\<lparr>m_coherence := c\<rparr>"

definition runtime_generation_is_unchanged :: "runtime_state_object option \<Rightarrow> int option \<Rightarrow> bool" where
  "runtime_generation_is_unchanged observed expected_generation =
     (case observed of
        Some obj \<Rightarrow> rso_generation obj = expected_generation
      | None \<Rightarrow> expected_generation = None)"

definition len_u64 :: "bytes \<Rightarrow> u64" where
  "len_u64 bs = (if length bs < 2 ^ 64 then of_nat (length bs) else - 1)"

definition installed :: "runtime_state \<Rightarrow> int option \<Rightarrow> bytes \<Rightarrow> manager \<Rightarrow> manager" where
  "installed s generation bs m =
     m\<lparr>m_state := s, m_generation := generation, m_serialized_bytes := len_u64 bs, m_coherence := Coherent\<rparr>"

definition install_checkpointed_runtime_state ::
  "bool \<Rightarrow> lifecycle_flags \<Rightarrow> runtime_state \<Rightarrow> int option \<Rightarrow> bytes \<Rightarrow> 'o \<Rightarrow> manager \<Rightarrow>
   (string, 'o) outcome \<times> manager" where
  "install_checkpointed_runtime_state permit f s generation bs out m =
     (case ensure_authoritative_write_allowed permit f m of
        Err e \<Rightarrow> (Err e, set_coherence Recoverable m)
      | Panic p \<Rightarrow> (Panic p, m)
      | Ok _ \<Rightarrow> (Ok out, installed s generation bs m))"

section \<open>Loading the stored state\<close>

definition install_runtime_state_object ::
  "state_codec \<Rightarrow> lifecycle_flags \<Rightarrow> runtime_state_object option \<Rightarrow> manager \<Rightarrow> (string, unit) outcome \<times> manager" where
  "install_runtime_state_object codec f stored m =
     (let inactive = ''runtime became inactive before authoritative state was installed locally'' in
      case stored of
        Some obj \<Rightarrow>
          (case bind_outcome (ok_or (decode_state codec (rso_bytes obj)) ''decode authoritative runtime store state'') (\<lambda>s.
                bind_outcome (validate_runtime_state (m_environment m) s) (\<lambda>_.
                bind_outcome (ensure (lf_active f) inactive) (\<lambda>_. Ok s))) of
             Ok s \<Rightarrow> (Ok (), installed s (rso_generation obj) (rso_bytes obj) m)
           | Err e \<Rightarrow> (Err e, m)
           | Panic p \<Rightarrow> (Panic p, m))
      | None \<Rightarrow>
          if lf_active f then (Ok (), installed default_state None (encode_state codec 0 default_state) m)
          else (Err inactive, m))"

definition reload_authoritative_state ::
  "'s state_store \<Rightarrow> state_codec \<Rightarrow> bool \<Rightarrow> lifecycle_flags \<Rightarrow> 's \<Rightarrow> manager \<Rightarrow> (string, unit) outcome \<times> manager" where
  "reload_authoritative_state ops codec read_fails f st m =
     (if read_fails then (Err ''runtime state read failed'', m)
      else install_runtime_state_object codec f (st_load ops st) m)"

definition reload_checkpoint_state_if_needed ::
  "'s state_store \<Rightarrow> state_codec \<Rightarrow> bool \<Rightarrow> bool \<Rightarrow> lifecycle_flags \<Rightarrow> 's \<Rightarrow> manager \<Rightarrow>
   (string, unit) outcome \<times> manager" where
  "reload_checkpoint_state_if_needed ops codec permit read_fails f st m =
     (if permit \<and> m_coherence m = Recoverable then reload_authoritative_state ops codec read_fails f st m
      else (Ok (), m))"

section \<open>The write and its outcome\<close>

text \<open>
  What the manager sees of a write (\<open>None\<close> is a transport error), the store at the time of the
  read-back, and the store afterwards.
\<close>

fun transport_write ::
  "'s state_store \<Rightarrow> write_fault \<Rightarrow> bytes \<Rightarrow> int option \<Rightarrow> 's \<Rightarrow> state_write_result option \<times> 's \<times> 's" where
  "transport_write ops Delivered bs expected st = (let (r, st') = st_store ops bs expected st in (Some r, st', st'))"
| "transport_write ops ReplyLost bs expected st = (let (r, st') = st_store ops bs expected st in (None, st', st'))"
| "transport_write ops RequestLost bs expected st = (None, st, st)"
| "transport_write ops DeliveredLate bs expected st = (let (r, st') = st_store ops bs expected st in (None, st, st'))"

text \<open>One attempt either ends the commit or asks for another one.\<close>

datatype 'o attempt_result = Done "(string, 'o) outcome" | Retry

definition resolve_write ::
  "'s state_store \<Rightarrow> bool \<Rightarrow> attempt_env \<Rightarrow> runtime_state \<Rightarrow> bytes \<Rightarrow> int option \<Rightarrow> 'o \<Rightarrow>
   state_write_result option \<Rightarrow> 's \<Rightarrow> manager \<Rightarrow> 'o attempt_result \<times> manager" where
  "resolve_write ops permit env next next_bytes expected_generation out reply st m =
     (let install = (\<lambda>generation.
            apfst Done (install_checkpointed_runtime_state permit (env_install env) next generation next_bytes out m))
      in case reply of
           Some (Stored generation) \<Rightarrow> install generation
         | Some (WriteConflict observed) \<Rightarrow>
             (case observed of
                Some obj \<Rightarrow>
                  if rso_bytes obj = next_bytes then install (rso_generation obj)
                  else (Done (Err ''runtime state generation changed during mutation; refusing foreign state''),
                        set_coherence Violated m)
              | None \<Rightarrow> (Done (Err ''runtime state generation changed during mutation; refusing foreign state''),
                         set_coherence Violated m))
         | None \<Rightarrow>
             if env_read_fails env
             then (Done (Err ''runtime state write outcome is unknown and read-back failed''), set_coherence Recoverable m)
             else
               (case ensure_authoritative_write_allowed permit (env_read_back env) m of
                  Err e \<Rightarrow> (Done (Err e), set_coherence Recoverable m)
                | Panic p \<Rightarrow> (Done (Panic p), m)
                | Ok _ \<Rightarrow>
                    let observed = st_load ops st in
                    (case observed of
                       Some obj \<Rightarrow>
                         if rso_bytes obj = next_bytes then install (rso_generation obj)
                         else if runtime_generation_is_unchanged observed expected_generation then (Retry, m)
                         else (Done (Err ''runtime state write outcome conflicted with authoritative read-back''),
                               set_coherence Violated m)
                     | None \<Rightarrow>
                         if runtime_generation_is_unchanged observed expected_generation then (Retry, m)
                         else (Done (Err ''runtime state write outcome conflicted with authoritative read-back''),
                               set_coherence Violated m))))"

definition commit_attempt ::
  "'s state_store \<Rightarrow> state_codec \<Rightarrow> bool \<Rightarrow> (nat \<Rightarrow> 'o mutation) \<Rightarrow> nat \<Rightarrow> attempt_env \<Rightarrow> 's \<Rightarrow> manager \<Rightarrow>
   'o attempt_result \<times> manager \<times> 's" where
  "commit_attempt ops codec permit update i env st m =
     (case bind_outcome (ensure_authoritative_write_allowed permit (env_start env) m) (\<lambda>_.
           bind_outcome (update i (m_state m)) (\<lambda>(out, next).
           bind_outcome (validate_runtime_state (m_environment m) next) (\<lambda>_. Ok (out, next)))) of
        Err e \<Rightarrow> (Done (Err e), m, st)
      | Panic p \<Rightarrow> (Done (Panic p), m, st)
      | Ok (out, next) \<Rightarrow>
          if next = m_state m then (Done (Ok out), m, st)
          else
            let next_bytes = encode_state codec i next;
                (reply, st1, st2) = transport_write ops (env_fault env) next_bytes (m_generation m) st
            in case ensure_authoritative_write_allowed permit (env_written env) m of
                 Err e \<Rightarrow> (Done (Err e), set_coherence Recoverable m, st2)
               | Panic p \<Rightarrow> (Done (Panic p), m, st2)
               | Ok _ \<Rightarrow>
                   let (res, m') = resolve_write ops permit env next next_bytes (m_generation m) out reply st1 m
                   in (res, m', st2))"

fun commit_attempts ::
  "'s state_store \<Rightarrow> state_codec \<Rightarrow> bool \<Rightarrow> (nat \<Rightarrow> 'o mutation) \<Rightarrow> nat \<Rightarrow> attempt_env list \<Rightarrow> 's \<Rightarrow> manager \<Rightarrow>
   (string, 'o) outcome \<times> manager \<times> 's" where
  "commit_attempts ops codec permit update i [] st m =
     (Err ''runtime state write failed before commit'', set_coherence Recoverable m, st)"
| "commit_attempts ops codec permit update i (env # envs) st m =
     (case commit_attempt ops codec permit update i env st m of
        (Done res, m', st') \<Rightarrow> (res, m', st')
      | (Retry, m', st') \<Rightarrow> commit_attempts ops codec permit update (Suc i) envs st' m')"

definition MAX_ATTEMPTS :: nat where
  "MAX_ATTEMPTS = 3"

definition mutate_authoritative ::
  "'s state_store \<Rightarrow> state_codec \<Rightarrow> bool \<Rightarrow> commit_env \<Rightarrow> (nat \<Rightarrow> 'o mutation) \<Rightarrow> 's \<Rightarrow> manager \<Rightarrow>
   (string, 'o) outcome \<times> manager \<times> 's" where
  "mutate_authoritative ops codec permit env update st m =
     (case bind_outcome (ensure_authoritative_write_allowed permit (ce_enter env) m) (\<lambda>_.
           bind_outcome (ensure (permit \<or> ce_fence_free env) ''runtime is draining'') (\<lambda>_.
           ensure_authoritative_write_allowed permit (ce_fenced env) m)) of
        Err e \<Rightarrow> (Err e, m, st)
      | Panic p \<Rightarrow> (Panic p, m, st)
      | Ok _ \<Rightarrow>
          (case reload_checkpoint_state_if_needed ops codec permit (ce_reload_fails env) (ce_reload env) st m of
             (Err e, m1) \<Rightarrow> (Err e, m1, st)
           | (Panic p, m1) \<Rightarrow> (Panic p, m1, st)
           | (Ok _, m1) \<Rightarrow>
               commit_attempts ops codec permit update 1 (map (ce_attempts env) [1..<Suc MAX_ATTEMPTS]) st m1))"

text \<open>
  The in-memory store as the store of the manager. The bytes leave out the retention state of
  tasks, which is read back as retained.
\<close>

definition memory_state_store :: "'k memory_store state_store" where
  "memory_state_store = \<lparr>st_load = load_runtime_state, st_store = store_runtime_state\<rparr>"

definition durable_view :: "runtime_state \<Rightarrow> runtime_state" where
  "durable_view s = s\<lparr>rs_tasks := fmmap (\<lambda>r. r\<lparr>t_retention := Retained\<rparr>) (rs_tasks s)\<rparr>"

text \<open>
  \<open>prepare_terminal_task_retention_batch\<close> on the manager: the guards of the source, then the local edit.
\<close>

definition prepare_terminal_retention ::
  "lifecycle_flags \<Rightarrow> bool \<Rightarrow> lifecycle_flags \<Rightarrow> runtime_task list \<Rightarrow> manager \<Rightarrow>
   (string, task_retention_prepare) outcome \<times> manager" where
  "prepare_terminal_retention f fence_free f' expected_tasks m =
     (if expected_tasks = [] then (Ok \<lparr>trp_retired_tasks = [], trp_skipped_tasks = 0\<rparr>, m)
      else
        case bind_outcome (ensure (distinct (map t_task_id expected_tasks))
               ''terminal task retention batch contains duplicate task ids'') (\<lambda>_.
             bind_outcome (ensure_active f m) (\<lambda>_.
             bind_outcome (ensure fence_free ''runtime is draining'') (\<lambda>_.
             bind_outcome (ensure_active f' m) (\<lambda>_.
             prepare_terminal_task_retention_batch expected_tasks (m_state m))))) of
          Ok (prepared, s) \<Rightarrow> (Ok prepared, m\<lparr>m_state := s\<rparr>)
        | Err e \<Rightarrow> (Err e, m)
        | Panic p \<Rightarrow> (Panic p, m))"

end
