(* ===== verification/Runtime_Codec.thy ===== *)
theory Runtime_Codec
  imports Runtime_Commit "HOL-Library.Countable"
begin

text \<open>
  A codec of the runtime state. The theorems on commits assume of the codec that the durable part of
  a state can be read back from its bytes; the codec here shows that the assumption can be met for every
  state at once. There are countably many states, and the bytes of a state are as many zeros as its
  number says.
\<close>

definition codec_ok :: "state_codec \<Rightarrow> bool" where
  "codec_ok codec \<longleftrightarrow> (\<forall>i s. decode_state codec (encode_state codec i s) = Some (durable_view s))"

section \<open>The states are countable\<close>

instance pipeline_key :: countable
  by countable_datatype

instance guest_system :: countable
  by countable_datatype

instance runner_kind :: countable
  by countable_datatype

instance runner_status :: countable
  by countable_datatype

instance retention_state :: countable
  by countable_datatype

instance artifact_lifecycle :: countable
  by countable_datatype

instance pipeline_route_ext :: (countable) countable
  by (rule countable_classI [of "\<lambda>r. to_nat (route_guest r, route_runner r, pipeline_route.more r)"])
    (auto intro: pipeline_route.equality)

instance proof_artifact_key_ext :: (countable) countable
  by (rule countable_classI
      [of "\<lambda>r. to_nat (ak_network_pair r, ak_pipeline_key r, ak_route r, ak_proof_ref r, proof_artifact_key.more r)"])
    (auto intro: proof_artifact_key.equality)

instance pending_publication_ext :: (countable) countable
  by (rule countable_classI [of "\<lambda>r. to_nat (p_key r, p_content_hash r, p_owners r, pending_publication.more r)"])
    (auto intro: pending_publication.equality)

instance runtime_task_ext :: (countable) countable
  by (rule countable_classI
      [of "\<lambda>r. to_nat (t_task_id r, t_incarnation r, t_pipeline_key r, t_route r, t_task_kind r, t_network_pair r,
             t_artifact_refs r, t_status r, t_retention r, t_image_ref r, t_proof_uri r, t_error r, t_metadata r,
             t_fingerprint r, t_updated_at r, runtime_task.more r)"])
    (auto intro: runtime_task.equality)

instance artifact_record_ext :: (countable) countable
  by (rule countable_classI
      [of "\<lambda>r. to_nat (a_environment r, a_network_pair r, a_proof_ref r, a_pipeline_key r, a_route r, a_proof_uri r,
             a_content_hash r, a_generation r, a_lifecycle r, a_invalidated_at r, a_updated_at r, artifact_record.more r)"])
    (auto intro: artifact_record.equality)

instance runtime_state_ext :: (countable) countable
  by (rule countable_classI [of "\<lambda>r. to_nat (rs_tasks r, rs_artifacts r, rs_pending r, runtime_state.more r)"])
    (auto intro: runtime_state.equality)

section \<open>The codec\<close>

definition numbering_codec :: state_codec where
  "numbering_codec =
     \<lparr>encode_state = \<lambda>_ s. replicate (to_nat (durable_view s)) 0, decode_state = \<lambda>bs. Some (from_nat (length bs))\<rparr>"

lemma numbering_codec_ok: "codec_ok numbering_codec"
  by (simp add: codec_ok_def numbering_codec_def)

end
