(* ===== verification/Runtime_Valid.thy ===== *)
theory Runtime_Valid
  imports Runtime_Ops
begin

text \<open>
  Identities and validity of the runtime state: object names and state keys determine the
  artifact they stand for, the loop of \<open>validate_runtime_state\<close> decides a predicate on the maps, and
  every operation of the manager keeps that predicate.
\<close>

section \<open>Names determine what they name\<close>

lemma append_sep_eq_iff:
  "c \<notin> set xs \<Longrightarrow> c \<notin> set ys \<Longrightarrow> xs @ c # us = ys @ c # vs \<longleftrightarrow> xs = ys \<and> us = vs"
proof (induction xs arbitrary: ys)
  case Nil
  then show ?case by (cases ys) auto
next
  case (Cons x xs)
  then show ?case by (cases ys) auto
qed

lemma upper_hex_digit_eq_iff: "a < 16 \<Longrightarrow> b < 16 \<Longrightarrow> upper_hex_digit a = upper_hex_digit b \<longleftrightarrow> a = b"
  by (auto simp: upper_hex_digit_def char_of_eq_iff256)

lemma of_char_less [simp]: "of_char c < (256 :: nat)"
  using of_char_of [of "of_char c :: nat"] by (metis char_of_char mod_less_divisor of_char_of zero_less_numeral)

lemma not_plain_tilde: "\<not> is_plain_char CHR ''~''"
  by (simp add: is_plain_char_def is_ascii_alphanumeric_def)

lemma upper_hex_digit_plain: "d < 16 \<Longrightarrow> is_plain_char (upper_hex_digit d)"
  by (auto simp: is_plain_char_def is_ascii_alphanumeric_def upper_hex_digit_def Let_def)

lemma encode_component_chars: "c \<in> set (encode_component s) \<Longrightarrow> is_plain_char c \<or> c = CHR ''~''"
proof (induction s)
  case (Cons a s)
  have "of_char a div 16 < (16::nat)" using of_char_less [of a] by linarith
  with Cons show ?case by (auto simp: upper_hex_digit_plain split: if_splits)
qed simp

lemma encode_component_no_slash: "CHR ''/'' \<notin> set (encode_component s)"
proof
  assume "CHR ''/'' \<in> set (encode_component s)"
  from encode_component_chars [OF this] show False by (simp add: is_plain_char_def is_ascii_alphanumeric_def)
qed

lemma escape_eq_iff:
  "upper_hex_digit (of_char c div 16) = upper_hex_digit (of_char d div 16)
   \<and> upper_hex_digit (of_char c mod 16) = upper_hex_digit (of_char d mod 16) \<longleftrightarrow> c = d"
proof -
  have "of_char c div 16 < (16::nat)" "of_char d div 16 < (16::nat)"
    using of_char_less [of c] of_char_less [of d] by linarith+
  then have "?thesis \<longleftrightarrow> (of_char c div 16 = of_char d div (16::nat) \<and> of_char c mod 16 = of_char d mod (16::nat) \<longleftrightarrow> c = d)"
    by (simp add: upper_hex_digit_eq_iff)
  also have "\<dots>" by (metis char_of_char div_mult_mod_eq)
  finally show ?thesis by blast
qed

lemma encode_component_inj: "encode_component cs = encode_component ds \<longleftrightarrow> cs = ds"
proof (induction cs arbitrary: ds)
  case Nil
  then show ?case by (cases ds) auto
next
  case (Cons c cs)
  show ?case
  proof (cases ds)
    case (Cons d ds')
    then show ?thesis
      using Cons.IH [of ds'] not_plain_tilde escape_eq_iff [of c d] by auto
  qed simp
qed

lemma strs_no_slash [simp]:
  "CHR ''/'' \<notin> set (guest_system_str g)" "CHR ''/'' \<notin> set (runner_kind_str k)"
  by (cases g; simp) (cases k; simp)

lemma guest_system_str_inj [simp]: "guest_system_str g = guest_system_str h \<longleftrightarrow> g = h"
  by (cases g; cases h) simp_all

lemma runner_kind_str_inj [simp]: "runner_kind_str g = runner_kind_str h \<longleftrightarrow> g = h"
  by (cases g; cases h) simp_all

lemma pipeline_key_str_inj [simp]: "pipeline_key_str g = pipeline_key_str h \<longleftrightarrow> g = h"
  by (cases g; cases h) simp_all

lemma route_str_inj [simp]: "route_str r = route_str r' \<longleftrightarrow> r = r'"
  by (auto simp: route_str_def append_sep_eq_iff intro: pipeline_route.equality)

lemma content_uri_inj:
  "content_uri env ns k h = content_uri env ns k' h' \<longleftrightarrow> k = k' \<and> h = h'"
proof -
  have "h = h'" if "encode_component h @ ''.json'' = encode_component h' @ ''.json''"
    using that encode_component_inj by (metis append_same_eq)
  then show ?thesis
    by (auto simp: content_uri_def append_sep_eq_iff encode_component_no_slash encode_component_inj
        intro: proof_artifact_key.equality)
qed

subsection \<open>Keys of the state\<close>

lemma char_digit_bound: "d < 10 \<Longrightarrow> 48 + d < (256 :: nat)"
  by simp

lemma dec_digit_not_colon: "d < 10 \<Longrightarrow> dec_digit d \<noteq> CHR '':''"
proof
  assume d: "d < 10" "dec_digit d = CHR '':''"
  then have "48 + d = (of_char CHR '':'' :: nat)" by (metis of_char_of dec_digit_def mod_less char_digit_bound)
  then show False using d(1) by simp
qed

lemma dec_nat_no_colon: "CHR '':'' \<notin> set (dec_nat n)"
proof (induction n rule: dec_nat.induct)
  case (1 n)
  then show ?case
    using dec_digit_not_colon [of n] dec_digit_not_colon [of "n mod 10"]
    by (subst dec_nat.simps) (auto dest: sym)
qed

lemma dec_nat_ne: "dec_nat n \<noteq> []"
  by (subst dec_nat.simps) simp

lemma dec_digit_eq_iff10: "a < 10 \<Longrightarrow> b < 10 \<Longrightarrow> dec_digit a = dec_digit b \<longleftrightarrow> a = b"
  by (simp add: dec_digit_def char_of_eq_iff256)

lemma dec_nat_inj: "dec_nat m = dec_nat n \<Longrightarrow> m = n"
proof (induction m arbitrary: n rule: dec_nat.induct)
  case (1 m)
  show ?case
  proof (cases "m < 10"; cases "n < 10")
    assume "m < 10" "n < 10"
    then show ?thesis using 1(2) by (subst (asm) (1 2) dec_nat.simps) (simp add: dec_digit_eq_iff10)
  next
    assume "m < 10" "\<not> n < 10"
    then show ?thesis
      using 1(2) dec_nat_ne [of "n div 10"] by (subst (asm) (1 2) dec_nat.simps) (simp add: append_eq_Cons_conv)
  next
    assume "\<not> m < 10" "n < 10"
    then show ?thesis
      using 1(2) dec_nat_ne [of "m div 10"] by (subst (asm) (1 2) dec_nat.simps) (simp add: Cons_eq_append_conv)
  next
    assume mn: "\<not> m < 10" "\<not> n < 10"
    then have "dec_nat (m div 10) = dec_nat (n div 10)" "dec_digit (m mod 10) = dec_digit (n mod 10)"
      using 1(2) by (subst (asm) (1 2) dec_nat.simps, simp)+
    with 1(1) mn(1) have "m div 10 = n div 10" "m mod 10 = n mod 10" by (auto simp: dec_digit_eq_iff10)
    then show ?thesis by (metis div_mult_mod_eq)
  qed
qed

lemma len_prefixed_eq_iff:
  "dec_nat (length x) @ '':'' @ x @ us = dec_nat (length y) @ '':'' @ y @ vs \<longleftrightarrow> x = y \<and> us = vs"
  using dec_nat_inj [of "length x" "length y"]
  by (auto simp: append_sep_eq_iff dec_nat_no_colon)

lemma artifact_record_key_inj [simp]: "artifact_record_key k = artifact_record_key k' \<longleftrightarrow> k = k'"
proof -
  have last: "dec_nat (length x) @ '':'' @ x = dec_nat (length y) @ '':'' @ y \<longleftrightarrow> x = y" for x y
    using len_prefixed_eq_iff [of x "[]" y "[]"] by simp
  have "artifact_record_key k = artifact_record_key k' \<longleftrightarrow>
      ak_network_pair k = ak_network_pair k' \<and> ak_pipeline_key k = ak_pipeline_key k' \<and> ak_route k = ak_route k'
      \<and> ak_proof_ref k = ak_proof_ref k'"
    using len_prefixed_eq_iff last by (simp add: artifact_record_key_def)
  then show ?thesis by (auto intro: proof_artifact_key.equality)
qed

section \<open>What validation decides\<close>

definition task_ok :: "string \<Rightarrow> runtime_task \<Rightarrow> bool" where
  "task_ok task_id r \<longleftrightarrow>
     task_id = t_task_id r \<and> t_task_id r \<noteq> [] \<and> t_incarnation r \<noteq> 0
     \<and> canonicalize_persisted_route (t_pipeline_key r) (t_route r) \<noteq> None
     \<and> t_task_kind r \<noteq> [] \<and> t_network_pair r \<noteq> [] \<and> [] \<notin> set (t_artifact_refs r) \<and> distinct (t_artifact_refs r)
     \<and> (t_retention r = Retained \<or> status_terminal (t_status r)) \<and> t_fingerprint r \<noteq> []"

definition artifact_ok :: "string \<Rightarrow> string \<Rightarrow> artifact_record \<Rightarrow> bool" where
  "artifact_ok environment key r \<longleftrightarrow>
     key = record_key r \<and> a_environment r = environment
     \<and> canonicalize_persisted_route (a_pipeline_key r) (a_route r) \<noteq> None
     \<and> a_network_pair r \<noteq> [] \<and> a_proof_ref r \<noteq> [] \<and> a_proof_uri r \<noteq> [] \<and> a_content_hash r \<noteq> []
     \<and> (a_lifecycle r = LInvalidated) = (a_invalidated_at r \<noteq> None)"

definition owner_known :: "(string, runtime_task) fmap \<Rightarrow> proof_artifact_key \<Rightarrow> uuid \<Rightarrow> bool" where
  "owner_known tasks k owner \<longleftrightarrow>
     (\<exists>id r. fmlookup tasks id = Some r \<and> t_incarnation r = owner \<and> task_matches_artifact_identity r k)"

definition pending_ok :: "(string, runtime_task) fmap \<Rightarrow> string \<Rightarrow> pending_publication \<Rightarrow> bool" where
  "pending_ok tasks key p \<longleftrightarrow>
     key = artifact_record_key (p_key p)
     \<and> canonicalize_persisted_route (ak_pipeline_key (p_key p)) (ak_route (p_key p)) \<noteq> None
     \<and> ak_network_pair (p_key p) \<noteq> [] \<and> ak_proof_ref (p_key p) \<noteq> [] \<and> p_content_hash p \<noteq> []
     \<and> distinct (p_owners p) \<and> (\<forall>owner \<in> set (p_owners p). owner_known tasks (p_key p) owner)"

definition unique_by :: "('v \<Rightarrow> 'b) \<Rightarrow> ('k, 'v) fmap \<Rightarrow> bool" where
  "unique_by f m \<longleftrightarrow>
     (\<forall>k k' v v'. fmlookup m k = Some v \<longrightarrow> fmlookup m k' = Some v' \<longrightarrow> f v = f v' \<longrightarrow> k = k')"

definition runtime_state_ok :: "string \<Rightarrow> runtime_state \<Rightarrow> bool" where
  "runtime_state_ok environment s \<longleftrightarrow>
     (\<forall>id r. fmlookup (rs_tasks s) id = Some r \<longrightarrow> task_ok id r)
     \<and> unique_by t_incarnation (rs_tasks s) \<and> unique_by t_fingerprint (rs_tasks s)
     \<and> (\<forall>key r. fmlookup (rs_artifacts s) key = Some r \<longrightarrow> artifact_ok environment key r)
     \<and> (\<forall>key p. fmlookup (rs_pending s) key = Some p \<longrightarrow> pending_ok (rs_tasks s) key p)"

lemma owner_known_iff:
  "list_ex (\<lambda>task. t_incarnation task = owner \<and> task_matches_artifact_identity task k) (fm_values tasks)
   \<longleftrightarrow> owner_known tasks k owner"
  unfolding owner_known_def list_ex_iff set_fm_values by blast

lemma unique_by_items: "unique_by f m \<longleftrightarrow> distinct (map (\<lambda>x. f (snd x)) (fm_items m))"
proof -
  have "distinct (fm_items m)" using distinct_fm_items [of m] by (simp add: distinct_map)
  then have "distinct (map (\<lambda>x. f (snd x)) (fm_items m)) \<longleftrightarrow> inj_on (\<lambda>x. f (snd x)) (set (fm_items m))"
    by (simp add: distinct_map)
  also have "\<dots> \<longleftrightarrow> unique_by f m"
    unfolding inj_on_def unique_by_def set_fm_items by fastforce
  finally show ?thesis ..
qed

lemma validate_tasks_loop:
  "(\<exists>acc. try_fold validate_runtime_task_record (incs, fps) items = Ok acc) \<longleftrightarrow>
     (\<forall>x \<in> set items. task_ok (fst x) (snd x))
     \<and> distinct (map (\<lambda>x. t_incarnation (snd x)) items) \<and> distinct (map (\<lambda>x. t_fingerprint (snd x)) items)
     \<and> (\<forall>x \<in> set items. t_incarnation (snd x) \<notin> set incs \<and> t_fingerprint (snd x) \<notin> set fps)"
proof (induction items arbitrary: incs fps)
  case (Cons x items)
  have step: "(\<exists>acc. try_fold validate_runtime_task_record (incs, fps) (x # items) = Ok acc) \<longleftrightarrow>
      task_ok (fst x) (snd x) \<and> t_incarnation (snd x) \<notin> set incs \<and> t_fingerprint (snd x) \<notin> set fps
      \<and> (\<exists>acc. try_fold validate_runtime_task_record (t_incarnation (snd x) # incs, t_fingerprint (snd x) # fps) items = Ok acc)"
    by (cases x) (auto simp: validate_runtime_task_record_def task_ok_def ok_iff)
  show ?case unfolding step Cons.IH
    by (simp add: image_iff eq_commute [of "t_incarnation (snd x)"] eq_commute [of "t_fingerprint (snd x)"]) blast
qed simp

lemma validate_runtime_state_iff [ok_iff]:
  "validate_runtime_state environment s = Ok () \<longleftrightarrow> runtime_state_ok environment s"
proof -
  have tasks: "(\<exists>acc. try_fold validate_runtime_task_record ([], []) (fm_items (rs_tasks s)) = Ok acc) \<longleftrightarrow>
      (\<forall>id r. fmlookup (rs_tasks s) id = Some r \<longrightarrow> task_ok id r)
      \<and> unique_by t_incarnation (rs_tasks s) \<and> unique_by t_fingerprint (rs_tasks s)"
    unfolding validate_tasks_loop unique_by_items by (auto simp: set_fm_items)
  have artifacts: "validate_proof_artifact_record environment (key, r) = Ok () \<longleftrightarrow> artifact_ok environment key r" for key r
    by (auto simp: validate_proof_artifact_record_def artifact_ok_def ok_iff)
  have pending: "validate_pending_publication_record s (key, p) = Ok () \<longleftrightarrow> pending_ok (rs_tasks s) key p" for key p
    by (auto simp: validate_pending_publication_record_def pending_ok_def ok_iff list_all_iff owner_known_iff)
  show ?thesis
    unfolding validate_runtime_state_def bind_outcome_Ok_iff try_fold_unit_Ok_iff
    using tasks by (auto simp: runtime_state_ok_def set_fm_items artifacts pending try_fold_unit_Ok_iff)
qed

end
