(* ===== verification/Runtime_Inv.thy ===== *)
theory Runtime_Inv
  imports Runtime_Valid
begin

text \<open>
  Every operation of the runtime manager keeps the state valid, whatever else happened before, so the
  validation in front of a commit never refuses one of them. The operations are collected in the
  datatype \<open>runtime_op\<close>.
\<close>

section \<open>Edits that keep a state valid\<close>

definition same_identity :: "runtime_task \<Rightarrow> runtime_task \<Rightarrow> bool" where
  "same_identity r r' \<longleftrightarrow>
     t_task_id r' = t_task_id r \<and> t_incarnation r' = t_incarnation r \<and> t_pipeline_key r' = t_pipeline_key r
     \<and> t_route r' = t_route r \<and> t_task_kind r' = t_task_kind r \<and> t_network_pair r' = t_network_pair r
     \<and> t_artifact_refs r' = t_artifact_refs r \<and> t_fingerprint r' = t_fingerprint r"

definition good_update :: "runtime_task \<Rightarrow> runtime_task \<Rightarrow> bool" where
  "good_update r r' \<longleftrightarrow> same_identity r r' \<and> (t_retention r' = Retained \<or> status_terminal (t_status r'))"

definition tasks_agree :: "(string, runtime_task) fmap \<Rightarrow> (string, runtime_task) fmap \<Rightarrow> bool" where
  "tasks_agree m m' \<longleftrightarrow> (\<forall>tid. rel_option good_update (fmlookup m tid) (fmlookup m' tid))"

lemma same_identity_matches:
  "same_identity r r' \<Longrightarrow> task_matches_artifact_identity r' k \<longleftrightarrow> task_matches_artifact_identity r k"
  by (simp add: same_identity_def task_matches_artifact_identity_def task_references_def)

lemma good_update_task_ok: "task_ok tid r \<Longrightarrow> good_update r r' \<Longrightarrow> task_ok tid r'"
  by (auto simp: task_ok_def good_update_def same_identity_def)

lemma task_ok_refl: "task_ok tid r \<Longrightarrow> good_update r r"
  by (auto simp: task_ok_def good_update_def same_identity_def)

lemma good_update_trans: "good_update a b \<Longrightarrow> good_update b c \<Longrightarrow> good_update a c"
  by (auto simp: good_update_def same_identity_def)

lemma tasks_agree_refl: "runtime_state_ok env s \<Longrightarrow> tasks_agree (rs_tasks s) (rs_tasks s)"
  unfolding tasks_agree_def
proof
  fix tid assume "runtime_state_ok env s"
  then show "rel_option good_update (fmlookup (rs_tasks s) tid) (fmlookup (rs_tasks s) tid)"
    by (cases "fmlookup (rs_tasks s) tid") (auto simp: runtime_state_ok_def intro: task_ok_refl)
qed

lemma tasks_agree_back:
  "tasks_agree m m' \<Longrightarrow> fmlookup m' tid = Some r' \<Longrightarrow> \<exists>r. fmlookup m tid = Some r \<and> good_update r r'"
  unfolding tasks_agree_def by (metis option_rel_Some2)

lemma tasks_agree_forth:
  "tasks_agree m m' \<Longrightarrow> fmlookup m tid = Some r \<Longrightarrow> \<exists>r'. fmlookup m' tid = Some r' \<and> good_update r r'"
  unfolding tasks_agree_def by (metis option_rel_Some1)

lemma tasks_agree_unique:
  assumes "tasks_agree m m'" and "\<And>r r'. same_identity r r' \<Longrightarrow> f r' = f r" and "unique_by f m"
  shows "unique_by f m'"
  unfolding unique_by_def
proof (intro allI impI)
  fix k k' v v' assume "fmlookup m' k = Some v" "fmlookup m' k' = Some v'" and eq: "f v = f v'"
  with assms(1) obtain u u' where "fmlookup m k = Some u" "good_update u v" "fmlookup m k' = Some u'" "good_update u' v'"
    using tasks_agree_back by metis
  moreover from this eq have "f u = f u'" using assms(2) by (metis good_update_def)
  ultimately show "k = k'" using assms(3) by (auto simp: unique_by_def)
qed

lemma tasks_agree_owner_known:
  assumes "tasks_agree m m'" "owner_known m k owner"
  shows "owner_known m' k owner"
proof -
  from assms(2) obtain tid r where "fmlookup m tid = Some r" "t_incarnation r = owner" "task_matches_artifact_identity r k"
    by (auto simp: owner_known_def)
  with tasks_agree_forth [OF assms(1)] obtain r' where "fmlookup m' tid = Some r'" "good_update r r'" by blast
  moreover from this have "t_incarnation r' = owner" "task_matches_artifact_identity r' k"
    using \<open>t_incarnation r = owner\<close> \<open>task_matches_artifact_identity r k\<close>
    by (auto simp: good_update_def same_identity_def task_matches_artifact_identity_def task_references_def)
  ultimately show ?thesis unfolding owner_known_def by blast
qed

lemma ok_tasks_agree:
  assumes ok: "runtime_state_ok env s" and agree: "tasks_agree (rs_tasks s) m"
  shows "runtime_state_ok env (s\<lparr>rs_tasks := m\<rparr>)"
proof -
  have "task_ok tid r" if "fmlookup m tid = Some r" for tid r
    using tasks_agree_back [OF agree that] ok by (auto simp: runtime_state_ok_def intro: good_update_task_ok)
  moreover have "unique_by t_incarnation m" "unique_by t_fingerprint m"
    using ok by (auto intro!: tasks_agree_unique [OF agree] simp: runtime_state_ok_def same_identity_def)
  moreover have "pending_ok m key p" if "fmlookup (rs_pending s) key = Some p" for key p
    using ok that tasks_agree_owner_known [OF agree] by (auto simp: runtime_state_ok_def pending_ok_def)
  ultimately show ?thesis using ok by (simp add: runtime_state_ok_def)
qed

lemma tasks_agree_upd:
  assumes "tasks_agree m m'" "fmlookup m tid = Some r" "good_update r r'"
  shows "tasks_agree m (fmupd tid r' m')"
  using assms by (simp add: tasks_agree_def)

lemma ok_set_task:
  assumes "runtime_state_ok env s" "fmlookup (rs_tasks s) tid = Some r" "good_update r r'"
  shows "runtime_state_ok env (set_task tid r' s)"
  using assms by (simp add: set_task_def ok_tasks_agree tasks_agree_upd tasks_agree_refl)

lemma put_tasks_eq: "put_tasks rs s = s\<lparr>rs_tasks := fold (\<lambda>r. fmupd (t_task_id r) r) rs (rs_tasks s)\<rparr>"
  by (induction rs arbitrary: s) (simp_all add: put_tasks_def put_task_def)

lemma ok_put_tasks:
  assumes ok: "runtime_state_ok env s" and rs: "list_all2 good_update rs rs'"
    and sub: "set rs \<subseteq> set (fm_values (rs_tasks s))"
  shows "runtime_state_ok env (put_tasks rs' s)"
proof -
  have "tasks_agree (rs_tasks s) (fold (\<lambda>r. fmupd (t_task_id r) r) rs' m)" if "tasks_agree (rs_tasks s) m" for m
    using rs sub that
  proof (induction rs rs' arbitrary: m rule: list_all2_induct)
    case (Cons r rs r' rs')
    then obtain tid where tid: "fmlookup (rs_tasks s) tid = Some r" by (auto simp: set_fm_values)
    with ok have "tid = t_task_id r" by (auto simp: runtime_state_ok_def task_ok_def)
    with Cons.hyps have "t_task_id r' = tid" by (simp add: good_update_def same_identity_def)
    then have "tasks_agree (rs_tasks s) (fmupd (t_task_id r') r' m)"
      using Cons.prems(2) tid Cons.hyps by (simp add: tasks_agree_upd)
    with Cons.IH Cons.prems(1) show ?case by simp
  qed simp
  then show ?thesis using ok tasks_agree_refl [OF ok] by (simp add: put_tasks_eq ok_tasks_agree)
qed

lemma ok_artifacts:
  assumes "runtime_state_ok env s" "\<And>key r. fmlookup m key = Some r \<Longrightarrow> artifact_ok env key r"
  shows "runtime_state_ok env (s\<lparr>rs_artifacts := m\<rparr>)"
  using assms by (simp add: runtime_state_ok_def)

lemma ok_put_artifact:
  assumes "runtime_state_ok env s" "artifact_ok env key r"
  shows "runtime_state_ok env (put_artifact key r s)"
  using assms unfolding put_artifact_def
  by (intro ok_artifacts) (auto simp: runtime_state_ok_def split: if_splits)

lemma ok_drop_artifact:
  "runtime_state_ok env s \<Longrightarrow> runtime_state_ok env (s\<lparr>rs_artifacts := fmdrop key (rs_artifacts s)\<rparr>)"
  by (intro ok_artifacts) (auto simp: runtime_state_ok_def split: if_splits)

lemma ok_pending:
  assumes "runtime_state_ok env s" "\<And>key p. fmlookup m key = Some p \<Longrightarrow> pending_ok (rs_tasks s) key p"
  shows "runtime_state_ok env (s\<lparr>rs_pending := m\<rparr>)"
  using assms by (simp add: runtime_state_ok_def)

lemma ok_upd_pending:
  assumes "runtime_state_ok env s" "pending_ok (rs_tasks s) key p"
  shows "runtime_state_ok env (s\<lparr>rs_pending := fmupd key p (rs_pending s)\<rparr>)"
  using assms by (intro ok_pending) (auto simp: runtime_state_ok_def split: if_splits)

lemma ok_drop_pending:
  "runtime_state_ok env s \<Longrightarrow> runtime_state_ok env (s\<lparr>rs_pending := fmdrop key (rs_pending s)\<rparr>)"
  by (intro ok_pending) (auto simp: runtime_state_ok_def split: if_splits)

lemma pending_ok_retain: "pending_ok m key p \<Longrightarrow> pending_ok m key (retain_owners keep p)"
  by (auto simp: pending_ok_def retain_owners_def)

text \<open>Removing tasks together with their ownership of pending publications.\<close>

lemma ok_remove_tasks:
  assumes ok: "runtime_state_ok env s"
    and sub: "\<And>tid r. fmlookup m tid = Some r \<Longrightarrow> fmlookup (rs_tasks s) tid = Some r"
    and gone: "\<And>tid r. fmlookup (rs_tasks s) tid = Some r \<Longrightarrow> fmlookup m tid = None \<Longrightarrow> \<not> keep (t_incarnation r)"
  shows "runtime_state_ok env (retain_all_owners keep (s\<lparr>rs_tasks := m\<rparr>))"
proof -
  have known: "owner_known m k owner" if "owner_known (rs_tasks s) k owner" "keep owner" for k owner
    using that sub gone unfolding owner_known_def by (metis option.exhaust option.inject)
  have "pending_ok m key p'" if p': "fmlookup (fmmap (retain_owners keep) (rs_pending s)) key = Some p'" for key p'
  proof -
    from p' obtain p where p: "fmlookup (rs_pending s) key = Some p" "p' = retain_owners keep p" by auto
    then have "pending_ok (rs_tasks s) key p" using ok by (simp add: runtime_state_ok_def)
    then show ?thesis using known by (auto simp: p(2) pending_ok_def retain_owners_def)
  qed
  moreover have "unique_by f m" if "unique_by f (rs_tasks s)" for f :: "_ \<Rightarrow> 'b"
    using that sub unfolding unique_by_def by blast
  ultimately show ?thesis
    using ok sub by (simp add: runtime_state_ok_def retain_all_owners_def) (auto simp: unique_by_def; blast)
qed

section \<open>The operations as data\<close>

text \<open>
  The functions of callers, which get the matching records, are arguments of their operations; a
  caller's additional result is left out.
\<close>

datatype runtime_op =
    OpReplace uuid "nat \<Rightarrow> int" runtime_task task_registration "artifact_precondition list"
  | OpRegister uuid "nat \<Rightarrow> int" task_registration "artifact_precondition list"
  | OpComplete "nat \<Rightarrow> int" string uuid string "artifact_precondition list"
  | OpRecover "nat \<Rightarrow> int" runtime_task
  | OpRestore runtime_task runtime_task
  | OpFail "nat \<Rightarrow> int" runtime_task string
  | OpCancelCurrent "nat \<Rightarrow> int" task_lifetime "string option"
  | OpCancel "nat \<Rightarrow> int" runtime_task "string option"
  | OpRetire runtime_task "string option"
  | OpRemoveTask task_lifetime
  | OpUpdateTasks string "runtime_task list \<Rightarrow> (string, runtime_task list) outcome"
  | OpRegisterPending "nat \<Rightarrow> int" artifact_registration
  | OpRegisterInvalidated "nat \<Rightarrow> int" artifact_registration
  | OpActivate "nat \<Rightarrow> int" string artifact_registration "uuid list"
      "runtime_task list \<Rightarrow> (string, runtime_task list option) outcome"
  | OpUpdateInvalidate "nat \<Rightarrow> int" proof_artifact_key
      "runtime_task list \<Rightarrow> (string, bool \<times> runtime_task list) outcome"
  | OpRemoveArtifact proof_artifact_key proof_artifact_descriptor
  | OpPendingIntent pending_publication
  | OpReleaseOwner proof_artifact_key uuid
  | OpRemovePending proof_artifact_key
  | OpInvalidatePending "nat \<Rightarrow> int" proof_artifact_key "proof_artifact_descriptor option"
  | OpPreparePending "nat \<Rightarrow> int" pending_publication "proof_artifact_descriptor option"
  | OpPrepareArtifacts "nat \<Rightarrow> int" "artifact_record list"
  | OpPrepareTasks "runtime_task list"
  | OpFinalize "runtime_task list" "artifact_expectation list" "pending_publication list"

definition next_state :: "(string, 'o \<times> runtime_state) outcome \<Rightarrow> (string, runtime_state) outcome" where
  "next_state r = bind_outcome r (\<lambda>(out, s). Ok s)"

lemma next_state_Ok_iff: "next_state r = Ok s' \<longleftrightarrow> (\<exists>out. r = Ok (out, s'))"
  by (cases r) (auto simp: next_state_def)

fun run_op :: "string \<Rightarrow> runtime_op \<Rightarrow> runtime_state \<Rightarrow> (string, runtime_state) outcome" where
  "run_op env (OpReplace fresh clock expected g pres) s = next_state (replace_task_if_unchanged fresh clock expected g pres s)"
| "run_op env (OpRegister fresh clock g pres) s = next_state (register_task_if_absent fresh clock g pres s)"
| "run_op env (OpComplete clock tid inc uri pres) s = next_state (complete_nonterminal_task clock tid inc uri pres s)"
| "run_op env (OpRecover clock expected) s = next_state (prepare_task_for_recovery_if_unchanged clock expected s)"
| "run_op env (OpRestore prepared original) s = next_state (restore_task_after_recovery_if_unchanged prepared original s)"
| "run_op env (OpFail clock expected err) s = next_state (fail_task_if_unchanged clock expected err s)"
| "run_op env (OpCancelCurrent clock lifetime err) s = next_state (cancel_task_if_current clock lifetime err s)"
| "run_op env (OpCancel clock expected err) s = next_state (cancel_task_if_unchanged clock expected err s)"
| "run_op env (OpRetire expected err) s = next_state (retire_task_if_unchanged expected err s)"
| "run_op env (OpRemoveTask lifetime) s = next_state (remove_task_if_current lifetime s)"
| "run_op env (OpUpdateTasks task_ref f) s =
     next_state (update_tasks_by_ref task_ref (\<lambda>rs. bind_outcome (f rs) (\<lambda>rs'. Ok ((), rs'))) s)"
| "run_op env (OpRegisterPending clock g) s = next_state (register_pending_proof_artifact env clock g s)"
| "run_op env (OpRegisterInvalidated clock g) s = next_state (register_invalidated_proof_artifact env clock g s)"
| "run_op env (OpActivate clock task_ref g owners f) s =
     next_state (activate_proof_artifact_with_tasks clock task_ref g owners
       (\<lambda>rs. bind_outcome (f rs) (\<lambda>rs'. Ok (map_option (\<lambda>x. ((), x)) rs'))) s)"
| "run_op env (OpUpdateInvalidate clock k f) s =
     next_state (update_tasks_and_invalidate_artifact clock k (\<lambda>rs. bind_outcome (f rs) (\<lambda>x. Ok ((), x))) s)"
| "run_op env (OpRemoveArtifact k d) s = next_state (remove_proof_artifact_if_descriptor k d s)"
| "run_op env (OpPendingIntent p) s = next_state (record_pending_proof_publication_intent p s)"
| "run_op env (OpReleaseOwner k owner) s = next_state (release_pending_owner k owner s)"
| "run_op env (OpRemovePending k) s = next_state (remove_pending_if_unowned k s)"
| "run_op env (OpInvalidatePending clock k d) s = next_state (invalidate_pending_mutation env clock k d s)"
| "run_op env (OpPreparePending clock p d) s = next_state (prepare_pending_canonical_for_retention env clock p d s)"
| "run_op env (OpPrepareArtifacts clock rs) s = next_state (prepare_artifact_retention_batch clock rs s)"
| "run_op env (OpPrepareTasks rs) s = next_state (prepare_terminal_task_retention_batch rs s)"
| "run_op env (OpFinalize rs as ps) s = next_state (finalize_terminal_task_retention_batch rs as ps s)"

text \<open>
  What the callers guarantee. A fresh lifetime identifier is not in use; the functions that edit
  records leave the identity of a task alone and do not put a live task into removal; keys and
  descriptors, which come from registered tasks and from the object store, are not empty.
\<close>

definition fresh_incarnation :: "runtime_state \<Rightarrow> uuid \<Rightarrow> bool" where
  "fresh_incarnation s u \<longleftrightarrow> u \<noteq> 0 \<and> (\<forall>tid r. fmlookup (rs_tasks s) tid = Some r \<longrightarrow> t_incarnation r \<noteq> u)"

definition key_filled :: "proof_artifact_key \<Rightarrow> bool" where
  "key_filled k \<longleftrightarrow> ak_network_pair k \<noteq> [] \<and> ak_proof_ref k \<noteq> []"

definition descriptor_filled :: "proof_artifact_descriptor \<Rightarrow> bool" where
  "descriptor_filled d \<longleftrightarrow> d_proof_uri d \<noteq> [] \<and> d_content_hash d \<noteq> []"

definition key_routed :: "proof_artifact_key \<Rightarrow> bool" where
  "key_routed k \<longleftrightarrow> canonicalize_persisted_route (ak_pipeline_key k) (ak_route k) \<noteq> None"

fun op_args_ok :: "runtime_state \<Rightarrow> runtime_op \<Rightarrow> bool" where
  "op_args_ok s (OpReplace fresh _ _ _ _) = fresh_incarnation s fresh"
| "op_args_ok s (OpRegister fresh _ _ _) = fresh_incarnation s fresh"
| "op_args_ok s (OpRestore _ original) = (t_retention original = Retained \<or> status_terminal (t_status original))"
| "op_args_ok s (OpUpdateTasks _ f) = (\<forall>rs rs'. f rs = Ok rs' \<longrightarrow> list_all2 good_update rs rs')"
| "op_args_ok s (OpActivate _ _ _ _ f) = (\<forall>rs rs'. f rs = Ok (Some rs') \<longrightarrow> list_all2 good_update rs rs')"
| "op_args_ok s (OpUpdateInvalidate _ _ f) = (\<forall>rs b rs'. f rs = Ok (b, rs') \<longrightarrow> list_all2 good_update rs rs')"
| "op_args_ok s (OpRegisterPending _ g) = (key_filled (ar_key g) \<and> descriptor_filled (ar_descriptor g))"
| "op_args_ok s (OpRegisterInvalidated _ g) = (key_filled (ar_key g) \<and> descriptor_filled (ar_descriptor g))"
| "op_args_ok s (OpPendingIntent p) = (key_filled (p_key p) \<and> key_routed (p_key p) \<and> p_content_hash p \<noteq> [])"
| "op_args_ok s (OpInvalidatePending _ k d) =
     (key_filled k \<and> key_routed k \<and> (case d of None \<Rightarrow> True | Some d \<Rightarrow> descriptor_filled d))"
| "op_args_ok s (OpPreparePending _ p d) = (case d of None \<Rightarrow> True | Some d \<Rightarrow> descriptor_filled d)"
| "op_args_ok s _ = True"

section \<open>Every operation keeps a state valid\<close>

lemma unchanged_Ok_iff [simp]: "unchanged out s = Ok (out', s') \<longleftrightarrow> out' = out \<and> s' = s"
  by (auto simp: unchanged_def)

lemma ok_task_lookup:
  "runtime_state_ok env s \<Longrightarrow> fmlookup (rs_tasks s) tid = Some r \<Longrightarrow> task_ok tid r"
  by (simp add: runtime_state_ok_def)

lemma ok_artifact_lookup:
  "runtime_state_ok env s \<Longrightarrow> fmlookup (rs_artifacts s) key = Some r \<Longrightarrow> artifact_ok env key r"
  by (simp add: runtime_state_ok_def)

lemma ok_pending_lookup:
  "runtime_state_ok env s \<Longrightarrow> fmlookup (rs_pending s) key = Some p \<Longrightarrow> pending_ok (rs_tasks s) key p"
  by (simp add: runtime_state_ok_def)

lemma good_updateI:
  assumes "same_identity r r'" "t_retention r' = Retained \<or> status_terminal (t_status r')"
  shows "good_update r r'"
  using assms by (simp add: good_update_def)

lemmas status_edit_defs =
  complete_nonterminal_task_def prepare_task_for_recovery_if_unchanged_def fail_task_if_unchanged_def
  cancel_task_if_current_def cancel_task_if_unchanged_def retire_task_if_unchanged_def

lemma status_edits_keep_ok:
  assumes ok: "runtime_state_ok env s"
  shows "complete_nonterminal_task clock tid inc uri pres s = Ok (b, s') \<Longrightarrow> runtime_state_ok env s'"
    and "prepare_task_for_recovery_if_unchanged clock expected s = Ok (r, s') \<Longrightarrow> runtime_state_ok env s'"
    and "fail_task_if_unchanged clock expected err s = Ok (out, s') \<Longrightarrow> runtime_state_ok env s'"
    and "cancel_task_if_current clock lifetime err' s = Ok (out, s') \<Longrightarrow> runtime_state_ok env s'"
    and "cancel_task_if_unchanged clock expected err' s = Ok (out, s') \<Longrightarrow> runtime_state_ok env s'"
    and "retire_task_if_unchanged expected err' s = Ok (out, s') \<Longrightarrow> runtime_state_ok env s'"
  using ok
  by (auto simp: status_edit_defs Let_def split: option.splits if_splits runner_status.splits
      intro!: ok_set_task good_updateI simp: same_identity_def)

lemma restore_keeps_ok:
  assumes "runtime_state_ok env s" "t_retention original = Retained \<or> status_terminal (t_status original)"
    and "restore_task_after_recovery_if_unchanged prepared original s = Ok (out, s')"
  shows "runtime_state_ok env s'"
proof -
  have "same_identity prepared original"
    if "prepared\<lparr>t_status := t_status original, t_retention := t_retention original,
          t_error := t_error original, t_updated_at := t_updated_at original\<rparr> = original"
    by (subst that [symmetric]) (simp add: same_identity_def)
  then show ?thesis
    using assms by (auto simp: restore_task_after_recovery_if_unchanged_def ok_iff split: option.splits if_splits
        intro!: ok_set_task good_updateI)
qed

lemma build_task_record_Ok:
  assumes "build_task_record fresh now g = Ok r" "fresh \<noteq> 0"
  shows "task_ok (t_task_id r) r" "t_incarnation r = fresh" "t_fingerprint r = g_fingerprint g" "t_status r = RAllocated"
  using assms by (auto simp: build_task_record_def ok_iff task_ok_def canonicalize_persisted_route_def)

lemma ok_put_new_task:
  assumes ok: "runtime_state_ok env s" and r: "task_ok (t_task_id r) r" "fmlookup (rs_tasks s) (t_task_id r) = None"
    and fresh: "\<And>tid r'. fmlookup (rs_tasks s) tid = Some r' \<Longrightarrow> t_incarnation r' \<noteq> t_incarnation r \<and> t_fingerprint r' \<noteq> t_fingerprint r"
  shows "runtime_state_ok env (put_task r s)"
proof -
  let ?m = "fmupd (t_task_id r) r (rs_tasks s)"
  have "unique_by f ?m" if "unique_by f (rs_tasks s)" "\<And>tid r'. fmlookup (rs_tasks s) tid = Some r' \<Longrightarrow> f r' \<noteq> f r"
    for f :: "_ \<Rightarrow> 'b"
    using that unfolding unique_by_def fmupd_lookup by (metis option.inject)
  then have "unique_by t_incarnation ?m" "unique_by t_fingerprint ?m"
    using ok fresh by (auto simp: runtime_state_ok_def)
  moreover have "owner_known ?m k owner" if "owner_known (rs_tasks s) k owner" for k owner
    using that r(2) unfolding owner_known_def fmupd_lookup by (metis option.distinct(1))
  ultimately show ?thesis
    using ok r(1) by (auto simp: runtime_state_ok_def put_task_def pending_ok_def split: if_splits)
qed

lemma register_keeps_ok:
  assumes ok: "runtime_state_ok env s" and fresh: "fresh_incarnation s fresh"
    and "register_task_if_absent fresh clock g pres s = Ok (out, s')"
  shows "runtime_state_ok env s'"
proof (cases "s' = s")
  case False
  with assms(3) obtain r where r: "build_task_record fresh (clock 0) g = Ok r" "fmlookup (rs_tasks s) (t_task_id r) = None"
      "find (\<lambda>task. t_fingerprint task = g_fingerprint g) (fm_values (rs_tasks s)) = None" "s' = put_task r s"
    by (auto simp: register_task_if_absent_def ok_iff split: option.splits)
  note facts = build_task_record_Ok [OF r(1)]
  have "t_fingerprint r' \<noteq> t_fingerprint r" if "fmlookup (rs_tasks s) tid = Some r'" for tid r'
    using r(3) that facts(3) fresh by (auto simp: find_None_iff set_fm_values fresh_incarnation_def)
  with ok r facts fresh show ?thesis by (auto simp: fresh_incarnation_def intro!: ok_put_new_task)
qed (use ok in simp)

lemma ok_drop_task:
  assumes "runtime_state_ok env s" "fmlookup (rs_tasks s) tid = Some r" "u = t_incarnation r"
  shows "runtime_state_ok env (retain_all_owners (\<lambda>owner. owner \<noteq> u) (s\<lparr>rs_tasks := fmdrop tid (rs_tasks s)\<rparr>))"
  using assms by (intro ok_remove_tasks) (auto split: if_splits)

lemma retain_all_owners_fields [simp]:
  "rs_tasks (retain_all_owners keep s) = rs_tasks s" "rs_artifacts (retain_all_owners keep s) = rs_artifacts s"
  by (simp_all add: retain_all_owners_def)

lemma replace_keeps_ok:
  assumes ok: "runtime_state_ok env s" and fresh: "fresh_incarnation s fresh"
    and "replace_task_if_unchanged fresh clock expected g pres s = Ok (out, s')"
  shows "runtime_state_ok env s'"
proof (cases "s' = s")
  case False
  define s2 where "s2 = retain_all_owners (\<lambda>owner. owner \<noteq> t_incarnation expected)
    (s\<lparr>rs_tasks := fmdrop (t_task_id expected) (rs_tasks s)\<rparr>)"
  from assms(3) False obtain r where r: "build_task_record fresh (clock 0) g = Ok r"
      "fmlookup (rs_tasks s) (t_task_id expected) = Some expected"
      "t_task_id r = t_task_id expected \<or> fmlookup (rs_tasks s) (t_task_id r) = None"
      "ensure_task_fingerprint_available s2 r = Ok ()" "s' = put_task r s2"
    by (auto simp: replace_task_if_unchanged_def s2_def ok_iff Let_def split: option.splits if_splits)
  note facts = build_task_record_Ok [OF r(1)]
  have ok2: "runtime_state_ok env s2" unfolding s2_def using ok r(2) by (intro ok_drop_task) auto
  have none: "fmlookup (rs_tasks s2) (t_task_id r) = None" using r(3) by (auto simp: s2_def)
  have "t_fingerprint r' \<noteq> t_fingerprint r" if "fmlookup (rs_tasks s2) tid = Some r'" for tid r'
  proof -
    have "t_task_id r' = tid" using ok_task_lookup [OF ok2 that] by (simp add: task_ok_def)
    then show ?thesis
      using r(4) that none by (auto simp: ensure_task_fingerprint_available_def list_ex_iff set_fm_values)
  qed
  moreover have "t_incarnation r' \<noteq> fresh" if "fmlookup (rs_tasks s2) tid = Some r'" for tid r'
    using that fresh by (auto simp: s2_def fresh_incarnation_def split: if_splits)
  ultimately show ?thesis
    unfolding r(5) using ok2 none facts fresh by (intro ok_put_new_task) (auto simp: fresh_incarnation_def)
qed (use ok in simp)

lemma remove_task_keeps_ok:
  assumes "runtime_state_ok env s" "remove_task_if_current lifetime s = Ok (out, s')"
  shows "runtime_state_ok env s'"
  using assms by (auto simp: remove_task_if_current_def split: option.splits if_splits intro: ok_drop_task)

lemma set_sort_key_values [simp]:
  "set (sort_key f (filter P (fm_values m))) = {r. P r \<and> (\<exists>tid. fmlookup m tid = Some r)}"
  by (auto simp: set_fm_values)

lemma set_artifact_task_records:
  "set (artifact_task_records s k) = {r. task_matches_artifact_identity r k \<and> (\<exists>tid. fmlookup (rs_tasks s) tid = Some r)}"
  by (auto simp: artifact_task_records_def set_fm_values)

lemma update_tasks_keeps_ok:
  assumes ok: "runtime_state_ok env s" and f: "\<And>rs out rs'. f rs = Ok (out, rs') \<Longrightarrow> list_all2 good_update rs rs'"
    and "update_tasks_by_ref task_ref f s = Ok (out, s')"
  shows "runtime_state_ok env s'"
  using assms(3) f by (auto simp: update_tasks_by_ref_def ok_iff set_fm_values intro!: ok_put_tasks [OF ok])

lemma supports_route_canonical: "supports_route k r \<Longrightarrow> canonicalize_persisted_route k r \<noteq> None"
  by (simp add: canonicalize_persisted_route_def)

lemma artifact_key_of_record:
  "artifact_key_of (snd (proof_artifact_record env clock g lc)) = ar_key g"
  by (simp add: proof_artifact_record_def artifact_key_of_def Let_def)

lemma new_artifact_ok:
  assumes "key_filled (ar_key g)" "descriptor_filled (ar_descriptor g)" "key_routed (ar_key g)"
    and "proof_artifact_record env clock g lc = (key, r)"
  shows "artifact_ok env key r"
  using assms
  by (auto simp: proof_artifact_record_def Let_def artifact_ok_def key_filled_def descriptor_filled_def key_routed_def
      artifact_key_of_def split: if_splits)

lemma artifact_ok_lifecycle:
  assumes "artifact_ok env key r" "(lc = LInvalidated) = (at \<noteq> None)"
  shows "artifact_ok env key (r\<lparr>a_lifecycle := lc, a_invalidated_at := at, a_updated_at := now\<rparr>)"
  using assms by (simp add: artifact_ok_def artifact_key_of_def)

lemma artifact_ok_lifecycle':
  assumes "artifact_ok env key r" "(lc = LInvalidated) = (at \<noteq> None)"
  shows "artifact_ok env key (r\<lparr>a_lifecycle := lc, a_invalidated_at := at\<rparr>)"
  using assms by (simp add: artifact_ok_def artifact_key_of_def)

lemma artifact_ok_mark: "artifact_ok env key r \<Longrightarrow> artifact_ok env key (mark_invalidated now now' r)"
  unfolding mark_invalidated_def by (rule artifact_ok_lifecycle) (auto split: option.splits)

lemma registration_routed:
  "ensure_canonical_artifact_registration g = Ok () \<Longrightarrow> key_routed (ar_key g)"
  by (simp add: ensure_canonical_artifact_registration_def key_routed_def supports_route_canonical)

lemma register_pending_keeps_ok:
  assumes ok: "runtime_state_ok env s" and g: "key_filled (ar_key g)" "descriptor_filled (ar_descriptor g)"
    and run: "register_pending_proof_artifact env clock g s = Ok (out, s')"
  shows "runtime_state_ok env s'"
proof -
  obtain key r where r: "proof_artifact_record env clock g LPending = (key, r)" by (cases "proof_artifact_record env clock g LPending")
  from run have "key_routed (ar_key g)"
    by (auto simp: register_pending_proof_artifact_def ok_iff registration_routed)
  then have "artifact_ok env key r" using new_artifact_ok [OF g _ r] by blast
  then show ?thesis
    using run ok
    by (auto simp: register_pending_proof_artifact_def r ok_iff Let_def split: option.splits if_splits
        intro!: ok_put_artifact artifact_ok_lifecycle')
qed

lemma register_invalidated_keeps_ok:
  assumes ok: "runtime_state_ok env s" and g: "key_filled (ar_key g)" "descriptor_filled (ar_descriptor g)"
    and run: "register_invalidated_proof_artifact env clock g s = Ok (out, s')"
  shows "runtime_state_ok env s'"
proof -
  obtain key r where r: "proof_artifact_record env clock g LInvalidated = (key, r)"
    by (cases "proof_artifact_record env clock g LInvalidated")
  from run have "key_routed (ar_key g)"
    by (auto simp: register_invalidated_proof_artifact_def ok_iff registration_routed)
  then have "artifact_ok env key r" using new_artifact_ok [OF g _ r] by blast
  then show ?thesis
    using run ok
    by (auto simp: register_invalidated_proof_artifact_def r ok_iff split: option.splits if_splits
        intro!: ok_put_artifact artifact_ok_mark dest: ok_artifact_lookup)
qed

lemma put_tasks_fields [simp]:
  "rs_artifacts (put_tasks rs s) = rs_artifacts s" "rs_pending (put_tasks rs s) = rs_pending s"
  by (simp_all add: put_tasks_eq)

lemma put_artifact_fields [simp]:
  "rs_tasks (put_artifact key r s) = rs_tasks s" "rs_pending (put_artifact key r s) = rs_pending s"
  "rs_artifacts (put_artifact key r s) = fmupd key r (rs_artifacts s)"
  by (simp_all add: put_artifact_def)

text \<open>What a successful activation has checked and done.\<close>

lemma activate_Ok:
  assumes "activate_proof_artifact_with_tasks clock task_ref g owners f s = Ok (out, s')"
  obtains "out = None" "s' = s"
  | o' records' pending artifact where
      "out = Some o'"
      "fmlookup (rs_pending s) (artifact_record_key (ar_key g)) = Some pending"
      "fmlookup (rs_artifacts s) (artifact_record_key (ar_key g)) = Some artifact"
      "artifact_descriptor artifact = ar_descriptor g" "a_lifecycle artifact \<noteq> LInvalidated"
      "a_lifecycle artifact = LActive \<or> p_content_hash pending = d_content_hash (ar_descriptor g)"
      "owners \<noteq> []"
      "\<forall>owner \<in> set owners. \<exists>tid r. fmlookup (rs_tasks s) tid = Some r \<and> t_incarnation r = owner
         \<and> task_matches_artifact_identity r ((ar_key g)\<lparr>ak_proof_ref := task_ref\<rparr>) \<and> \<not> status_dead (t_status r)"
      "f (sort_key t_task_id (artifact_task_records s ((ar_key g)\<lparr>ak_proof_ref := task_ref\<rparr>))) = Ok (Some (o', records'))"
      "s' = (put_artifact (artifact_record_key (ar_key g))
               (artifact\<lparr>a_lifecycle := LActive, a_invalidated_at := None, a_updated_at := clock 0\<rparr>)
               (put_tasks records' s))
             \<lparr>rs_pending := fmupd (artifact_record_key (ar_key g)) (pending\<lparr>p_owners := []\<rparr>) (rs_pending s)\<rparr>"
proof (cases "out")
  case None
  have "s' = s"
    using assms None
    by (auto simp: activate_proof_artifact_with_tasks_def Let_def ok_iff ok_or_def
        split: option.splits if_splits)
  with None show ?thesis using that(1) by blast
next
  case (Some o')
  let ?rs = "sort_key t_task_id (artifact_task_records s ((ar_key g)\<lparr>ak_proof_ref := task_ref\<rparr>))"
  let ?key = "artifact_record_key (ar_key g)"
  have live: "\<exists>tid r. fmlookup (rs_tasks s) tid = Some r \<and> t_incarnation r = owner
      \<and> task_matches_artifact_identity r ((ar_key g)\<lparr>ak_proof_ref := task_ref\<rparr>) \<and> \<not> status_dead (t_status r)"
    if "owner \<in> t_incarnation ` {r \<in> set ?rs. \<not> status_dead (t_status r)}" for owner
    using that by (auto simp: set_artifact_task_records)
  from assms Some obtain pending artifact records' where facts:
      "fmlookup (rs_pending s) ?key = Some pending" "fmlookup (rs_artifacts s) ?key = Some artifact"
      "artifact_descriptor artifact = ar_descriptor g" "a_lifecycle artifact \<noteq> LInvalidated"
      "a_lifecycle artifact = LActive \<or> p_content_hash pending = d_content_hash (ar_descriptor g)"
      "list_ex (\<lambda>owner. owner \<in> t_incarnation ` {r \<in> set ?rs. \<not> status_dead (t_status r)}) owners"
      "list_all (\<lambda>owner. owner \<in> t_incarnation ` {r \<in> set ?rs. \<not> status_dead (t_status r)}) owners"
      "f ?rs = Ok (Some (o', records'))"
      "s' = (put_artifact ?key (artifact\<lparr>a_lifecycle := LActive, a_invalidated_at := None, a_updated_at := clock 0\<rparr>)
               (put_tasks records' s))\<lparr>rs_pending := fmupd ?key (pending\<lparr>p_owners := []\<rparr>) (rs_pending s)\<rparr>"
    by (auto simp: activate_proof_artifact_with_tasks_def Let_def ok_iff ok_or_def
        split: option.splits if_splits)
  have "owners \<noteq> []" using facts(6) by auto
  moreover have "\<forall>owner \<in> set owners. \<exists>tid r. fmlookup (rs_tasks s) tid = Some r \<and> t_incarnation r = owner
      \<and> task_matches_artifact_identity r ((ar_key g)\<lparr>ak_proof_ref := task_ref\<rparr>) \<and> \<not> status_dead (t_status r)"
    using facts(7) live by (simp only: list_all_iff) blast
  ultimately show ?thesis using that(2) [OF Some facts(1-5) _ _ facts(8,9)] by blast
qed

lemma pending_ok_no_owners: "pending_ok m key p \<Longrightarrow> pending_ok m' key (p\<lparr>p_owners := []\<rparr>)"
  by (simp add: pending_ok_def)

lemma activate_keeps_ok:
  assumes ok: "runtime_state_ok env s" and f: "\<And>rs out rs'. f rs = Ok (Some (out, rs')) \<Longrightarrow> list_all2 good_update rs rs'"
    and run: "activate_proof_artifact_with_tasks clock task_ref g owners f s = Ok (out, s')"
  shows "runtime_state_ok env s'"
  using run
proof (cases rule: activate_Ok)
  case (2 o' records' pending artifact)
  have ok1: "runtime_state_ok env (put_tasks records' s)"
    by (rule ok_put_tasks [OF ok f [OF 2(9)]]) (auto simp: set_artifact_task_records set_fm_values)
  have "artifact_ok env (artifact_record_key (ar_key g))
      (artifact\<lparr>a_lifecycle := LActive, a_invalidated_at := None, a_updated_at := clock 0\<rparr>)"
    using ok_artifact_lookup [OF ok 2(3)] by (rule artifact_ok_lifecycle) simp
  from ok_put_artifact [OF ok1 this] ok_pending_lookup [OF ok 2(2)] show ?thesis
    unfolding 2(10) by (auto intro!: ok_pending pending_ok_no_owners split: if_splits
        dest: ok_pending_lookup [rotated] simp: runtime_state_ok_def)
qed (use ok in simp)

lemma ok_retain_pending:
  assumes "runtime_state_ok env s" "fmlookup (rs_pending s) key = Some p"
  shows "runtime_state_ok env (s\<lparr>rs_pending := fmupd key (retain_owners keep p) (rs_pending s)\<rparr>)"
  using assms by (intro ok_upd_pending pending_ok_retain) (auto dest: ok_pending_lookup)

lemma update_invalidate_keeps_ok:
  assumes ok: "runtime_state_ok env s" and f: "\<And>rs out b rs'. f rs = Ok (out, b, rs') \<Longrightarrow> list_all2 good_update rs rs'"
    and run: "update_tasks_and_invalidate_artifact clock k f s = Ok (out, s')"
  shows "runtime_state_ok env s'"
proof -
  let ?key = "artifact_record_key k"
  from run obtain o' b records where upd: "f (sort_key t_task_id (artifact_task_records s k)) = Ok (o', b, records)"
    by (auto simp: update_tasks_and_invalidate_artifact_def ok_iff Let_def)
  define s1 where "s1 = put_tasks records s"
  define live where "live = map t_incarnation (filter (\<lambda>r. \<not> status_dead (t_status r)) (artifact_task_records s1 k))"
  define s2 where "s2 = (case fmlookup (rs_pending s1) ?key of None \<Rightarrow> s1
      | Some pending \<Rightarrow> s1\<lparr>rs_pending := fmupd ?key (retain_owners (\<lambda>owner. owner \<in> set live) pending) (rs_pending s1)\<rparr>)"
  have "runtime_state_ok env s1" unfolding s1_def
    by (rule ok_put_tasks [OF ok f [OF upd]]) (auto simp: set_artifact_task_records set_fm_values)
  then have ok2: "runtime_state_ok env s2"
    unfolding s2_def by (auto split: option.splits intro: ok_retain_pending)
  have "s' = s2 \<or> (\<exists>r. fmlookup (rs_artifacts s2) ?key = Some r \<and> s' = put_artifact ?key (mark_invalidated (clock 0) (clock 1) r) s2)"
    using run unfolding update_tasks_and_invalidate_artifact_def Let_def upd bind_outcome.simps prod.case
      s1_def [symmetric] live_def [symmetric] s2_def [symmetric]
    by (auto split: if_splits option.splits)
  then show ?thesis
    using ok2 by (auto intro!: ok_put_artifact artifact_ok_mark dest: ok_artifact_lookup)
qed

lemma remove_artifact_keeps_ok:
  assumes "runtime_state_ok env s" "remove_proof_artifact_if_descriptor k d s = Ok (out, s')"
  shows "runtime_state_ok env s'"
  using assms by (auto simp: remove_proof_artifact_if_descriptor_def Let_def split: option.splits if_splits
      intro: ok_drop_artifact)

lemma set_dedup_adjacent [simp]: "set (dedup_adjacent xs) = set xs"
  by (induction xs rule: dedup_adjacent.induct) auto

lemma distinct_dedup_sorted: "sorted xs \<Longrightarrow> distinct (dedup_adjacent xs)"
proof (induction xs rule: dedup_adjacent.induct)
  case (1 x y ys)
  then have "x \<noteq> y \<Longrightarrow> x \<notin> set (y # ys)" by auto
  with 1 show ?case by (auto simp del: set_dedup_adjacent simp: set_dedup_adjacent)
qed auto

lemma pending_intent_keeps_ok:
  assumes ok: "runtime_state_ok env s" and p: "key_filled (p_key p)" "key_routed (p_key p)" "p_content_hash p \<noteq> []"
    and run: "record_pending_proof_publication_intent p s = Ok (out, s')"
  shows "runtime_state_ok env s'"
proof (cases "s' = s")
  case False
  define live where "live = map t_incarnation
    (filter (\<lambda>task. task_matches_artifact_identity task (p_key p) \<and> \<not> status_dead (t_status task)) (fm_values (rs_tasks s)))"
  have known: "owner_known (rs_tasks s) (p_key p) owner" if "owner \<in> set live" for owner
    using that by (auto simp: live_def owner_known_def set_fm_values)
  define mine where "mine = filter (\<lambda>owner. owner \<in> set live) (p_owners p)"
  define owners where "owners = (case fmlookup (rs_pending s) (artifact_record_key (p_key p)) of None \<Rightarrow> mine
      | Some pending \<Rightarrow> if p_content_hash pending = p_content_hash p
          then mine @ filter (\<lambda>owner. owner \<in> set live) (p_owners pending) else mine)"
  have s': "s' = s\<lparr>rs_pending := fmupd (artifact_record_key (p_key p)) (p\<lparr>p_owners := dedup_adjacent (sort owners)\<rparr>) (rs_pending s)\<rparr>"
    using run False unfolding record_pending_proof_publication_intent_def Let_def live_def [symmetric]
      mine_def [symmetric] owners_def [symmetric]
    by (auto simp: ok_iff split: if_splits)
  have "set owners \<subseteq> set live" by (auto simp: owners_def mine_def split: option.splits)
  then have "pending_ok (rs_tasks s) (artifact_record_key (p_key p)) (p\<lparr>p_owners := dedup_adjacent (sort owners)\<rparr>)"
    using p known by (auto simp: pending_ok_def key_filled_def key_routed_def distinct_dedup_sorted)
  then show ?thesis unfolding s' using ok by (rule ok_upd_pending [rotated])
qed (use ok in simp)

lemma release_owner_keeps_ok:
  assumes "runtime_state_ok env s" "release_pending_owner k owner s = Ok (out, s')"
  shows "runtime_state_ok env s'"
  using assms by (auto simp: release_pending_owner_def Let_def split: option.splits intro: ok_retain_pending)

lemma remove_pending_keeps_ok:
  assumes "runtime_state_ok env s" "remove_pending_if_unowned k s = Ok (out, s')"
  shows "runtime_state_ok env s'"
  using assms by (auto simp: remove_pending_if_unowned_def Let_def split: if_splits intro: ok_drop_pending)

text \<open>Marking an unowned publication changes one artifact at most, in one of two ways.\<close>

lemma mark_unowned_cases:
  assumes "mark_unowned_pending_publication_invalidated clock k c s = Ok (out, s')"
  obtains "s' = s"
  | r where "c = Some r" "fmlookup (rs_artifacts s) (artifact_record_key k) = None"
      "s' = put_artifact (artifact_record_key k) r s"
  | r r' where "c = Some r" "fmlookup (rs_artifacts s) (artifact_record_key k) = Some r'"
      "artifact_descriptor r' = artifact_descriptor r"
      "s' = put_artifact (artifact_record_key k) (mark_invalidated (clock 2) (clock 3) r') s"
  using assms unfolding mark_unowned_pending_publication_invalidated_def Let_def
  by (auto split: option.splits if_splits)

lemma invalidate_pending_keeps_ok:
  assumes ok: "runtime_state_ok env s" and k: "key_filled k" "key_routed k"
    and d: "case d of None \<Rightarrow> True | Some d \<Rightarrow> descriptor_filled d"
    and run: "invalidate_pending_mutation env clock k d s = Ok (out, s')"
  shows "runtime_state_ok env s'"
  using run unfolding invalidate_pending_mutation_def
proof (cases rule: mark_unowned_cases)
  case (2 r)
  then obtain d' where d': "d = Some d'" "r = snd (proof_artifact_record env clock \<lparr>ar_key = k, ar_descriptor = d'\<rparr> LInvalidated)"
    by auto
  then have "proof_artifact_record env clock \<lparr>ar_key = k, ar_descriptor = d'\<rparr> LInvalidated = (artifact_record_key k, r)"
    by (simp add: proof_artifact_record_def Let_def)
  with new_artifact_ok [of "\<lparr>ar_key = k, ar_descriptor = d'\<rparr>"] k d d'(1) have "artifact_ok env (artifact_record_key k) r"
    by simp
  then show ?thesis unfolding 2(3) using ok by (simp add: ok_put_artifact)
next
  case (3 r r')
  then show ?thesis using ok by (auto intro!: ok_put_artifact artifact_ok_mark dest: ok_artifact_lookup)
qed (use ok in simp)

lemma prepare_pending_keeps_ok:
  assumes ok: "runtime_state_ok env s" and d: "case d of None \<Rightarrow> True | Some d \<Rightarrow> descriptor_filled d"
    and run: "prepare_pending_canonical_for_retention env clock p d s = Ok (out, s')"
  shows "runtime_state_ok env s'"
proof (cases "s' = s")
  case False
  with run obtain d' key c where d': "d = Some d'" and
      c: "proof_artifact_record env clock \<lparr>ar_key = p_key p, ar_descriptor = d'\<rparr> LInvalidated = (key, c)"
      and s': "fmlookup (rs_pending s) key = Some p" "s' = put_artifact key c s"
    by (auto simp: prepare_pending_canonical_for_retention_def ok_iff split: option.splits if_splits prod.splits)
  have "key_filled (p_key p)" "key_routed (p_key p)"
    using ok_pending_lookup [OF ok s'(1)] by (auto simp: pending_ok_def key_filled_def key_routed_def)
  with new_artifact_ok [OF _ _ _ c] d d' have "artifact_ok env key c" by simp
  then show ?thesis unfolding s'(2) using ok by (simp add: ok_put_artifact)
qed (use ok in simp)

subsection \<open>Retention\<close>

lemma fold_state_invariant:
  assumes "P (snd acc)" "\<And>x acc. x \<in> set xs \<Longrightarrow> P (snd acc) \<Longrightarrow> P (snd (f x acc))"
  shows "P (snd (fold f xs acc))"
  using assms by (induction xs arbitrary: acc) auto

lemma prepare_artifact_keeps_ok:
  assumes "runtime_state_ok env (snd acc)"
  shows "runtime_state_ok env (snd (prepare_artifact now ownership expected acc))"
  using assms
  by (auto simp: prepare_artifact_def Let_def split: prod.splits option.splits
      intro!: ok_put_artifact artifact_ok_lifecycle dest: ok_artifact_lookup)

lemma retire_for_removal_keeps_ok:
  assumes "runtime_state_ok env (snd acc)"
  shows "runtime_state_ok env (snd (retire_for_removal expected acc))"
  using assms
  by (auto simp: retire_for_removal_def Let_def split: prod.splits option.splits
      intro!: ok_set_task good_updateI simp: same_identity_def)

lemma prepare_artifacts_keeps_ok:
  assumes "runtime_state_ok env s" "prepare_artifact_retention_batch clock rs s = Ok (out, s')"
  shows "runtime_state_ok env s'"
proof -
  have "runtime_state_ok env (snd (fold (prepare_artifact now (owned_artifacts s)) rs (empty, s)))" for now empty
    by (rule fold_state_invariant) (simp_all add: assms(1) prepare_artifact_keeps_ok)
  from this show ?thesis using assms
    by (auto simp: prepare_artifact_retention_batch_def Let_def ok_iff split: if_splits dest!: arg_cong [where f = snd])
qed

lemma prepare_tasks_keeps_ok:
  assumes "runtime_state_ok env s" "prepare_terminal_task_retention_batch rs s = Ok (out, s')"
  shows "runtime_state_ok env s'"
proof -
  have "runtime_state_ok env (snd (fold retire_for_removal rs (empty, s)))" for empty
    by (rule fold_state_invariant) (simp_all add: assms(1) retire_for_removal_keeps_ok)
  from this show ?thesis using assms
    by (auto simp: prepare_terminal_task_retention_batch_def Let_def ok_iff split: if_splits dest!: arg_cong [where f = snd])
qed

lemma finalize_pending_keeps_ok:
  assumes "runtime_state_ok env (snd acc)"
  shows "runtime_state_ok env (snd (finalize_pending ownership expected acc))"
  using assms by (auto simp: finalize_pending_def Let_def split: prod.splits option.splits intro: ok_drop_pending)

lemma finalize_artifact_keeps_ok:
  assumes "runtime_state_ok env (snd acc)"
  shows "runtime_state_ok env (snd (finalize_artifact expected acc))"
  using assms by (auto simp: finalize_artifact_def Let_def split: prod.splits option.splits intro: ok_drop_artifact)

text \<open>The loop over the retired tasks removes exact snapshots and reports every lifetime it ended.\<close>

definition tasks_removed :: "runtime_task list \<Rightarrow> retention_finalize \<Rightarrow> runtime_state \<Rightarrow> retention_finalize \<Rightarrow> runtime_state \<Rightarrow> bool" where
  "tasks_removed rs f s f' s' \<longleftrightarrow>
     s' = s\<lparr>rs_tasks := rs_tasks s'\<rparr> \<and> set (rf_removed_tasks f) \<subseteq> set (rf_removed_tasks f')
     \<and> (\<forall>tid r. fmlookup (rs_tasks s') tid = Some r \<longrightarrow> fmlookup (rs_tasks s) tid = Some r)
     \<and> (\<forall>tid r. fmlookup (rs_tasks s) tid = Some r \<longrightarrow> fmlookup (rs_tasks s') tid = None \<longrightarrow>
          r \<in> set rs \<and> task_lifetime_of r \<in> set (rf_removed_tasks f'))"

lemma tasks_removed_trans:
  assumes "tasks_removed xs f s f1 s1" "tasks_removed ys f1 s1 f' s'"
  shows "tasks_removed (xs @ ys) f s f' s'"
proof -
  have "s' = s\<lparr>rs_tasks := rs_tasks s'\<rparr>"
    using assms by (auto simp: tasks_removed_def intro!: runtime_state.equality) (metis runtime_state.select_convs runtime_state.surjective runtime_state.update_convs(1))+
  moreover have "r \<in> set (xs @ ys) \<and> task_lifetime_of r \<in> set (rf_removed_tasks f')"
    if "fmlookup (rs_tasks s) tid = Some r" "fmlookup (rs_tasks s') tid = None" for tid r
    using that assms unfolding tasks_removed_def
    by (cases "fmlookup (rs_tasks s1) tid") (fastforce, metis Un_iff option.inject set_append)
  ultimately show ?thesis using assms unfolding tasks_removed_def by blast
qed

lemma finalize_tasks_fold: "fold finalize_task rs (f, s) = (f', s') \<Longrightarrow> tasks_removed rs f s f' s'"
proof (induction rs arbitrary: f s)
  case (Cons x rs)
  obtain f1 s1 where step: "finalize_task x (f, s) = (f1, s1)" by (cases "finalize_task x (f, s)")
  then have "tasks_removed [x] f s f1 s1" by (auto simp: finalize_task_def tasks_removed_def split: if_splits)
  moreover from Cons step have "tasks_removed rs f1 s1 f' s'" by simp
  ultimately show ?case using tasks_removed_trans by fastforce
qed (simp add: tasks_removed_def)

text \<open>The three loops of a finalization, as one step each.\<close>

definition no_finalize :: retention_finalize where
  "no_finalize = \<lparr>rf_removed_tasks = [], rf_removed_artifacts = [], rf_removed_pending = [],
     rf_skipped_tasks = 0, rf_skipped_artifacts = 0, rf_skipped_pending = 0\<rparr>"

lemma finalize_Ok:
  assumes run: "finalize_terminal_task_retention_batch rs as ps s = Ok (out, s')"
  obtains f1 s1 f2 s2 where
    "fold (finalize_pending (owned_artifacts s)) ps (no_finalize, s) = (f1, s1)"
    "fold finalize_task rs (f1, s1) = (f2, s2)"
    "fold finalize_artifact as (f2, if rf_removed_tasks f2 = [] then s2
       else retain_all_owners (\<lambda>owner. owner \<notin> lt_incarnation ` set (rf_removed_tasks f2)) s2) = (out, s')"
    "validate_terminal_retention_finalization rs as ps = Ok ()"
proof -
  obtain f1 s1 where p: "fold (finalize_pending (owned_artifacts s)) ps (no_finalize, s) = (f1, s1)" by fastforce
  obtain f2 s2 where t: "fold finalize_task rs (f1, s1) = (f2, s2)" by fastforce
  let ?s3 = "if rf_removed_tasks f2 = [] then s2
       else retain_all_owners (\<lambda>owner. owner \<notin> lt_incarnation ` set (rf_removed_tasks f2)) s2"
  have "fold finalize_artifact as (f2, ?s3) = (out, s') \<and> validate_terminal_retention_finalization rs as ps = Ok ()"
  proof (cases "rs = [] \<and> as = [] \<and> ps = []")
    case True
    then show ?thesis using run p t
      by (auto simp: finalize_terminal_task_retention_batch_def no_finalize_def validate_terminal_retention_finalization_def ok_iff)
  next
    case False
    then show ?thesis
      using run unfolding finalize_terminal_task_retention_batch_def Let_def no_finalize_def [symmetric] p
      by (auto simp: ok_iff t)
  qed
  with that p t show ?thesis by blast
qed

lemma finalize_keeps_ok:
  assumes ok: "runtime_state_ok env s"
    and run: "finalize_terminal_task_retention_batch rs as ps s = Ok (out, s')"
  shows "runtime_state_ok env s'"
  using run
proof (cases rule: finalize_Ok)
  case (1 f1 s1 f2 s2)
  let ?removed = "lt_incarnation ` set (rf_removed_tasks f2)"
  let ?s3 = "if rf_removed_tasks f2 = [] then s2 else retain_all_owners (\<lambda>owner. owner \<notin> ?removed) s2"
  have ok1: "runtime_state_ok env s1"
    using fold_state_invariant [where f = "finalize_pending (owned_artifacts s)" and xs = ps and P = "runtime_state_ok env"]
      ok finalize_pending_keeps_ok 1(1) by (metis snd_conv)
  note tf = finalize_tasks_fold [OF 1(2), unfolded tasks_removed_def]
  have sub: "fmlookup (rs_tasks s2) tid = Some r \<Longrightarrow> fmlookup (rs_tasks s1) tid = Some r" for tid r using tf by blast
  have gone: "t_incarnation r \<in> ?removed"
    if "fmlookup (rs_tasks s1) tid = Some r" "fmlookup (rs_tasks s2) tid = None" for tid r
    using tf that by (force simp: task_lifetime_of_def)
  have "runtime_state_ok env ?s3"
  proof (cases "rf_removed_tasks f2 = []")
    case True
    then have "fmlookup (rs_tasks s2) tid = fmlookup (rs_tasks s1) tid" for tid
      using gone sub by (cases "fmlookup (rs_tasks s2) tid"; cases "fmlookup (rs_tasks s1) tid") force+
    then have "rs_tasks s2 = rs_tasks s1" by (simp add: fmap_ext)
    with tf have "s2 = s1" by simp
    with True ok1 show ?thesis by simp
  next
    case False
    have "runtime_state_ok env (retain_all_owners (\<lambda>owner. owner \<notin> ?removed) (s1\<lparr>rs_tasks := rs_tasks s2\<rparr>))"
      using gone sub by (intro ok_remove_tasks [OF ok1]) blast+
    with False tf show ?thesis by simp
  qed
  then show ?thesis
    using fold_state_invariant [where f = finalize_artifact and xs = as and P = "runtime_state_ok env"]
      finalize_artifact_keeps_ok 1(3) by (metis snd_conv)
qed

lemmas op_keeps_ok =
  status_edits_keep_ok restore_keeps_ok register_keeps_ok replace_keeps_ok remove_task_keeps_ok
  register_pending_keeps_ok register_invalidated_keeps_ok remove_artifact_keeps_ok pending_intent_keeps_ok
  release_owner_keeps_ok remove_pending_keeps_ok invalidate_pending_keeps_ok prepare_pending_keeps_ok
  prepare_artifacts_keeps_ok prepare_tasks_keeps_ok finalize_keeps_ok

lemma run_op_keeps_ok:
  assumes ok: "runtime_state_ok env s" and args: "op_args_ok s op" and run: "run_op env op s = Ok s'"
  shows "runtime_state_ok env s'"
proof (cases op)
  case (OpRestore prepared original)
  with args run restore_keeps_ok [OF ok, of original prepared] show ?thesis by (auto simp: next_state_Ok_iff)
next
  case (OpUpdateTasks task_ref f)
  with run obtain out where "update_tasks_by_ref task_ref (\<lambda>rs. bind_outcome (f rs) (\<lambda>rs'. Ok ((), rs'))) s = Ok (out, s')"
    by (auto simp: next_state_Ok_iff)
  from update_tasks_keeps_ok [OF ok _ this] args OpUpdateTasks show ?thesis by (auto simp: ok_iff)
next
  case (OpActivate clock task_ref g owners f)
  with run obtain out where "activate_proof_artifact_with_tasks clock task_ref g owners
       (\<lambda>rs. bind_outcome (f rs) (\<lambda>rs'. Ok (map_option (\<lambda>x. ((), x)) rs'))) s = Ok (out, s')"
    by (auto simp: next_state_Ok_iff)
  from activate_keeps_ok [OF ok _ this] args OpActivate show ?thesis by (auto simp: ok_iff)
next
  case (OpUpdateInvalidate clock k f)
  with run obtain out where "update_tasks_and_invalidate_artifact clock k (\<lambda>rs. bind_outcome (f rs) (\<lambda>x. Ok ((), x))) s = Ok (out, s')"
    by (auto simp: next_state_Ok_iff)
  from update_invalidate_keeps_ok [OF ok _ this] args OpUpdateInvalidate show ?thesis by (auto simp: ok_iff)
qed (use args run in \<open>auto simp: next_state_Ok_iff dest: op_keeps_ok [OF ok]\<close>)

end
