(* ===== verification/Runtime_Sound.thy ===== *)
theory Runtime_Sound
  imports Runtime_Inv
begin

text \<open>
  What the operations of the runtime manager guarantee over any sequence of operations: the state
  stays valid, a task lifetime that has ended never comes back, an invalidated artifact is never
  served again, an artifact becomes active only through an owned publication of the same content,
  and retention removes only what it was told to.
\<close>

section \<open>Sequences of operations\<close>

text \<open>An operation that fails leaves the state as it was: its edited copy is dropped.\<close>

definition apply_op :: "string \<Rightarrow> runtime_op \<Rightarrow> runtime_state \<Rightarrow> runtime_state" where
  "apply_op env op s = (case run_op env op s of Ok s' \<Rightarrow> s' | _ \<Rightarrow> s)"

fun run_history :: "string \<Rightarrow> runtime_op list \<Rightarrow> runtime_state \<Rightarrow> runtime_state" where
  "run_history env [] s = s"
| "run_history env (op # ops) s = run_history env ops (apply_op env op s)"

text \<open>The callers keep their side of the contract in every state of the sequence.\<close>

fun args_ok :: "string \<Rightarrow> runtime_op list \<Rightarrow> runtime_state \<Rightarrow> bool" where
  "args_ok env [] s = True"
| "args_ok env (op # ops) s = (op_args_ok s op \<and> args_ok env ops (apply_op env op s))"

lemma apply_op_ok: "runtime_state_ok env s \<Longrightarrow> op_args_ok s op \<Longrightarrow> runtime_state_ok env (apply_op env op s)"
  by (auto simp: apply_op_def split: outcome.splits intro: run_op_keeps_ok)

lemma run_ops_ok: "runtime_state_ok env s \<Longrightarrow> args_ok env ops s \<Longrightarrow> runtime_state_ok env (run_history env ops s)"
  by (induction ops arbitrary: s) (auto intro: apply_op_ok)

section \<open>Lifetimes\<close>

definition lifetimes :: "runtime_state \<Rightarrow> uuid set" where
  "lifetimes s = {t_incarnation r |r tid. fmlookup (rs_tasks s) tid = Some r}"

text \<open>The lifetime an operation creates, and the lifetime it is addressed to.\<close>

fun op_fresh :: "runtime_op \<Rightarrow> uuid option" where
  "op_fresh (OpReplace fresh _ _ _ _) = Some fresh"
| "op_fresh (OpRegister fresh _ _ _) = Some fresh"
| "op_fresh _ = None"

fun op_lifetime :: "runtime_op \<Rightarrow> uuid option" where
  "op_lifetime (OpReplace _ _ expected _ _) = Some (t_incarnation expected)"
| "op_lifetime (OpComplete _ _ inc _ _) = Some inc"
| "op_lifetime (OpRecover _ expected) = Some (t_incarnation expected)"
| "op_lifetime (OpRestore prepared _) = Some (t_incarnation prepared)"
| "op_lifetime (OpFail _ expected _) = Some (t_incarnation expected)"
| "op_lifetime (OpCancelCurrent _ lifetime _) = Some (lt_incarnation lifetime)"
| "op_lifetime (OpCancel _ expected _) = Some (t_incarnation expected)"
| "op_lifetime (OpRetire expected _) = Some (t_incarnation expected)"
| "op_lifetime (OpRemoveTask lifetime) = Some (lt_incarnation lifetime)"
| "op_lifetime _ = None"

lemma addressed_op_unchanged:
  assumes "op_lifetime op = Some u" "u \<notin> lifetimes s"
  shows "apply_op env op s = s"
proof -
  have "t_incarnation r \<noteq> u" if "fmlookup (rs_tasks s) tid = Some r" for tid r
    using assms(2) that by (auto simp: lifetimes_def)
  with assms(1) have "run_op env op s = Ok s' \<Longrightarrow> s' = s" for s'
    by (cases op) (auto simp: next_state_Ok_iff status_edit_defs replace_task_if_unchanged_def
        restore_task_after_recovery_if_unchanged_def remove_task_if_current_def ok_iff split: option.splits if_splits)
  then show ?thesis by (auto simp: apply_op_def split: outcome.splits)
qed

lemma lifetimes_set_task:
  "fmlookup (rs_tasks s) tid = Some r \<Longrightarrow> t_incarnation r' = t_incarnation r \<Longrightarrow> lifetimes (set_task tid r' s) \<subseteq> lifetimes s"
  by (auto simp: lifetimes_def set_task_def split: if_splits)

lemma lifetimes_put_tasks:
  assumes "list_all2 good_update rs rs'" "set rs \<subseteq> set (fm_values (rs_tasks s))"
  shows "lifetimes (put_tasks rs' s) \<subseteq> lifetimes s"
proof -
  have "lifetimes (s\<lparr>rs_tasks := fold (\<lambda>r. fmupd (t_task_id r) r) rs' m\<rparr>) \<subseteq> lifetimes s"
    if "lifetimes (s\<lparr>rs_tasks := m\<rparr>) \<subseteq> lifetimes s" for m
    using assms that
  proof (induction rs rs' arbitrary: m rule: list_all2_induct)
    case (Cons r rs r' rs')
    then have "t_incarnation r' = t_incarnation r" by (simp add: good_update_def same_identity_def)
    then have "t_incarnation r' \<in> lifetimes s" using Cons.prems(1) by (auto simp: lifetimes_def set_fm_values)
    then have "lifetimes (s\<lparr>rs_tasks := fmupd (t_task_id r') r' m\<rparr>) \<subseteq> lifetimes s"
      using Cons.prems(2) by (auto simp: lifetimes_def split: if_splits)
    then show ?case using Cons by simp
  qed simp
  from this [of "rs_tasks s"] show ?thesis by (simp add: put_tasks_eq)
qed

text \<open>Operations on artifacts and publications leave the tasks alone.\<close>

lemma prepare_artifact_tasks: "rs_tasks (snd (prepare_artifact now ownership x acc)) = rs_tasks (snd acc)"
  by (auto simp: prepare_artifact_def Let_def split: prod.splits option.splits)

lemma artifact_ops_tasks:
  "register_pending_proof_artifact env clock g s = Ok (lc, s') \<Longrightarrow> rs_tasks s' = rs_tasks s"
  "register_invalidated_proof_artifact env clock g s = Ok (u, s') \<Longrightarrow> rs_tasks s' = rs_tasks s"
  "remove_proof_artifact_if_descriptor k d s = Ok (b, s') \<Longrightarrow> rs_tasks s' = rs_tasks s"
  "record_pending_proof_publication_intent p s = Ok (b, s') \<Longrightarrow> rs_tasks s' = rs_tasks s"
  "release_pending_owner k owner s = Ok (b, s') \<Longrightarrow> rs_tasks s' = rs_tasks s"
  "remove_pending_if_unowned k s = Ok (b, s') \<Longrightarrow> rs_tasks s' = rs_tasks s"
  by (auto simp: register_pending_proof_artifact_def register_invalidated_proof_artifact_def
      remove_proof_artifact_if_descriptor_def record_pending_proof_publication_intent_def release_pending_owner_def
      remove_pending_if_unowned_def ok_iff Let_def split: option.splits if_splits prod.splits)

lemma artifact_ops_tasks':
  "invalidate_pending_mutation env clock k d s = Ok (bo, s') \<Longrightarrow> rs_tasks s' = rs_tasks s"
  "prepare_pending_canonical_for_retention env clock p d s = Ok (eo, s') \<Longrightarrow> rs_tasks s' = rs_tasks s"
  "prepare_artifact_retention_batch clock as s = Ok (ap, s') \<Longrightarrow> rs_tasks s' = rs_tasks s"
proof -
  assume "invalidate_pending_mutation env clock k d s = Ok (bo, s')"
  then show "rs_tasks s' = rs_tasks s" unfolding invalidate_pending_mutation_def by (cases rule: mark_unowned_cases) auto
next
  assume "prepare_pending_canonical_for_retention env clock p d s = Ok (eo, s')"
  then show "rs_tasks s' = rs_tasks s"
    by (auto simp: prepare_pending_canonical_for_retention_def ok_iff split: option.splits if_splits prod.splits)
next
  assume run: "prepare_artifact_retention_batch clock as s = Ok (ap, s')"
  have "rs_tasks (snd (fold (prepare_artifact now (owned_artifacts s)) as (empty, s))) = rs_tasks s" for now empty
    using fold_state_invariant [where P = "\<lambda>x. rs_tasks x = rs_tasks s"] prepare_artifact_tasks by (metis snd_conv)
  then show "rs_tasks s' = rs_tasks s"
    using run by (auto simp: prepare_artifact_retention_batch_def Let_def ok_iff split: if_splits dest!: arg_cong [where f = snd])
qed

lemma lifetimes_cong: "rs_tasks s' = rs_tasks s \<Longrightarrow> lifetimes s' = lifetimes s"
  by (simp add: lifetimes_def)

lemma prepare_tasks_lifetimes:
  assumes "prepare_terminal_task_retention_batch rs s = Ok (out, s')"
  shows "lifetimes s' \<subseteq> lifetimes s"
proof -
  have step: "lifetimes (snd (retire_for_removal r acc)) \<subseteq> lifetimes (snd acc)" for r acc
    by (cases acc) (auto simp: retire_for_removal_def Let_def split: option.splits
        dest!: subsetD [OF lifetimes_set_task, rotated 2])
  have folds: "lifetimes (snd (fold retire_for_removal rs (empty, s))) \<subseteq> lifetimes s" for empty
    by (rule fold_state_invariant) (simp, meson step subset_trans)
  from assms consider "s' = s" | empty where "s' = snd (fold retire_for_removal rs (empty, s))"
    by (auto simp: prepare_terminal_task_retention_batch_def Let_def ok_iff split: if_splits
        dest!: arg_cong [where f = snd])
  then show ?thesis using folds by cases auto
qed

lemma finalize_pending_tasks: "rs_tasks (snd (finalize_pending ow p acc)) = rs_tasks (snd acc)"
  by (auto simp: finalize_pending_def Let_def split: prod.splits option.splits)

lemma finalize_artifact_tasks: "rs_tasks (snd (finalize_artifact a acc)) = rs_tasks (snd acc)"
  by (auto simp: finalize_artifact_def Let_def split: prod.splits)

lemma fold_tasks:
  assumes "\<And>x acc. rs_tasks (snd (f x acc)) = rs_tasks (snd acc)"
  shows "rs_tasks (snd (fold f xs acc)) = rs_tasks (snd acc)"
  using assms by (induction xs arbitrary: acc) auto

lemma finalize_lifetimes:
  assumes run: "finalize_terminal_task_retention_batch rs as ps s = Ok (out, s')"
  shows "lifetimes s' \<subseteq> lifetimes s"
  using run
proof (cases rule: finalize_Ok)
  case (1 f1 s1 f2 s2)
  have "rs_tasks s' = rs_tasks s2"
    using arg_cong [OF 1(3), of "\<lambda>x. rs_tasks (snd x)"] by (auto simp: fold_tasks [OF finalize_artifact_tasks] split: if_splits)
  moreover have "rs_tasks s1 = rs_tasks s"
    using arg_cong [OF 1(1), of "\<lambda>x. rs_tasks (snd x)"] by (simp add: fold_tasks [OF finalize_pending_tasks])
  moreover have "lifetimes s2 \<subseteq> lifetimes s1"
    using finalize_tasks_fold [OF 1(2)] unfolding tasks_removed_def lifetimes_def by blast
  ultimately show ?thesis by (simp add: lifetimes_def)
qed

lemma update_ops_lifetimes:
  "update_tasks_by_ref task_ref f s = Ok (out, s') \<Longrightarrow>
     (\<And>rs out rs'. f rs = Ok (out, rs') \<Longrightarrow> list_all2 good_update rs rs') \<Longrightarrow> lifetimes s' \<subseteq> lifetimes s"
  "activate_proof_artifact_with_tasks clock task_ref g owners h s = Ok (out', s') \<Longrightarrow>
     (\<And>rs out rs'. h rs = Ok (Some (out, rs')) \<Longrightarrow> list_all2 good_update rs rs') \<Longrightarrow> lifetimes s' \<subseteq> lifetimes s"
  "update_tasks_and_invalidate_artifact clock k i s = Ok (out'', s') \<Longrightarrow>
     (\<And>rs out b rs'. i rs = Ok (out, b, rs') \<Longrightarrow> list_all2 good_update rs rs') \<Longrightarrow> lifetimes s' \<subseteq> lifetimes s"
proof -
  assume run: "update_tasks_by_ref task_ref f s = Ok (out, s')"
    and f: "\<And>rs out rs'. f rs = Ok (out, rs') \<Longrightarrow> list_all2 good_update rs rs'"
  let ?rs = "sort_key t_task_id (filter (\<lambda>r. task_references r task_ref) (fm_values (rs_tasks s)))"
  from run obtain rs' where "f ?rs = Ok (out, rs')" and s': "s' = put_tasks rs' s" by (auto simp: update_tasks_by_ref_def ok_iff)
  then have "list_all2 good_update ?rs rs'" using f by blast
  then show "lifetimes s' \<subseteq> lifetimes s" unfolding s' by (rule lifetimes_put_tasks) (auto simp: set_fm_values)
next
  assume run: "activate_proof_artifact_with_tasks clock task_ref g owners h s = Ok (out', s')"
    and h: "\<And>rs out rs'. h rs = Ok (Some (out, rs')) \<Longrightarrow> list_all2 good_update rs rs'"
  from run show "lifetimes s' \<subseteq> lifetimes s"
  proof (cases rule: activate_Ok)
    case (2 o' records' pending artifact)
    have "lifetimes s' = lifetimes (put_tasks records' s)" unfolding 2(10) by (rule lifetimes_cong) simp
    also have "\<dots> \<subseteq> lifetimes s"
      by (rule lifetimes_put_tasks [OF h [OF 2(9)]]) (auto simp: set_artifact_task_records set_fm_values)
    finally show ?thesis .
  qed simp
next
  assume run: "update_tasks_and_invalidate_artifact clock k i s = Ok (out'', s')"
    and i: "\<And>rs out b rs'. i rs = Ok (out, b, rs') \<Longrightarrow> list_all2 good_update rs rs'"
  let ?rs = "sort_key t_task_id (artifact_task_records s k)"
  from run obtain o' b rs' where upd: "i ?rs = Ok (o', b, rs')"
    by (auto simp: update_tasks_and_invalidate_artifact_def ok_iff Let_def)
  then have "rs_tasks s' = rs_tasks (put_tasks rs' s)"
    using run by (auto simp: update_tasks_and_invalidate_artifact_def Let_def split: option.splits if_splits)
  then have "lifetimes s' = lifetimes (put_tasks rs' s)" by (rule lifetimes_cong)
  also have "\<dots> \<subseteq> lifetimes s"
    by (rule lifetimes_put_tasks [OF i [OF upd]]) (auto simp: set_artifact_task_records set_fm_values)
  finally show "lifetimes s' \<subseteq> lifetimes s" .
qed

lemma put_task_lifetimes: "lifetimes (put_task r s) \<subseteq> insert (t_incarnation r) (lifetimes s)"
  by (auto simp: lifetimes_def put_task_def split: if_splits)

lemma drop_task_lifetimes: "lifetimes (retain_all_owners keep (s\<lparr>rs_tasks := fmdrop tid (rs_tasks s)\<rparr>)) \<subseteq> lifetimes s"
  by (auto simp: lifetimes_def split: if_splits)

lemma replace_cases:
  assumes "replace_task_if_unchanged fresh clock expected g pres s = Ok (out, s')"
  obtains "s' = s" | r keep where "build_task_record fresh (clock 0) g = Ok r"
      "s' = put_task r (retain_all_owners keep (s\<lparr>rs_tasks := fmdrop (t_task_id expected) (rs_tasks s)\<rparr>))"
  using assms by (auto simp: replace_task_if_unchanged_def ok_iff Let_def split: option.splits if_splits)

lemma task_ops_lifetimes:
  "register_task_if_absent fresh clock g pres s = Ok (ro, s') \<Longrightarrow> lifetimes s' \<subseteq> insert fresh (lifetimes s)"
  "replace_task_if_unchanged fresh clock expected g pres s = Ok (to, s') \<Longrightarrow> lifetimes s' \<subseteq> insert fresh (lifetimes s)"
  "remove_task_if_current lifetime s = Ok (mo, s') \<Longrightarrow> lifetimes s' \<subseteq> lifetimes s"
proof -
  have fresh: "build_task_record fresh now g = Ok r \<Longrightarrow> t_incarnation r = fresh" for now r
    by (auto simp: build_task_record_def ok_iff)
  show "lifetimes s' \<subseteq> insert fresh (lifetimes s)" if "register_task_if_absent fresh clock g pres s = Ok (ro, s')"
    using that fresh put_task_lifetimes
    by (fastforce simp: register_task_if_absent_def ok_iff split: option.splits)
  show "lifetimes s' \<subseteq> insert fresh (lifetimes s)" if "replace_task_if_unchanged fresh clock expected g pres s = Ok (to, s')"
    using that by (cases rule: replace_cases) (use fresh put_task_lifetimes drop_task_lifetimes in blast)+
  show "lifetimes s' \<subseteq> lifetimes s" if "remove_task_if_current lifetime s = Ok (mo, s')"
    using that drop_task_lifetimes by (auto simp: remove_task_if_current_def split: option.splits if_splits)
qed

lemma status_edits_lifetimes:
  "complete_nonterminal_task clock tid inc uri pres s = Ok (b, s') \<Longrightarrow> lifetimes s' \<subseteq> lifetimes s"
  "prepare_task_for_recovery_if_unchanged clock expected s = Ok (r, s') \<Longrightarrow> lifetimes s' \<subseteq> lifetimes s"
  "fail_task_if_unchanged clock expected err s = Ok (out, s') \<Longrightarrow> lifetimes s' \<subseteq> lifetimes s"
  "cancel_task_if_current clock lifetime err' s = Ok (out, s') \<Longrightarrow> lifetimes s' \<subseteq> lifetimes s"
  "cancel_task_if_unchanged clock expected err' s = Ok (out, s') \<Longrightarrow> lifetimes s' \<subseteq> lifetimes s"
  "retire_task_if_unchanged expected err' s = Ok (out, s') \<Longrightarrow> lifetimes s' \<subseteq> lifetimes s"
  "restore_task_after_recovery_if_unchanged prepared original s = Ok (out, s') \<Longrightarrow> lifetimes s' \<subseteq> lifetimes s"
  by (auto simp: status_edit_defs restore_task_after_recovery_if_unchanged_def ok_iff Let_def
      split: option.splits if_splits runner_status.splits dest!: subsetD [OF lifetimes_set_task, rotated 2])

lemmas op_lifetimes =
  status_edits_lifetimes task_ops_lifetimes prepare_tasks_lifetimes finalize_lifetimes

lemmas op_tasks_same = artifact_ops_tasks [THEN lifetimes_cong] artifact_ops_tasks' [THEN lifetimes_cong]

lemma run_op_lifetimes:
  assumes args: "op_args_ok s op" and run: "run_op env op s = Ok s'"
  shows "lifetimes s' \<subseteq> set_option (op_fresh op) \<union> lifetimes s"
proof (cases op)
  case (OpUpdateTasks task_ref f)
  with run obtain out where "update_tasks_by_ref task_ref (\<lambda>rs. bind_outcome (f rs) (\<lambda>rs'. Ok ((), rs'))) s = Ok (out, s')"
    by (auto simp: next_state_Ok_iff)
  from update_ops_lifetimes(1) [OF this] args OpUpdateTasks show ?thesis by (auto simp: ok_iff)
next
  case (OpActivate clock task_ref g owners f)
  with run obtain out where "activate_proof_artifact_with_tasks clock task_ref g owners
       (\<lambda>rs. bind_outcome (f rs) (\<lambda>rs'. Ok (map_option (\<lambda>x. ((), x)) rs'))) s = Ok (out, s')"
    by (auto simp: next_state_Ok_iff)
  from update_ops_lifetimes(2) [OF this] args OpActivate show ?thesis by (auto simp: ok_iff)
next
  case (OpUpdateInvalidate clock k f)
  with run obtain out where "update_tasks_and_invalidate_artifact clock k (\<lambda>rs. bind_outcome (f rs) (\<lambda>x. Ok ((), x))) s = Ok (out, s')"
    by (auto simp: next_state_Ok_iff)
  from update_ops_lifetimes(3) [OF this] args OpUpdateInvalidate show ?thesis by (auto simp: ok_iff)
qed (use run in \<open>auto simp: next_state_Ok_iff dest: op_lifetimes [THEN subsetD, rotated] op_tasks_same\<close>)

section \<open>Artifacts\<close>

lemma task_edit_fields [simp]:
  "rs_artifacts (set_task tid r s) = rs_artifacts s" "rs_artifacts (put_task r s) = rs_artifacts s"
  by (simp_all add: set_task_def put_task_def)

text \<open>Operations on tasks and on pending publications leave the artifacts alone.\<close>

lemma fold_artifacts:
  assumes "\<And>x acc. rs_artifacts (snd (f x acc)) = rs_artifacts (snd acc)"
  shows "rs_artifacts (snd (fold f xs acc)) = rs_artifacts (snd acc)"
  using assms by (induction xs arbitrary: acc) auto

lemma retire_for_removal_artifacts: "rs_artifacts (snd (retire_for_removal r acc)) = rs_artifacts (snd acc)"
  by (auto simp: retire_for_removal_def Let_def split: prod.splits option.splits)

fun touches_artifacts :: "runtime_op \<Rightarrow> bool" where
  "touches_artifacts (OpRegisterPending _ _) = True"
| "touches_artifacts (OpRegisterInvalidated _ _) = True"
| "touches_artifacts (OpActivate _ _ _ _ _) = True"
| "touches_artifacts (OpUpdateInvalidate _ _ _) = True"
| "touches_artifacts (OpRemoveArtifact _ _) = True"
| "touches_artifacts (OpInvalidatePending _ _ _) = True"
| "touches_artifacts (OpPreparePending _ _ _) = True"
| "touches_artifacts (OpPrepareArtifacts _ _) = True"
| "touches_artifacts (OpFinalize _ _ _) = True"
| "touches_artifacts _ = False"

lemma status_edits_artifacts:
  "complete_nonterminal_task clock tid inc uri pres s = Ok (b, s') \<Longrightarrow> rs_artifacts s' = rs_artifacts s"
  "prepare_task_for_recovery_if_unchanged clock expected s = Ok (r, s') \<Longrightarrow> rs_artifacts s' = rs_artifacts s"
  "fail_task_if_unchanged clock expected err s = Ok (out, s') \<Longrightarrow> rs_artifacts s' = rs_artifacts s"
  "cancel_task_if_current clock lifetime err' s = Ok (out, s') \<Longrightarrow> rs_artifacts s' = rs_artifacts s"
  "cancel_task_if_unchanged clock expected err' s = Ok (out, s') \<Longrightarrow> rs_artifacts s' = rs_artifacts s"
  "retire_task_if_unchanged expected err' s = Ok (out, s') \<Longrightarrow> rs_artifacts s' = rs_artifacts s"
  "restore_task_after_recovery_if_unchanged prepared original s = Ok (out, s') \<Longrightarrow> rs_artifacts s' = rs_artifacts s"
  by (auto simp: status_edit_defs restore_task_after_recovery_if_unchanged_def ok_iff Let_def
      split: option.splits if_splits runner_status.splits)

lemma task_ops_artifacts:
  "register_task_if_absent fresh clock g pres s = Ok (ro, s') \<Longrightarrow> rs_artifacts s' = rs_artifacts s"
  "remove_task_if_current lifetime s = Ok (mo, s') \<Longrightarrow> rs_artifacts s' = rs_artifacts s"
  "update_tasks_by_ref task_ref f s = Ok (out, s') \<Longrightarrow> rs_artifacts s' = rs_artifacts s"
  by (auto simp: register_task_if_absent_def remove_task_if_current_def update_tasks_by_ref_def ok_iff
      split: option.splits if_splits)

lemma replace_artifacts:
  "replace_task_if_unchanged fresh clock expected g pres s = Ok (to, s') \<Longrightarrow> rs_artifacts s' = rs_artifacts s"
  by (cases rule: replace_cases) auto

lemma pending_ops_artifacts:
  "record_pending_proof_publication_intent p s = Ok (b, s') \<Longrightarrow> rs_artifacts s' = rs_artifacts s"
  "release_pending_owner k owner s = Ok (b, s') \<Longrightarrow> rs_artifacts s' = rs_artifacts s"
  "remove_pending_if_unowned k s = Ok (b, s') \<Longrightarrow> rs_artifacts s' = rs_artifacts s"
  by (auto simp: record_pending_proof_publication_intent_def release_pending_owner_def
      remove_pending_if_unowned_def ok_iff Let_def split: option.splits if_splits)

lemma prepare_tasks_artifacts:
  assumes "prepare_terminal_task_retention_batch rs s = Ok (out, s')"
  shows "rs_artifacts s' = rs_artifacts s"
proof -
  from assms consider "s' = s" | empty where "s' = snd (fold retire_for_removal rs (empty, s))"
    by (auto simp: prepare_terminal_task_retention_batch_def Let_def ok_iff split: if_splits
        dest!: arg_cong [where f = snd])
  then show ?thesis by cases (simp_all add: fold_artifacts [OF retire_for_removal_artifacts])
qed

lemma other_ops_artifacts:
  assumes "\<not> touches_artifacts op" "run_op env op s = Ok s'"
  shows "rs_artifacts s' = rs_artifacts s"
  using assms
  by (cases op) (auto simp: next_state_Ok_iff dest: status_edits_artifacts task_ops_artifacts replace_artifacts
      pending_ops_artifacts prepare_tasks_artifacts)

text \<open>
  How an operation other than an activation can leave one artifact: as it was, absent,
  or with a record that is pending or invalidated.
\<close>

lemma mark_invalidated_fields [simp]:
  "a_lifecycle (mark_invalidated now now' r) = LInvalidated"
  "artifact_descriptor (mark_invalidated now now' r) = artifact_descriptor r"
  "a_invalidated_at r = Some t \<Longrightarrow> a_invalidated_at (mark_invalidated now now' r) = Some t"
  by (simp_all add: mark_invalidated_def artifact_descriptor_def)

definition active_from :: "runtime_state \<Rightarrow> runtime_state \<Rightarrow> bool" where
  "active_from s s' \<longleftrightarrow>
     (\<forall>key r. fmlookup (rs_artifacts s') key = Some r \<longrightarrow> a_lifecycle r = LActive \<longrightarrow> fmlookup (rs_artifacts s) key = Some r)"

lemma active_from_refl [simp]: "rs_artifacts s' = rs_artifacts s \<Longrightarrow> active_from s s'"
  by (simp add: active_from_def)

lemma active_from_put [simp]:
  "a_lifecycle r \<noteq> LActive \<Longrightarrow> rs_artifacts s1 = rs_artifacts s \<Longrightarrow> active_from s (put_artifact key r s1)"
  by (auto simp: active_from_def split: if_splits)

lemma active_from_trans: "active_from a b \<Longrightarrow> active_from b c \<Longrightarrow> active_from a c"
  by (auto simp: active_from_def)

lemma active_from_fold:
  assumes "\<And>x acc. active_from (snd acc) (snd (f x acc))"
  shows "active_from (snd acc) (snd (fold f xs acc))"
proof (induction xs arbitrary: acc)
  case (Cons x xs)
  from active_from_trans [OF assms [of acc x] Cons [of "f x acc"]] show ?case by simp
qed simp

lemma prepare_artifact_active: "active_from (snd acc) (snd (prepare_artifact now ow x acc))"
  by (cases acc) (auto simp: prepare_artifact_def Let_def split: option.splits)

lemma finalize_artifact_active: "active_from (snd acc) (snd (finalize_artifact x acc))"
  by (cases acc) (auto simp: finalize_artifact_def Let_def active_from_def split: if_splits)

lemma finalize_pending_artifacts: "rs_artifacts (snd (finalize_pending ow x acc)) = rs_artifacts (snd acc)"
  by (cases acc) (auto simp: finalize_pending_def Let_def split: option.splits)

lemma finalize_task_artifacts: "rs_artifacts (snd (finalize_task x acc)) = rs_artifacts (snd acc)"
  by (cases acc) (auto simp: finalize_task_def)

text \<open>A finalization reaches the loop over the artifacts with the artifacts unchanged.\<close>

lemma finalize_artifacts_start:
  assumes "finalize_terminal_task_retention_batch rs as ps s = Ok (out, s')"
  obtains f s3 where "rs_artifacts s3 = rs_artifacts s" "fold finalize_artifact as (f, s3) = (out, s')"
    "validate_terminal_retention_finalization rs as ps = Ok ()"
  using assms
proof (cases rule: finalize_Ok)
  case (1 f1 s1 f2 s2)
  have "rs_artifacts s1 = rs_artifacts s"
    using arg_cong [OF 1(1), of "\<lambda>x. rs_artifacts (snd x)"] by (simp add: fold_artifacts [OF finalize_pending_artifacts])
  moreover have "rs_artifacts s2 = rs_artifacts s1"
    using arg_cong [OF 1(2), of "\<lambda>x. rs_artifacts (snd x)"] by (simp add: fold_artifacts [OF finalize_task_artifacts])
  ultimately show ?thesis by (intro that [OF _ 1(3,4)]) simp
qed

lemma artifact_ops_active:
  "register_pending_proof_artifact env clock g s = Ok (lc, s') \<Longrightarrow> active_from s s'"
  "register_invalidated_proof_artifact env clock g s = Ok (u, s') \<Longrightarrow> active_from s s'"
  "remove_proof_artifact_if_descriptor k d s = Ok (b, s') \<Longrightarrow> active_from s s'"
  "update_tasks_and_invalidate_artifact clock k h s = Ok (x, s') \<Longrightarrow> active_from s s'"
  "prepare_pending_canonical_for_retention env clock p d' s = Ok (eo, s') \<Longrightarrow> active_from s s'"
      apply (auto simp: register_pending_proof_artifact_def ok_iff Let_def split: option.splits if_splits prod.splits)[1]
     apply (auto simp: register_invalidated_proof_artifact_def proof_artifact_record_def ok_iff Let_def
      split: option.splits if_splits)[1]
    apply (auto simp: remove_proof_artifact_if_descriptor_def active_from_def Let_def split: option.splits if_splits)[1]
   apply (auto simp: update_tasks_and_invalidate_artifact_def ok_iff Let_def split: option.splits if_splits)[1]
  apply (auto simp: prepare_pending_canonical_for_retention_def proof_artifact_record_def ok_iff Let_def
      split: option.splits if_splits)[1]
  done

lemma artifact_ops_active':
  "invalidate_pending_mutation env clock k d s = Ok (bo, s') \<Longrightarrow> active_from s s'"
  "prepare_artifact_retention_batch clock rs s = Ok (ap, s') \<Longrightarrow> active_from s s'"
  "finalize_terminal_task_retention_batch ts as ps s = Ok (rf, s') \<Longrightarrow> active_from s s'"
proof -
  show "active_from s s'" if "invalidate_pending_mutation env clock k d s = Ok (bo, s')"
    using that unfolding invalidate_pending_mutation_def
    by (cases rule: mark_unowned_cases) (auto simp: proof_artifact_record_def Let_def)
  show "active_from s s'" if "prepare_artifact_retention_batch clock rs s = Ok (ap, s')"
    using that active_from_fold [of "prepare_artifact (clock 0) (owned_artifacts s)" "(_, s)" rs, OF prepare_artifact_active]
    by (auto simp: prepare_artifact_retention_batch_def Let_def ok_iff split: if_splits dest!: arg_cong [where f = snd])
  show "active_from s s'" if "finalize_terminal_task_retention_batch ts as ps s = Ok (rf, s')"
    using that
  proof (cases rule: finalize_artifacts_start)
    case (1 f s3)
    have "active_from s3 s'" using active_from_fold [of finalize_artifact "(f, s3)" as, OF finalize_artifact_active] 1(2) by simp
    with 1(1) show ?thesis by (simp add: active_from_def)
  qed
qed

lemma run_op_active:
  assumes "run_op env op s = Ok s'" and "\<And>clock task_ref g owners f. op \<noteq> OpActivate clock task_ref g owners f"
  shows "active_from s s'"
proof (cases "touches_artifacts op")
  case True
  show ?thesis
  proof (cases op)
    case (OpActivate clock task_ref g owners f)
    then show ?thesis using assms(2) by blast
  qed (use True assms(1) in \<open>auto simp: next_state_Ok_iff dest: artifact_ops_active artifact_ops_active'\<close>)
next
  case False
  then show ?thesis using other_ops_artifacts [OF _ assms(1)] by simp
qed

subsection \<open>Invalidated artifacts\<close>

text \<open>The artifact of a key is invalidated, since a given time, with a given descriptor.\<close>

definition record_fenced :: "proof_artifact_descriptor \<Rightarrow> int \<Rightarrow> artifact_record \<Rightarrow> bool" where
  "record_fenced d t r \<longleftrightarrow> a_lifecycle r = LInvalidated \<and> artifact_descriptor r = d \<and> a_invalidated_at r = Some t"

definition fenced :: "string \<Rightarrow> proof_artifact_descriptor \<Rightarrow> int \<Rightarrow> runtime_state \<Rightarrow> bool" where
  "fenced key d t s \<longleftrightarrow> (\<exists>r. fmlookup (rs_artifacts s) key = Some r \<and> record_fenced d t r)"

fun op_removes :: "string \<Rightarrow> proof_artifact_descriptor \<Rightarrow> runtime_op \<Rightarrow> bool" where
  "op_removes key d (OpRemoveArtifact k d') \<longleftrightarrow> artifact_record_key k = key \<and> d' = d"
| "op_removes key d (OpFinalize rs as ps) \<longleftrightarrow>
     (\<exists>e \<in> set as. artifact_record_key (ae_key e) = key \<and> ae_descriptor e = d)"
| "op_removes key d _ \<longleftrightarrow> False"

lemma fenced_cong: "fenced key d t s \<Longrightarrow> rs_artifacts s' = rs_artifacts s \<Longrightarrow> fenced key d t s'"
  by (simp add: fenced_def)

lemma update_invalidate_cases:
  assumes "update_tasks_and_invalidate_artifact clock k h s = Ok (out, s')"
  obtains "rs_artifacts s' = rs_artifacts s"
  | r where "fmlookup (rs_artifacts s) (artifact_record_key k) = Some r"
      "rs_artifacts s' = fmupd (artifact_record_key k) (mark_invalidated (clock 0) (clock 1) r) (rs_artifacts s)"
proof -
  from assms obtain o' b records where upd: "h (sort_key t_task_id (artifact_task_records s k)) = Ok (o', b, records)"
    by (auto simp: update_tasks_and_invalidate_artifact_def ok_iff Let_def)
  show ?thesis
    using assms that unfolding update_tasks_and_invalidate_artifact_def Let_def upd bind_outcome.simps prod.case
    by (auto split: if_splits option.splits)
qed

lemma record_fenced_mark: "record_fenced d t r \<Longrightarrow> record_fenced d t (mark_invalidated now now' r)"
  by (auto simp: record_fenced_def)

lemma fenced_put:
  assumes "fenced key d t s" "rs_artifacts s1 = rs_artifacts s"
    and "\<And>r. key' = key \<Longrightarrow> fmlookup (rs_artifacts s) key' = Some r \<Longrightarrow> record_fenced d t r \<Longrightarrow> record_fenced d t r'"
  shows "fenced key d t (put_artifact key' r' s1)"
  using assms by (auto simp: fenced_def)

lemma fenced_fold:
  assumes "fenced key d t (snd acc)"
    and "\<And>x acc. x \<in> set xs \<Longrightarrow> fenced key d t (snd acc) \<Longrightarrow> fenced key d t (snd (f x acc))"
  shows "fenced key d t (snd (fold f xs acc))"
  using assms by (rule fold_state_invariant)

lemma artifact_ops_fenced:
  assumes "fenced key d t s"
  shows "register_pending_proof_artifact env clock g s = Ok (lc, s') \<Longrightarrow> fenced key d t s'"
    and "register_invalidated_proof_artifact env clock g s = Ok (u, s') \<Longrightarrow> fenced key d t s'"
    and "remove_proof_artifact_if_descriptor k d' s = Ok (b, s') \<Longrightarrow> \<not> (artifact_record_key k = key \<and> d' = d) \<Longrightarrow> fenced key d t s'"
    and "update_tasks_and_invalidate_artifact clock k h s = Ok (x, s') \<Longrightarrow> fenced key d t s'"
    and "prepare_pending_canonical_for_retention env clock p dd s = Ok (eo, s') \<Longrightarrow> fenced key d t s'"
proof -
  show "fenced key d t s'" if "register_pending_proof_artifact env clock g s = Ok (lc, s')"
    using that assms
    by (auto simp: register_pending_proof_artifact_def ok_iff Let_def record_fenced_def
        split: option.splits if_splits prod.splits intro!: fenced_put)
  show "fenced key d t s'" if "register_invalidated_proof_artifact env clock g s = Ok (u, s')"
    using that assms
    by (auto simp: register_invalidated_proof_artifact_def ok_iff record_fenced_mark
        split: option.splits if_splits prod.splits intro!: fenced_put)
  show "fenced key d t s'"
    if "remove_proof_artifact_if_descriptor k d' s = Ok (b, s')" "\<not> (artifact_record_key k = key \<and> d' = d)"
    using that assms
    by (auto simp: remove_proof_artifact_if_descriptor_def fenced_def record_fenced_def Let_def split: option.splits if_splits)
  show "fenced key d t s'" if "update_tasks_and_invalidate_artifact clock k h s = Ok (x, s')"
    using that
  proof (cases rule: update_invalidate_cases)
    case 1
    then show ?thesis by (rule fenced_cong [OF assms])
  next
    case (2 r)
    then show ?thesis using assms by (auto simp: fenced_def record_fenced_mark)
  qed
  show "fenced key d t s'" if "prepare_pending_canonical_for_retention env clock p dd s = Ok (eo, s')"
    using that assms
    by (auto simp: prepare_pending_canonical_for_retention_def ok_iff split: option.splits if_splits prod.splits
        intro!: fenced_put)
qed

lemma prepare_artifact_fenced:
  assumes "fenced key d t (snd acc)"
  shows "fenced key d t (snd (prepare_artifact now ow x acc))"
  using assms
  by (cases acc) (auto simp: prepare_artifact_def Let_def record_fenced_def split: option.splits intro!: fenced_put)

lemma finalize_artifact_fenced:
  assumes "fenced key d t (snd acc)" "\<not> (artifact_record_key (ae_key e) = key \<and> ae_descriptor e = d)"
  shows "fenced key d t (snd (finalize_artifact e acc))"
  using assms
  by (cases acc) (auto simp: finalize_artifact_def fenced_def record_fenced_def expectation_of_def Let_def split: option.splits)

lemma run_op_fenced:
  assumes fen: "fenced key d t s" and run: "run_op env op s = Ok s'" and keep: "\<not> op_removes key d op"
  shows "fenced key d t s'"
proof (cases op)
  case (OpUpdateInvalidate clock k f)
  with run artifact_ops_fenced(4) [OF fen] show ?thesis by (auto simp: next_state_Ok_iff)
next
  case (OpActivate clock task_ref g owners f)
  with run obtain out where "activate_proof_artifact_with_tasks clock task_ref g owners
       (\<lambda>rs. bind_outcome (f rs) (\<lambda>rs'. Ok (map_option (\<lambda>x. ((), x)) rs'))) s = Ok (out, s')"
    by (auto simp: next_state_Ok_iff)
  then show ?thesis
  proof (cases rule: activate_Ok)
    case (2 o' records' pending artifact)
    then show ?thesis using fen by (auto simp: fenced_def record_fenced_def)
  qed (use fen in simp)
next
  case (OpInvalidatePending clock k dd)
  with run obtain out where "mark_unowned_pending_publication_invalidated clock k
      (map_option (\<lambda>d. snd (proof_artifact_record env clock \<lparr>ar_key = k, ar_descriptor = d\<rparr> LInvalidated)) dd) s = Ok (out, s')"
    by (auto simp: next_state_Ok_iff invalidate_pending_mutation_def)
  then show ?thesis
  proof (cases rule: mark_unowned_cases)
    case (2 r)
    then show ?thesis using fen by (auto intro!: fenced_put)
  next
    case (3 r r')
    then show ?thesis using fen by (auto simp: record_fenced_mark intro!: fenced_put)
  qed (use fen in simp)
next
  case (OpPrepareArtifacts clock rs)
  with run consider "s' = s" | empty where "s' = snd (fold (prepare_artifact (clock 0) (owned_artifacts s)) rs (empty, s))"
    by (auto simp: next_state_Ok_iff prepare_artifact_retention_batch_def Let_def ok_iff split: if_splits
        dest!: arg_cong [where f = snd])
  then show ?thesis using fen by cases (auto intro!: fenced_fold prepare_artifact_fenced)
next
  case (OpFinalize rs as ps)
  with run obtain out where "finalize_terminal_task_retention_batch rs as ps s = Ok (out, s')"
    by (auto simp: next_state_Ok_iff)
  then show ?thesis
  proof (cases rule: finalize_artifacts_start)
    case (1 f s3)
    have "fenced key d t (snd (fold finalize_artifact as (f, s3)))"
      using fen 1(1) keep OpFinalize by (intro fenced_fold finalize_artifact_fenced) (auto intro: fenced_cong)
    then show ?thesis using 1(2) by simp
  qed
qed (use run keep fenced_cong [OF fen other_ops_artifacts [OF _ run]] in
      \<open>auto simp: next_state_Ok_iff dest: artifact_ops_fenced [OF fen]\<close>)

lemma run_ops_fenced:
  assumes "fenced key d t s" "\<forall>op \<in> set ops. \<not> op_removes key d op"
  shows "fenced key d t (run_history env ops s)"
  using assms
proof (induction ops arbitrary: s)
  case (Cons op ops)
  have "fenced key d t (apply_op env op s)"
    using Cons.prems run_op_fenced by (auto simp: apply_op_def split: outcome.splits)
  with Cons show ?case by simp
qed simp

section \<open>What a finalization removes\<close>

lemma finalize_task_step:
  "rs_tasks (snd (finalize_task x acc)) =
     (if fmlookup (rs_tasks (snd acc)) (t_task_id x) = Some x then fmdrop (t_task_id x) (rs_tasks (snd acc))
      else rs_tasks (snd acc))"
  "rf_removed_tasks (fst (finalize_task x acc)) =
     rf_removed_tasks (fst acc) @
     (if fmlookup (rs_tasks (snd acc)) (t_task_id x) = Some x then [task_lifetime_of x] else [])"
  by (cases acc; simp add: finalize_task_def)+

lemma finalize_artifact_step:
  "rs_artifacts (snd (finalize_artifact x acc)) =
     (if map_option expectation_of (fmlookup (rs_artifacts (snd acc)) (artifact_record_key (ae_key x))) = Some x
      then fmdrop (artifact_record_key (ae_key x)) (rs_artifacts (snd acc)) else rs_artifacts (snd acc))"
  by (cases acc) (auto simp: finalize_artifact_def Let_def split: option.splits)

lemma finalize_pending_step:
  "rs_pending (snd (finalize_pending ow x acc)) =
     (if fmlookup (rs_pending (snd acc)) (artifact_record_key (p_key x)) = Some x \<and> artifact_record_key (p_key x) \<notin> ow
      then fmdrop (artifact_record_key (p_key x)) (rs_pending (snd acc)) else rs_pending (snd acc))"
  by (cases acc) (auto simp: finalize_pending_def Let_def split: option.splits)

lemma fold_finalize_task_lookup:
  "fmlookup (rs_tasks (snd (fold finalize_task rs acc))) tid =
     (if \<exists>r \<in> set rs. t_task_id r = tid \<and> fmlookup (rs_tasks (snd acc)) tid = Some r then None
      else fmlookup (rs_tasks (snd acc)) tid)"
proof (induction rs arbitrary: acc)
  case (Cons x rs)
  show ?case
    by (auto simp: Cons.IH finalize_task_step)
qed simp

lemma fold_finalize_task_removed:
  "set (rf_removed_tasks (fst (fold finalize_task rs acc))) =
     set (rf_removed_tasks (fst acc)) \<union> task_lifetime_of ` {r \<in> set rs. fmlookup (rs_tasks (snd acc)) (t_task_id r) = Some r}"
proof (induction rs arbitrary: acc)
  case (Cons x rs)
  show ?case
    by (auto simp: Cons.IH finalize_task_step split: if_splits)
qed simp

lemma fold_finalize_artifact_lookup:
  "fmlookup (rs_artifacts (snd (fold finalize_artifact as acc))) key =
     (if \<exists>e \<in> set as. artifact_record_key (ae_key e) = key
           \<and> map_option expectation_of (fmlookup (rs_artifacts (snd acc)) key) = Some e then None
      else fmlookup (rs_artifacts (snd acc)) key)"
proof (induction as arbitrary: acc)
  case (Cons x as)
  show ?case
    by (auto simp: Cons.IH finalize_artifact_step)
qed simp

lemma fold_finalize_pending_lookup:
  "fmlookup (rs_pending (snd (fold (finalize_pending ow) ps acc))) key =
     (if \<exists>p \<in> set ps. artifact_record_key (p_key p) = key \<and> key \<notin> ow
           \<and> fmlookup (rs_pending (snd acc)) key = Some p then None
      else fmlookup (rs_pending (snd acc)) key)"
proof (induction ps arbitrary: acc)
  case (Cons x ps)
  show ?case
    by (auto simp: Cons.IH finalize_pending_step)
qed simp

lemma fold_pending:
  assumes "\<And>x acc. rs_pending (snd (f x acc)) = rs_pending (snd acc)"
  shows "rs_pending (snd (fold f xs acc)) = rs_pending (snd acc)"
  using assms by (induction xs arbitrary: acc) auto

lemma finalize_task_pending: "rs_pending (snd (finalize_task x acc)) = rs_pending (snd acc)"
  by (cases acc) (auto simp: finalize_task_def)

lemma finalize_artifact_pending: "rs_pending (snd (finalize_artifact x acc)) = rs_pending (snd acc)"
  by (cases acc) (auto simp: finalize_artifact_def Let_def)

lemma finalize_pending_removed: "rf_removed_tasks (fst (finalize_pending ow x acc)) = rf_removed_tasks (fst acc)"
  by (cases acc) (auto simp: finalize_pending_def Let_def split: option.splits)

lemma fold_finalize_pending_removed:
  "rf_removed_tasks (fst (fold (finalize_pending ow) ps acc)) = rf_removed_tasks (fst acc)"
  by (induction ps arbitrary: acc) (simp_all add: finalize_pending_removed)

end
