(* ===== verification/Runtime_Props.thy ===== *)
theory Runtime_Props
  imports Runtime_Sound
begin

text \<open>
  The theorems about the operations of the runtime manager, over all sequences of operations, and
  a concrete state on which they are exercised: one running task that owns the pending
  publication of one artifact, beside an invalidated artifact.
\<close>

section \<open>A concrete state\<close>

definition ex_route :: pipeline_route where
  "ex_route = \<lparr>route_guest = GuestSp1, route_runner = LocalRunner\<rparr>"

definition ex_key :: "string \<Rightarrow> proof_artifact_key" where
  "ex_key ref = \<lparr>ak_network_pair = ''net'', ak_pipeline_key = ShastaSp1, ak_route = ex_route, ak_proof_ref = ref\<rparr>"

definition ex_task :: runtime_task where
  "ex_task = \<lparr>t_task_id = ''task'', t_incarnation = 7, t_pipeline_key = ShastaSp1, t_route = ex_route,
     t_task_kind = ''proposal'', t_network_pair = ''net'', t_artifact_refs = [''ref''], t_status = RRunning,
     t_retention = Retained, t_image_ref = None, t_proof_uri = None, t_error = None, t_metadata = ''{}'',
     t_fingerprint = ''fp'', t_updated_at = 0\<rparr>"

definition ex_descriptor :: proof_artifact_descriptor where
  "ex_descriptor = \<lparr>d_proof_uri = ''uri'', d_content_hash = ''hash'', d_generation = Some 1\<rparr>"

definition ex_artifact :: "string \<Rightarrow> artifact_lifecycle \<Rightarrow> int option \<Rightarrow> artifact_record" where
  "ex_artifact ref lc at = \<lparr>a_environment = ''dev'', a_network_pair = ''net'', a_proof_ref = ref,
     a_pipeline_key = ShastaSp1, a_route = ex_route, a_proof_uri = ''uri'', a_content_hash = ''hash'',
     a_generation = Some 1, a_lifecycle = lc, a_invalidated_at = at, a_updated_at = 0\<rparr>"

definition ex_pending :: pending_publication where
  "ex_pending = \<lparr>p_key = ex_key ''ref'', p_content_hash = ''hash'', p_owners = [7]\<rparr>"

definition ex_state :: runtime_state where
  "ex_state = \<lparr>rs_tasks = fmupd ''task'' ex_task fmempty,
     rs_artifacts = fmupd (artifact_record_key (ex_key ''ref'')) (ex_artifact ''ref'' LPending None)
       (fmupd (artifact_record_key (ex_key ''old'')) (ex_artifact ''old'' LInvalidated (Some 5)) fmempty),
     rs_pending = fmupd (artifact_record_key (ex_key ''ref'')) ex_pending fmempty\<rparr>"

definition ex_complete :: "runtime_task list \<Rightarrow> (string, runtime_task list option) outcome" where
  "ex_complete rs = Ok (Some (map (\<lambda>r. r\<lparr>t_status := RCompleted\<rparr>) rs))"

definition ex_activate :: runtime_op where
  "ex_activate = OpActivate (\<lambda>_. 9) ''ref'' \<lparr>ar_key = ex_key ''ref'', ar_descriptor = ex_descriptor\<rparr> [7] ex_complete"

lemma ex_keys [simp]:
  "ex_key ref = ex_key ref' \<longleftrightarrow> ref = ref'" "artifact_key_of (ex_artifact ref lc at) = ex_key ref"
  "artifact_descriptor (ex_artifact ref lc at) = ex_descriptor" "a_lifecycle (ex_artifact ref lc at) = lc"
  "ak_proof_ref (ex_key ref) = ref" "(ex_key ref)\<lparr>ak_proof_ref := ref'\<rparr> = ex_key ref'"
  by (simp_all add: ex_key_def ex_artifact_def artifact_key_of_def artifact_descriptor_def ex_descriptor_def)

lemma ex_lookups [simp]:
  "fmlookup (rs_tasks ex_state) tid = (if tid = ''task'' then Some ex_task else None)"
  "fmlookup (rs_artifacts ex_state) (artifact_record_key (ex_key ref)) =
     (if ref = ''ref'' then Some (ex_artifact ''ref'' LPending None)
      else if ref = ''old'' then Some (ex_artifact ''old'' LInvalidated (Some 5)) else None)"
  "fmlookup (rs_pending ex_state) (artifact_record_key (ex_key ref)) = (if ref = ''ref'' then Some ex_pending else None)"
  by (auto simp: ex_state_def)

lemma ex_matches: "task_matches_artifact_identity ex_task (ex_key ''ref'')"
  by (simp add: task_matches_artifact_identity_def task_references_def ex_task_def ex_key_def)

lemma ex_route_ok: "canonicalize_persisted_route ShastaSp1 ex_route = Some ex_route"
  by (simp add: canonicalize_persisted_route_def supports_route_def ex_route_def)

lemma ex_state_ok: "runtime_state_ok ''dev'' ex_state"
proof -
  have "task_ok ''task'' ex_task" by (simp add: task_ok_def ex_task_def ex_route_ok)
  moreover have "artifact_ok ''dev'' (artifact_record_key (ex_key ref)) (ex_artifact ref lc at)"
    if "ref \<noteq> []" "(lc = LInvalidated) = (at \<noteq> None)" for ref lc at
    using that by (simp add: artifact_ok_def ex_artifact_def ex_route_ok artifact_key_of_def ex_key_def)
  moreover have "owner_known (rs_tasks ex_state) (ex_key ''ref'') 7"
    unfolding owner_known_def using ex_matches by (intro exI [of _ "''task''"] exI [of _ ex_task]) (simp add: ex_task_def)
  then have "pending_ok (rs_tasks ex_state) (artifact_record_key (ex_key ''ref'')) ex_pending"
    by (simp add: pending_ok_def ex_pending_def ex_key_def ex_route_ok)
  ultimately show ?thesis
    by (auto simp: runtime_state_ok_def ex_state_def unique_by_def split: if_splits)
qed

lemma ex_activate_args: "op_args_ok s ex_activate"
  by (auto simp: ex_activate_def ex_complete_def list_all2_map2 good_update_def same_identity_def
      intro!: list.rel_refl)

section \<open>Validity\<close>

text \<open>
  C8: After any sequence of operations whose callers keep their contract, the state that any
  further operation produces passes the validation in front of the commit. So the validation of a
  committed state never refuses an operation of the manager, and the state is valid at every moment.
\<close>

theorem runtime_ops_pass_validation:
  assumes "validate_runtime_state env s = Ok ()" "args_ok env ops s"
    and "op_args_ok (run_history env ops s) op" "run_op env op (run_history env ops s) = Ok s'"
  shows "validate_runtime_state env (run_history env ops s) = Ok () \<and> validate_runtime_state env s' = Ok ()"
  using assms run_ops_ok run_op_keeps_ok by (simp add: validate_runtime_state_iff) blast

lemma ex_records:
  "sort_key t_task_id (artifact_task_records ex_state (ex_key ''ref'')) = [ex_task]"
proof -
  have "fm_values (rs_tasks ex_state) = [ex_task]"
    by (simp add: fm_values_def ex_state_def sorted_list_of_fset.rep_eq)
  then show ?thesis by (simp add: artifact_task_records_def ex_matches)
qed

lemma ex_activate_runs:
  obtains s' where "run_op ''dev'' ex_activate ex_state = Ok s'"
    "fmlookup (rs_artifacts s') (artifact_record_key (ex_key ''ref'')) =
       Some (ex_artifact ''ref'' LPending None\<lparr>a_lifecycle := LActive, a_invalidated_at := None, a_updated_at := 9\<rparr>)"
proof -
  have "t_incarnation ex_task = 7" "t_status ex_task = RRunning" "p_content_hash ex_pending = ''hash''"
    "d_content_hash ex_descriptor = ''hash''"
    by (simp_all add: ex_task_def ex_pending_def ex_descriptor_def)
  then show ?thesis
    using that by (simp add: ex_activate_def activate_proof_artifact_with_tasks_def Let_def ex_records ok_or_def
        ensure_def ex_complete_def next_state_def Collect_conv_if)
qed

theorem runtime_ops_pass_validation_witness:
  "\<exists>s'. run_op ''dev'' ex_activate (run_history ''dev'' [] ex_state) = Ok s' \<and> validate_runtime_state ''dev'' s' = Ok ()"
proof -
  obtain s' where s': "run_op ''dev'' ex_activate ex_state = Ok s'" by (rule ex_activate_runs)
  have "validate_runtime_state ''dev'' ex_state = Ok ()" by (simp add: validate_runtime_state_iff ex_state_ok)
  with runtime_ops_pass_validation [of "''dev''" ex_state "[]" ex_activate s'] s' ex_activate_args show ?thesis by simp
qed

section \<open>Lifetimes\<close>

lemma run_ops_lifetimes:
  assumes "args_ok env ops s" "u \<notin> lifetimes s" "\<forall>op \<in> set ops. op_fresh op \<noteq> Some u"
  shows "u \<notin> lifetimes (run_history env ops s)"
  using assms
proof (induction ops arbitrary: s)
  case (Cons op ops)
  have "lifetimes (apply_op env op s) \<subseteq> set_option (op_fresh op) \<union> lifetimes s"
    using run_op_lifetimes Cons.prems(1) by (auto simp: apply_op_def split: outcome.splits)
  with Cons show ?case by fastforce
qed simp

text \<open>
  C13: A task lifetime that has ended stays ended. If no task carries an incarnation and no
  operation is given it as a fresh one, then after any sequence of operations no task
  carries it, no pending publication lists it as an owner, and every operation that is
  addressed to it leaves the state exactly as it is, whatever task has taken the same id since.
\<close>

theorem ended_lifetime_stays_ended:
  assumes "validate_runtime_state env s = Ok ()" "args_ok env ops s"
    and "u \<notin> lifetimes s" "\<forall>op \<in> set ops. op_fresh op \<noteq> Some u" "op_lifetime late = Some u"
  shows "u \<notin> lifetimes (run_history env ops s)
    \<and> (\<forall>key p. fmlookup (rs_pending (run_history env ops s)) key = Some p \<longrightarrow> u \<notin> set (p_owners p))
    \<and> apply_op env late (run_history env ops s) = run_history env ops s"
proof -
  let ?s = "run_history env ops s"
  have ok: "runtime_state_ok env ?s" using assms(1,2) by (simp add: validate_runtime_state_iff run_ops_ok)
  have gone: "u \<notin> lifetimes ?s" using assms(2-4) by (rule run_ops_lifetimes)
  have "u \<notin> set (p_owners p)" if "fmlookup (rs_pending ?s) key = Some p" for key p
    using ok_pending_lookup [OF ok that] gone by (auto simp: pending_ok_def owner_known_def lifetimes_def)
  then show ?thesis using gone addressed_op_unchanged [OF assms(5) gone] by blast
qed

theorem ended_lifetime_stays_ended_witness:
  "apply_op ''dev'' (OpCancelCurrent (\<lambda>_. 9) \<lparr>lt_task_id = ''task'', lt_incarnation = 3\<rparr> None)
     (run_history ''dev'' [ex_activate] ex_state) = run_history ''dev'' [ex_activate] ex_state"
proof -
  have "validate_runtime_state ''dev'' ex_state = Ok ()" by (simp add: validate_runtime_state_iff ex_state_ok)
  moreover have "3 \<notin> lifetimes ex_state" by (auto simp: lifetimes_def ex_task_def split: if_splits)
  moreover have "op_fresh ex_activate = None" by (simp add: ex_activate_def)
  ultimately show ?thesis
    using ended_lifetime_stays_ended [of "''dev''" ex_state "[ex_activate]" 3
        "OpCancelCurrent (\<lambda>_. 9) \<lparr>lt_task_id = ''task'', lt_incarnation = 3\<rparr> None"] ex_activate_args
    by simp
qed

section \<open>Artifacts\<close>

text \<open>
  C11: An invalidated proof artifact is never served again. Through any sequence of operations that
  does not remove exactly this artifact, its record stays invalidated with its descriptor and
  its time of invalidation, a lookup of the artifact finds nothing, and no admission of a task that
  relies on it succeeds.
\<close>

theorem invalidated_artifact_never_served:
  assumes "validate_runtime_state env s = Ok ()"
    and "fmlookup (rs_artifacts s) (artifact_record_key k) = Some r" "a_lifecycle r = LInvalidated"
    and "\<forall>op \<in> set ops. \<not> op_removes (artifact_record_key k) (artifact_descriptor r) op"
  shows "(\<exists>r'. fmlookup (rs_artifacts (run_history env ops s)) (artifact_record_key k) = Some r'
        \<and> a_lifecycle r' = LInvalidated \<and> artifact_descriptor r' = artifact_descriptor r
        \<and> a_invalidated_at r' = a_invalidated_at r)
    \<and> get_proof_artifact (run_history env ops s) k = None
    \<and> check_precondition (run_history env ops s) \<lparr>pre_key = k, pre_descriptor = d\<rparr> \<noteq> Ok ()"
proof -
  have "artifact_ok env (artifact_record_key k) r"
    using assms(1,2) by (simp add: validate_runtime_state_iff ok_artifact_lookup)
  with assms(3) obtain t where t: "a_invalidated_at r = Some t" by (auto simp: artifact_ok_def)
  have "fenced (artifact_record_key k) (artifact_descriptor r) t (run_history env ops s)"
    using assms(2-4) t by (intro run_ops_fenced) (auto simp: fenced_def record_fenced_def)
  then show ?thesis
    using t by (auto simp: fenced_def record_fenced_def get_proof_artifact_def check_precondition_def)
qed

theorem invalidated_artifact_never_served_witness:
  "get_proof_artifact (run_history ''dev'' [ex_activate] ex_state) (ex_key ''old'') = None"
proof -
  have "validate_runtime_state ''dev'' ex_state = Ok ()" by (simp add: validate_runtime_state_iff ex_state_ok)
  then show ?thesis
    using invalidated_artifact_never_served [of "''dev''" ex_state "ex_key ''old''"
        "ex_artifact ''old'' LInvalidated (Some 5)" "[ex_activate]"]
    by (simp add: ex_activate_def)
qed

text \<open>
  C12: A proof artifact becomes visible in one way only. If after an operation a lookup finds an
  artifact record that it did not find before, then the operation was an activation of just this
  artifact and descriptor, the artifact was registered and not invalidated, a publication of it
  was pending, with the same content unless the artifact was active already, and all owners the activation names
  are lifetimes of tasks that refer to the activated reference and have neither failed nor been cancelled.
\<close>

theorem artifact_visible_only_by_activation:
  assumes "run_op env op s = Ok s'" "get_proof_artifact s' k = Some r'" "get_proof_artifact s k \<noteq> Some r'"
  shows "\<exists>clock task_ref g owners f pending artifact.
      op = OpActivate clock task_ref g owners f \<and> ar_key g = k \<and> ar_descriptor g = artifact_descriptor r'
      \<and> fmlookup (rs_artifacts s) (artifact_record_key k) = Some artifact
      \<and> artifact_descriptor artifact = artifact_descriptor r' \<and> a_lifecycle artifact \<noteq> LInvalidated
      \<and> fmlookup (rs_pending s) (artifact_record_key k) = Some pending
      \<and> (a_lifecycle artifact = LActive \<or> p_content_hash pending = a_content_hash r')
      \<and> owners \<noteq> []
      \<and> (\<forall>owner \<in> set owners. \<exists>tid r. fmlookup (rs_tasks s) tid = Some r \<and> t_incarnation r = owner
           \<and> task_matches_artifact_identity r (k\<lparr>ak_proof_ref := task_ref\<rparr>) \<and> \<not> status_dead (t_status r))"
proof -
  have r': "fmlookup (rs_artifacts s') (artifact_record_key k) = Some r'" "a_lifecycle r' = LActive"
    using assms(2) by (auto simp: get_proof_artifact_def split: option.splits if_splits)
  have new: "fmlookup (rs_artifacts s) (artifact_record_key k) \<noteq> Some r'"
    using assms(3) r'(2) by (auto simp: get_proof_artifact_def)
  then have "\<not> active_from s s'" using r' by (auto simp: active_from_def)
  then obtain clock task_ref g owners f where op: "op = OpActivate clock task_ref g owners f"
    using run_op_active [OF assms(1)] by blast
  with assms(1) obtain out where "activate_proof_artifact_with_tasks clock task_ref g owners
       (\<lambda>rs. bind_outcome (f rs) (\<lambda>rs'. Ok (map_option (\<lambda>x. ((), x)) rs'))) s = Ok (out, s')"
    by (auto simp: next_state_Ok_iff)
  then show ?thesis
  proof (cases rule: activate_Ok)
    case 1
    with r' new show ?thesis by simp
  next
    case (2 o' records' pending artifact)
    have k: "ar_key g = k" using r'(1) new by (auto simp: 2(10) split: if_splits)
    then have "r' = artifact\<lparr>a_lifecycle := LActive, a_invalidated_at := None, a_updated_at := clock 0\<rparr>"
      using r'(1) by (simp add: 2(10))
    then have "artifact_descriptor r' = artifact_descriptor artifact"
      "a_content_hash r' = d_content_hash (artifact_descriptor artifact)"
      by (simp_all add: artifact_descriptor_def)
    then show ?thesis using op k 2(2-8) by auto
  qed
qed

theorem artifact_visible_only_by_activation_witness:
  "\<exists>s' r'. run_op ''dev'' ex_activate ex_state = Ok s' \<and> get_proof_artifact s' (ex_key ''ref'') = Some r'
     \<and> p_content_hash ex_pending = a_content_hash r'"
proof -
  obtain s' where s': "run_op ''dev'' ex_activate ex_state = Ok s'"
    and "fmlookup (rs_artifacts s') (artifact_record_key (ex_key ''ref'')) =
      Some (ex_artifact ''ref'' LPending None\<lparr>a_lifecycle := LActive, a_invalidated_at := None, a_updated_at := 9\<rparr>)"
    by (rule ex_activate_runs)
  then obtain r' where r': "get_proof_artifact s' (ex_key ''ref'') = Some r'" by (simp add: get_proof_artifact_def)
  moreover have "get_proof_artifact ex_state (ex_key ''ref'') = None" by (simp add: get_proof_artifact_def)
  ultimately have "p_content_hash ex_pending = a_content_hash r'"
    using artifact_visible_only_by_activation [OF s', of "ex_key ''ref''" r'] by (auto split: if_splits)
  with s' r' show ?thesis by blast
qed

section \<open>Retention\<close>

lemma finalize_tasks_lookup:
  assumes ok: "runtime_state_ok env s" and f: "fold finalize_task rs (f1, s1) = (f2, s2)" and s1: "rs_tasks s1 = rs_tasks s"
  shows "fmlookup (rs_tasks s2) tid =
    (case fmlookup (rs_tasks s) tid of Some r \<Rightarrow> if r \<in> set rs then None else Some r | None \<Rightarrow> None)"
  using fold_finalize_task_lookup [of rs "(f1, s1)" tid] ok_task_lookup [OF ok]
  by (auto simp: f s1 task_ok_def split: option.splits)

lemma finalize_artifacts_lookup:
  assumes ok: "runtime_state_ok env s" and f: "fold finalize_artifact as (f3, s3) = (f4, s4)" and s3: "rs_artifacts s3 = rs_artifacts s"
  shows "fmlookup (rs_artifacts s4) key =
    (case fmlookup (rs_artifacts s) key of Some r \<Rightarrow> if expectation_of r \<in> set as then None else Some r | None \<Rightarrow> None)"
proof (cases "fmlookup (rs_artifacts s) key")
  case (Some r)
  then have "key = artifact_record_key (ae_key (expectation_of r))"
    using ok_artifact_lookup [OF ok Some] by (simp add: artifact_ok_def expectation_of_def)
  then show ?thesis using fold_finalize_artifact_lookup [of as "(f3, s3)" key] Some by (auto simp: f s3)
qed (use fold_finalize_artifact_lookup [of as "(f3, s3)" key] in \<open>simp add: f s3\<close>)

lemma finalize_pendings_lookup:
  assumes ok: "runtime_state_ok env s" and f: "fold (finalize_pending ow) ps (f0, s) = (f1, s1)"
  shows "fmlookup (rs_pending s1) key =
    (case fmlookup (rs_pending s) key of Some p \<Rightarrow> if p \<in> set ps \<and> key \<notin> ow then None else Some p | None \<Rightarrow> None)"
  using fold_finalize_pending_lookup [of ow ps "(f0, s)" key] ok_pending_lookup [OF ok]
  by (auto simp: f pending_ok_def split: option.splits)

text \<open>
  C16: Retention removes exactly what it is told to. Finalizing a batch removes a task
  exactly if its current record is one of the retired snapshots, an artifact exactly if its current
  identity, descriptor and lifecycle are expected, and a pending publication exactly if it is
  unchanged and no task refers to its artifact; everything else stays, except that the removed
  lifetimes no longer own a publication. Only ended tasks and invalidated artifacts can be removed.
\<close>

theorem finalize_removes_exactly:
  assumes "validate_runtime_state env s = Ok ()"
    and "finalize_terminal_task_retention_batch rs as ps s = Ok (f, s')"
  shows "fmlookup (rs_tasks s') tid =
      (case fmlookup (rs_tasks s) tid of Some r \<Rightarrow> if r \<in> set rs then None else Some r | None \<Rightarrow> None)
    \<and> fmlookup (rs_artifacts s') key =
      (case fmlookup (rs_artifacts s) key of Some r \<Rightarrow> if expectation_of r \<in> set as then None else Some r | None \<Rightarrow> None)
    \<and> fmlookup (rs_pending s') key =
      (case fmlookup (rs_pending s) key of
         Some p \<Rightarrow> if p \<in> set ps \<and> key \<notin> owned_artifacts s then None
                   else Some (retain_owners (\<lambda>owner. \<not> (\<exists>r \<in> set rs. fmlookup (rs_tasks s) (t_task_id r) = Some r \<and> t_incarnation r = owner)) p)
       | None \<Rightarrow> None)
    \<and> (\<forall>r \<in> set rs. status_terminal (t_status r) \<and> t_retention r = Removing)
    \<and> (\<forall>e \<in> set as. ae_lifecycle e = LInvalidated)"
  using assms(2)
proof (cases rule: finalize_Ok)
  case (1 f1 s1 f2 s2)
  let ?s3 = "if rf_removed_tasks f2 = [] then s2
       else retain_all_owners (\<lambda>owner. owner \<notin> lt_incarnation ` set (rf_removed_tasks f2)) s2"
  let ?gone = "\<lambda>owner. \<exists>r \<in> set rs. fmlookup (rs_tasks s) (t_task_id r) = Some r \<and> t_incarnation r = owner"
  have ok: "runtime_state_ok env s" using assms(1) by (simp add: validate_runtime_state_iff)
  have t1: "rs_tasks s1 = rs_tasks s" "rs_artifacts s1 = rs_artifacts s" "rf_removed_tasks f1 = []"
    using arg_cong [OF 1(1), of "\<lambda>x. rs_tasks (snd x)"] arg_cong [OF 1(1), of "\<lambda>x. rs_artifacts (snd x)"]
      arg_cong [OF 1(1), of "\<lambda>x. rf_removed_tasks (fst x)"]
    by (simp_all add: fold_tasks [OF finalize_pending_tasks] fold_artifacts [OF finalize_pending_artifacts]
        fold_finalize_pending_removed no_finalize_def)
  have t2: "rs_artifacts s2 = rs_artifacts s" "rs_pending s2 = rs_pending s1"
    using arg_cong [OF 1(2), of "\<lambda>x. rs_artifacts (snd x)"] arg_cong [OF 1(2), of "\<lambda>x. rs_pending (snd x)"]
    by (simp_all add: fold_artifacts [OF finalize_task_artifacts] fold_pending [OF finalize_task_pending] t1)
  have removed: "lt_incarnation ` set (rf_removed_tasks f2) = {owner. ?gone owner}"
    using fold_finalize_task_removed [of rs "(f1, s1)"] by (auto simp: 1(2) t1 task_lifetime_of_def image_image)
  have "rs_artifacts ?s3 = rs_artifacts s" using t2(1) by simp
  note arts = finalize_artifacts_lookup [OF ok 1(3) this]
  have retain: "retain_owners (\<lambda>owner. True) = (\<lambda>p. p)" by (simp add: fun_eq_iff retain_owners_def)
  have tasks: "rs_tasks s' = rs_tasks s2" and pend: "rs_pending s' = fmmap (retain_owners (\<lambda>owner. \<not> ?gone owner)) (rs_pending s1)"
    using arg_cong [OF 1(3), of "\<lambda>x. rs_tasks (snd x)"] arg_cong [OF 1(3), of "\<lambda>x. rs_pending (snd x)"] t2(2) removed
    by (auto simp: fold_tasks [OF finalize_artifact_tasks] fold_pending [OF finalize_artifact_pending]
        retain_all_owners_def retain option.map_ident intro!: fmap_ext split: if_splits)
  show ?thesis
    using finalize_tasks_lookup [OF ok 1(2) t1(1)] arts finalize_pendings_lookup [OF ok 1(1)] 1(4)
    by (auto simp: tasks pend validate_terminal_retention_finalization_def ok_iff list_all_iff split: option.splits)
qed

definition ex_done :: runtime_task where
  "ex_done = ex_task\<lparr>t_status := RCompleted, t_retention := Removing\<rparr>"

theorem finalize_removes_exactly_witness:
  "\<exists>f s'. finalize_terminal_task_retention_batch [ex_done] [expectation_of (ex_artifact ''old'' LInvalidated (Some 5))] []
       (set_task ''task'' ex_done ex_state) = Ok (f, s')
     \<and> fmlookup (rs_tasks s') ''task'' = None \<and> fmlookup (rs_artifacts s') (artifact_record_key (ex_key ''old'')) = None"
proof -
  let ?s = "set_task ''task'' ex_done ex_state" and ?e = "expectation_of (ex_artifact ''old'' LInvalidated (Some 5))"
  have "good_update ex_task ex_done" by (simp add: good_update_def same_identity_def ex_done_def)
  then have valid: "validate_runtime_state ''dev'' ?s = Ok ()"
    using ok_set_task [OF ex_state_ok] by (simp add: validate_runtime_state_iff)
  have "validate_terminal_retention_finalization [ex_done] [?e] [] = Ok ()"
    by (simp add: validate_terminal_retention_finalization_def ensure_def ex_done_def expectation_of_def)
  then have "\<exists>x. finalize_terminal_task_retention_batch [ex_done] [?e] [] ?s = Ok x"
    by (simp add: finalize_terminal_task_retention_batch_def Let_def case_prod_beta)
  then obtain f s' where run: "finalize_terminal_task_retention_batch [ex_done] [?e] [] ?s = Ok (f, s')" by auto
  have "fmlookup (rs_tasks ?s) ''task'' = Some ex_done" by (simp add: set_task_def)
  with finalize_removes_exactly [OF valid run, of "''task''" "artifact_record_key (ex_key ''old'')"] run
  show ?thesis by (intro exI [of _ f] exI [of _ s']) simp
qed

end
