(* ===== verification/Runtime_Atomic.thy ===== *)
theory Runtime_Atomic
  imports Runtime_Codec Runtime_Props
begin

text \<open>
  What a commit of the runtime manager means for the stored state. The locale \<open>cas_store\<close> is what the
  manager relies on of its store: a write is accepted exactly if the stored object has the
  expected generation. Inside the locale, a commit is shown to be an atomic update of the
  stored state in spite of lost requests, lost replies, failing reads and a
  lifecycle that closes at any point, and never to overwrite a state it has not seen. The locale is interpreted for
  the in-memory store.
\<close>

section \<open>Stored and local state\<close>

definition stored_state :: "'s state_store \<Rightarrow> state_codec \<Rightarrow> 's \<Rightarrow> runtime_state option" where
  "stored_state ops codec st =
     (case st_load ops st of
        None \<Rightarrow> Some default_state
      | Some obj \<Rightarrow> map_option durable_view (decode_state codec (rso_bytes obj)))"

definition stored_generation :: "'s state_store \<Rightarrow> 's \<Rightarrow> int option" where
  "stored_generation ops st = Option.bind (st_load ops st) rso_generation"

definition agrees :: "'s state_store \<Rightarrow> state_codec \<Rightarrow> 's \<Rightarrow> manager \<Rightarrow> bool" where
  "agrees ops codec st m \<longleftrightarrow>
     stored_generation ops st = m_generation m \<and> stored_state ops codec st = Some (durable_view (m_state m))"

definition manager_ok :: "'s state_store \<Rightarrow> state_codec \<Rightarrow> 's \<Rightarrow> manager \<Rightarrow> bool" where
  "manager_ok ops codec st m \<longleftrightarrow>
     validate_runtime_state (m_environment m) (m_state m) = Ok () \<and> (m_coherence m = Coherent \<longrightarrow> agrees ops codec st m)"

lemma durable_view_idem [simp]: "durable_view (durable_view s) = durable_view s"
  by (simp add: durable_view_def fmap.map_comp comp_def)

lemma durable_view_default [simp]: "durable_view default_state = default_state"
  by (simp add: durable_view_def default_state_def)

lemma stored_encoded:
  "codec_ok codec \<Longrightarrow> st_load ops st = Some obj \<Longrightarrow> rso_bytes obj = encode_state codec i s \<Longrightarrow>
     stored_state ops codec st = Some (durable_view s)"
  by (simp add: stored_state_def codec_ok_def)

lemma installed_fields [simp]:
  "m_state (installed s g bs m) = s" "m_generation (installed s g bs m) = g"
  "m_coherence (installed s g bs m) = Coherent" "m_environment (installed s g bs m) = m_environment m"
  by (simp_all add: installed_def)

lemma set_coherence_fields [simp]:
  "m_state (set_coherence c m) = m_state m" "m_generation (set_coherence c m) = m_generation m"
  "m_coherence (set_coherence c m) = c" "m_environment (set_coherence c m) = m_environment m"
  by (simp_all add: set_coherence_def)

text \<open>The guards return a value or an error.\<close>

lemma write_allowed_cases:
  "ensure_authoritative_write_allowed permit f m = Ok () \<or> (\<exists>e. ensure_authoritative_write_allowed permit f m = Err e)"
  by (auto simp: ensure_authoritative_write_allowed_def ensure_active_def ensure_checkpoint_write_allowed_def ensure_def)

lemma install_cases:
  assumes "install_checkpointed_runtime_state permit f next g bs out m = (res, m')"
  obtains "res = Ok out" "m' = installed next g bs m" | e where "res = Err e" "m' = set_coherence Recoverable m"
  using assms write_allowed_cases [of permit f m]
  by (auto simp: install_checkpointed_runtime_state_def)

lemma apfst_Done_iff: "apfst Done x = (ar, m') \<longleftrightarrow> (\<exists>res. ar = Done res \<and> x = (res, m'))"
  by (cases x) auto

section \<open>Outcomes of a commit\<close>

text \<open>
  From a manager that agrees with the store, a commit installs the result of one run of the edit,
  locally and in the store, or it is refused. When it is refused the local state is as before, and the
  store is as before too, unless the manager has become recoverable and the store holds the result of one run of the edit.
\<close>

definition commit_done :: "'s state_store \<Rightarrow> state_codec \<Rightarrow> (nat \<Rightarrow> 'o mutation) \<Rightarrow> manager \<Rightarrow> 'o \<Rightarrow> manager \<Rightarrow> 's \<Rightarrow> bool" where
  "commit_done ops codec update m out m' st' \<longleftrightarrow>
     (\<exists>i. update i (m_state m) = Ok (out, m_state m')) \<and> m_coherence m' = Coherent \<and> m_environment m' = m_environment m
     \<and> runtime_state_ok (m_environment m) (m_state m') \<and> agrees ops codec st' m'"

definition commit_refused :: "'s state_store \<Rightarrow> state_codec \<Rightarrow> (nat \<Rightarrow> 'o mutation) \<Rightarrow> manager \<Rightarrow> 's \<Rightarrow> manager \<Rightarrow> 's \<Rightarrow> bool" where
  "commit_refused ops codec update m st m' st' \<longleftrightarrow>
     m_state m' = m_state m \<and> m_environment m' = m_environment m \<and> m_generation m' = m_generation m
     \<and> m_coherence m' \<noteq> Violated
     \<and> (st' = st \<or> m_coherence m' = Recoverable
          \<and> (\<exists>i out next. update i (m_state m) = Ok (out, next) \<and> stored_state ops codec st' = Some (durable_view next)))"

definition commit_result :: "'s state_store \<Rightarrow> state_codec \<Rightarrow> (nat \<Rightarrow> 'o mutation) \<Rightarrow> manager \<Rightarrow> 's \<Rightarrow>
    (string, 'o) outcome \<Rightarrow> manager \<Rightarrow> 's \<Rightarrow> bool" where
  "commit_result ops codec update m st res m' st' \<longleftrightarrow>
     (case res of Ok out \<Rightarrow> commit_done ops codec update m out m' st' | _ \<Rightarrow> commit_refused ops codec update m st m' st')"

text \<open>How an attempt can end when the stored generation is not the expected one.\<close>

definition fenced_result :: "'s state_store \<Rightarrow> state_codec \<Rightarrow> (nat \<Rightarrow> 'o mutation) \<Rightarrow> nat \<Rightarrow> 's \<Rightarrow> manager \<Rightarrow> (string, 'o) outcome \<Rightarrow> manager \<Rightarrow> bool" where
  "fenced_result ops codec update i st m res m' \<longleftrightarrow>
    (case res of
       Ok out \<Rightarrow> m' = m \<and> update i (m_state m) = Ok (out, m_state m)
          \<or> (\<exists>obj. st_load ops st = Some obj \<and> update i (m_state m) = Ok (out, m_state m')
               \<and> rso_bytes obj = encode_state codec i (m_state m') \<and> m_generation m' = rso_generation obj)
     | _ \<Rightarrow> m_state m' = m_state m)"

text \<open>A quiet environment: the lifecycle stays open and the read-backs work; only writes can be lost.\<close>

definition lifecycle_open :: "lifecycle_flags \<Rightarrow> bool" where
  "lifecycle_open f \<longleftrightarrow> lf_active f \<and> \<not> lf_draining f \<and> lf_permit_valid f"

definition quiet_attempt :: "attempt_env \<Rightarrow> bool" where
  "quiet_attempt env \<longleftrightarrow> lifecycle_open (env_start env) \<and> lifecycle_open (env_written env)
     \<and> lifecycle_open (env_read_back env) \<and> lifecycle_open (env_install env) \<and> \<not> env_read_fails env
     \<and> env_fault env \<noteq> DeliveredLate"

definition quiet_env :: "commit_env \<Rightarrow> bool" where
  "quiet_env env \<longleftrightarrow> lifecycle_open (ce_enter env) \<and> ce_fence_free env \<and> lifecycle_open (ce_fenced env)
     \<and> (\<forall>i. quiet_attempt (ce_attempts env i))"

lemma open_write_allowed:
  "lifecycle_open f \<Longrightarrow> m_coherence m = Coherent \<Longrightarrow> ensure_authoritative_write_allowed permit f m = Ok ()"
  by (simp add: lifecycle_open_def ensure_authoritative_write_allowed_def ensure_active_def
      ensure_checkpoint_write_allowed_def ensure_def)

lemma refused_unchanged: "m_coherence m \<noteq> Violated \<Longrightarrow> commit_refused ops codec update m st m st"
  by (simp add: commit_refused_def)

lemma refused_recoverable: "commit_refused ops codec update m st (set_coherence Recoverable m) st"
  by (simp add: commit_refused_def)

section \<open>The contract of the store\<close>

locale cas_store =
  fixes ops :: "'s state_store"
  assumes store_conflict:
      "stored_generation ops st \<noteq> expected \<Longrightarrow> st_store ops bs expected st = (WriteConflict (st_load ops st), st)"
    and store_accept:
      "stored_generation ops st = expected \<Longrightarrow>
         \<exists>g st'. st_store ops bs expected st = (Stored (Some g), st')
           \<and> st_load ops st' = Some \<lparr>rso_bytes = bs, rso_generation = Some g\<rparr>"
begin

text \<open>Installing a state that the store already holds.\<close>

lemma install_stored:
  assumes codec: "codec_ok codec" and upd: "update i (m_state m) = Ok (out, next)"
    and ok: "runtime_state_ok (m_environment m) next"
    and st: "st_load ops st' = Some obj" "rso_bytes obj = encode_state codec i next"
    and run: "install_checkpointed_runtime_state permit f next (rso_generation obj) bs out m = (res, m')"
  shows "commit_result ops codec update m st res m' st'"
  using run
proof (cases rule: install_cases)
  case 1
  have "agrees ops codec st' m'"
    using stored_encoded [OF codec st] st(1) by (simp add: agrees_def 1 stored_generation_def)
  then show ?thesis using upd ok by (auto simp: commit_result_def commit_done_def 1)
next
  case (2 e)
  then show ?thesis
    using upd stored_encoded [OF codec st] by (auto simp: commit_result_def commit_refused_def)
qed

lemma resolve_write_result:
  assumes codec: "codec_ok codec" and agr: "agrees ops codec st m" and coh: "m_coherence m = Coherent"
    and upd: "update i (m_state m) = Ok (out, next)" and ok: "runtime_state_ok (m_environment m) next"
    and tr: "transport_write ops fault (encode_state codec i next) (m_generation m) st = (reply, st1, st2)"
    and late: "fault \<noteq> DeliveredLate"
    and run: "resolve_write ops permit env next (encode_state codec i next) (m_generation m) out reply st1 m = (ar, m')"
  shows "(case ar of Done res \<Rightarrow> commit_result ops codec update m st res m' st2 | Retry \<Rightarrow> m' = m \<and> st2 = st)"
proof -
  let ?bs = "encode_state codec i next"
  have gen: "stored_generation ops st = m_generation m" using agr by (simp add: agrees_def)
  obtain g st' where acc: "st_store ops ?bs (m_generation m) st = (Stored (Some g), st')"
    "st_load ops st' = Some \<lparr>rso_bytes = ?bs, rso_generation = Some g\<rparr>"
    using store_accept [OF gen] by blast
  have stored: "commit_result ops codec update m st res m' x"
    if "st_load ops x = Some obj" "rso_bytes obj = ?bs"
      "install_checkpointed_runtime_state permit f next (rso_generation obj) bs out m = (res, m')" for x obj f bs res
    using install_stored [where update = update and i = i, OF codec upd ok that] .
  have inst: "commit_result ops codec update m st res m' st'"
    if "install_checkpointed_runtime_state permit f next (Some g) bs out m = (res, m')" for f bs res
    using stored [OF acc(2)] that by simp
  have unknown: "commit_result ops codec update m st (Err e) (set_coherence Recoverable m) st2"
    if "st2 = st \<or> st2 = st'" for e
  proof -
    have "stored_state ops codec st' = Some (durable_view next)" using stored_encoded [OF codec acc(2)] by simp
    then show ?thesis using that upd by (auto simp: commit_result_def commit_refused_def)
  qed
  show ?thesis
  proof (cases fault)
    case Delivered
    then have "reply = Some (Stored (Some g))" "st1 = st'" "st2 = st'" using tr acc(1) by auto
    then show ?thesis using run inst by (auto simp: resolve_write_def apfst_Done_iff)
  next
    case ReplyLost
    then have r: "reply = None" "st1 = st'" "st2 = st'" using tr acc(1) by auto
    then show ?thesis
      using run inst unknown write_allowed_cases [of permit "env_read_back env" m] acc(2)
      by (auto simp: resolve_write_def Let_def apfst_Done_iff split: if_splits)
  next
    case RequestLost
    then have r: "reply = None" "st1 = st" "st2 = st" using tr by auto
    have unch: "runtime_generation_is_unchanged (st_load ops st) (m_generation m)"
      using gen by (cases "st_load ops st") (auto simp: runtime_generation_is_unchanged_def stored_generation_def)
    then show ?thesis
      using run unknown write_allowed_cases [of permit "env_read_back env" m] stored
      by (auto simp: resolve_write_def r Let_def apfst_Done_iff split: if_splits option.splits)
  qed (use late in simp)
qed

lemma transport_stored:
  assumes codec: "codec_ok codec" and gen: "stored_generation ops st = m_generation m"
    and tr: "transport_write ops fault (encode_state codec i next) (m_generation m) st = (reply, st1, st2)"
  shows "st2 = st \<or> stored_state ops codec st2 = Some (durable_view next)"
proof -
  obtain g st' where acc: "st_store ops (encode_state codec i next) (m_generation m) st = (Stored (Some g), st')"
    "st_load ops st' = Some \<lparr>rso_bytes = encode_state codec i next, rso_generation = Some g\<rparr>"
    using store_accept [OF gen] by blast
  have "stored_state ops codec st' = Some (durable_view next)" using stored_encoded [OF codec acc(2)] by simp
  then show ?thesis using tr acc(1) by (cases fault) auto
qed

lemma commit_attempt_result:
  assumes codec: "codec_ok codec" and agr: "agrees ops codec st m" and coh: "m_coherence m = Coherent"
    and ok: "runtime_state_ok (m_environment m) (m_state m)" and late: "env_fault env \<noteq> DeliveredLate"
    and run: "commit_attempt ops codec permit update i env st m = (ar, m', st')"
  shows "(case ar of Done res \<Rightarrow> commit_result ops codec update m st res m' st' | Retry \<Rightarrow> m' = m \<and> st' = st)"
proof -
  let ?pre = "bind_outcome (ensure_authoritative_write_allowed permit (env_start env) m) (\<lambda>_.
           bind_outcome (update i (m_state m)) (\<lambda>(out, next).
           bind_outcome (validate_runtime_state (m_environment m) next) (\<lambda>_. Ok (out, next))))"
  have refused: "commit_result ops codec update m st (Err e) m st"
    "commit_result ops codec update m st (Panic p) m st" for e p
    using coh by (simp_all add: commit_result_def refused_unchanged)
  show ?thesis
  proof (cases ?pre)
    case (Ok x)
    then obtain out nxt where x: "x = (out, nxt)" and upd: "update i (m_state m) = Ok (out, nxt)"
        and ok': "runtime_state_ok (m_environment m) nxt"
      by (auto simp: ok_iff validate_runtime_state_iff)
    show ?thesis
    proof (cases "nxt = m_state m")
      case True
      then have "ar = Done (Ok out)" "m' = m" "st' = st" using run Ok x by (simp_all add: commit_attempt_def)
      then show ?thesis using True upd ok coh agr by (auto simp: commit_result_def commit_done_def)
    next
      case False
      obtain reply st1 st2 where tr: "transport_write ops (env_fault env) (encode_state codec i nxt) (m_generation m) st
          = (reply, st1, st2)" using prod_cases3 by blast
      obtain ar1 m1 where rw: "resolve_write ops permit env nxt (encode_state codec i nxt) (m_generation m) out reply st1 m
          = (ar1, m1)" by fastforce
      show ?thesis
      proof (cases "ensure_authoritative_write_allowed permit (env_written env) m")
        case (Ok u)
        then have "ar = ar1" "m' = m1" "st' = st2" using run \<open>?pre = Ok x\<close> x False tr rw by (simp_all add: commit_attempt_def Let_def)
        then show ?thesis using resolve_write_result [where update = update and i = i, OF codec agr coh upd ok' tr late rw]
          by (simp split: attempt_result.splits)
      next
        case (Err e)
        then have "ar = Done (Err e)" "m' = set_coherence Recoverable m" "st' = st2"
          using run \<open>?pre = Ok x\<close> x False tr by (simp_all add: commit_attempt_def Let_def)
        moreover have "st2 = st \<or> stored_state ops codec st2 = Some (durable_view nxt)"
          using transport_stored [OF codec _ tr] agr by (simp add: agrees_def)
        ultimately show ?thesis using upd by (auto simp: commit_result_def commit_refused_def)
      qed (use write_allowed_cases [of permit "env_written env" m] in auto)
    qed
  qed (use run refused in \<open>auto simp: commit_attempt_def\<close>)
qed

lemma commit_attempts_result:
  assumes codec: "codec_ok codec" and agr: "agrees ops codec st m" and coh: "m_coherence m = Coherent"
    and ok: "runtime_state_ok (m_environment m) (m_state m)"
    and late: "\<forall>env \<in> set envs. env_fault env \<noteq> DeliveredLate"
    and run: "commit_attempts ops codec permit update i envs st m = (res, m', st')"
  shows "commit_result ops codec update m st res m' st'"
  using late run
proof (induction envs arbitrary: i)
  case Nil
  then show ?case by (auto simp: commit_result_def refused_recoverable)
next
  case (Cons env envs)
  obtain ar m1 st1 where att: "commit_attempt ops codec permit update i env st m = (ar, m1, st1)" using prod_cases3 by blast
  from Cons.prems have "env_fault env \<noteq> DeliveredLate" by simp
  note one = commit_attempt_result [OF codec agr coh ok this att]
  show ?case
  proof (cases ar)
    case (Done r)
    then show ?thesis using one Cons.prems att by auto
  next
    case Retry
    then show ?thesis using one Cons.prems att Cons.IH by auto
  qed
qed

text \<open>A reload that succeeds makes the manager agree with the store.\<close>

lemma reload_result:
  assumes "manager_ok ops codec st m"
    and "reload_checkpoint_state_if_needed ops codec permit fails f st m = (res, m')"
  shows "manager_ok ops codec st m' \<and> m_environment m' = m_environment m
    \<and> (m_coherence m' = m_coherence m \<and> m' = m \<or> m_coherence m' = Coherent)
    \<and> (res = Ok () \<longrightarrow> \<not> (permit \<and> m_coherence m' = Recoverable))"
proof (cases "permit \<and> m_coherence m = Recoverable \<and> \<not> fails")
  case True
  then have run: "install_runtime_state_object codec f (st_load ops st) m = (res, m')"
    using assms(2) by (simp add: reload_checkpoint_state_if_needed_def reload_authoritative_state_def)
  have default_ok: "runtime_state_ok env default_state" for env
    by (simp add: runtime_state_ok_def default_state_def unique_by_def)
  show ?thesis
  proof (cases "st_load ops st")
    case None
    then show ?thesis using run assms(1) default_ok
      by (auto simp: install_runtime_state_object_def Let_def manager_ok_def agrees_def stored_state_def
          stored_generation_def validate_runtime_state_iff split: if_splits)
  next
    case (Some obj)
    let ?r = "bind_outcome (ok_or (decode_state codec (rso_bytes obj)) ''decode authoritative runtime store state'') (\<lambda>s.
        bind_outcome (validate_runtime_state (m_environment m) s) (\<lambda>_.
        bind_outcome (ensure (lf_active f) ''runtime became inactive before authoritative state was installed locally'') (\<lambda>_. Ok s)))"
    show ?thesis
    proof (cases ?r)
      case (Ok s)
      then have "decode_state codec (rso_bytes obj) = Some s" "runtime_state_ok (m_environment m) s"
        by (auto simp: ok_iff ok_or_def validate_runtime_state_iff split: option.splits)
      moreover have "res = Ok ()" "m' = installed s (rso_generation obj) (rso_bytes obj) m"
        using run Some Ok by (auto simp: install_runtime_state_object_def)
      ultimately show ?thesis
        using Some by (simp add: manager_ok_def agrees_def stored_state_def stored_generation_def validate_runtime_state_iff)
    qed (use run Some assms(1) True in \<open>auto simp: install_runtime_state_object_def\<close>)
  qed
qed (use assms in \<open>auto simp: reload_checkpoint_state_if_needed_def reload_authoritative_state_def split: if_splits\<close>)

lemma refused_state:
  assumes "agrees ops codec st m" "commit_refused ops codec update m st m' st'"
  shows "(m_coherence m' = Coherent \<longrightarrow> agrees ops codec st' m')
    \<and> (stored_state ops codec st' = stored_state ops codec st \<or> m_coherence m' = Recoverable
       \<and> (\<exists>i out nxt. update i (m_state m) = Ok (out, nxt) \<and> stored_state ops codec st' = Some (durable_view nxt)))"
  using assms by (auto simp: commit_refused_def agrees_def)

text \<open>The whole commit, from any manager whose local state is valid and agrees with the store unless it is marked.\<close>

lemma mutate_result:
  assumes codec: "codec_ok codec" and inv: "manager_ok ops codec st m"
    and late: "\<forall>i. env_fault (ce_attempts env i) \<noteq> DeliveredLate"
    and run: "mutate_authoritative ops codec permit env update st m = (res, m', st')"
  shows "manager_ok ops codec st' m' \<and> (m_coherence m' = Violated \<longrightarrow> m_coherence m = Violated)
    \<and> (case res of
         Ok out \<Rightarrow> \<exists>s i. stored_state ops codec st = Some (durable_view s) \<and> (m_coherence m = Coherent \<longrightarrow> s = m_state m)
            \<and> update i s = Ok (out, m_state m') \<and> m_coherence m' = Coherent
            \<and> stored_state ops codec st' = Some (durable_view (m_state m'))
       | _ \<Rightarrow> stored_state ops codec st' = stored_state ops codec st
            \<or> m_coherence m' = Recoverable
              \<and> (\<exists>s i out nxt. stored_state ops codec st = Some (durable_view s) \<and> (m_coherence m = Coherent \<longrightarrow> s = m_state m)
                   \<and> update i s = Ok (out, nxt) \<and> stored_state ops codec st' = Some (durable_view nxt)))"
proof -
  let ?g = "bind_outcome (ensure_authoritative_write_allowed permit (ce_enter env) m) (\<lambda>_.
           bind_outcome (ensure (permit \<or> ce_fence_free env) ''runtime is draining'') (\<lambda>_.
           ensure_authoritative_write_allowed permit (ce_fenced env) m))"
  show ?thesis
  proof (cases ?g)
    case (Ok u)
    then have allowed: "if permit then m_coherence m \<noteq> Violated else m_coherence m = Coherent"
      by (auto simp: ok_iff ensure_authoritative_write_allowed_def ensure_active_def ensure_checkpoint_write_allowed_def split: if_splits)
    obtain r1 m1 where rl: "reload_checkpoint_state_if_needed ops codec permit (ce_reload_fails env) (ce_reload env) st m = (r1, m1)"
      by fastforce
    note re = reload_result [OF inv rl]
    have same: "m_coherence m = Coherent \<longrightarrow> m_state m1 = m_state m"
      using rl by (auto simp: reload_checkpoint_state_if_needed_def)
    show ?thesis
    proof (cases r1)
      case r1: (Ok v)
      then have coh: "m_coherence m1 = Coherent" using re allowed by (cases "m_coherence m") (auto split: if_splits)
      have ok1: "runtime_state_ok (m_environment m1) (m_state m1)" and agr: "agrees ops codec st m1"
        using re coh by (auto simp: manager_ok_def validate_runtime_state_iff)
      have "commit_attempts ops codec permit update 1 (map (ce_attempts env) [1..<Suc MAX_ATTEMPTS]) st m1 = (res, m', st')"
        using run Ok rl r1 by (simp add: mutate_authoritative_def)
      from commit_attempts_result [OF codec agr coh ok1 _ this] late
      have result: "commit_result ops codec update m1 st res m' st'" by auto
      have st1: "stored_state ops codec st = Some (durable_view (m_state m1))" using agr by (simp add: agrees_def)
      have refused: ?thesis if "commit_refused ops codec update m1 st m' st'" "\<And>out. res \<noteq> Ok out"
      proof -
        note rs = refused_state [OF agr that(1)]
        have "manager_ok ops codec st' m' \<and> m_coherence m' \<noteq> Violated"
          using that(1) ok1 rs by (auto simp: commit_refused_def manager_ok_def validate_runtime_state_iff)
        with rs that(2) st1 same show ?thesis by (cases res) auto
      qed
      show ?thesis
      proof (cases res)
        case (Ok out)
        then show ?thesis using result st1 same
          by (auto simp: commit_result_def commit_done_def manager_ok_def agrees_def validate_runtime_state_iff)
      qed (use result refused in \<open>auto simp: commit_result_def\<close>)
    qed (use run Ok rl re in \<open>auto simp: mutate_authoritative_def\<close>)
  qed (use run inv in \<open>auto simp: mutate_authoritative_def\<close>)
qed

text \<open>Against a store that somebody else has written to, the manager never writes.\<close>

lemma foreign_transport:
  assumes "stored_generation ops st \<noteq> m_generation m"
    and "transport_write ops fault bs (m_generation m) st = (reply, st1, st2)"
  shows "st1 = st \<and> st2 = st \<and> (reply = None \<or> reply = Some (WriteConflict (st_load ops st)))"
  using assms store_conflict [of st "m_generation m" bs] by (cases fault) auto

lemma foreign_resolve:
  assumes gen: "stored_generation ops st \<noteq> m_generation m" and upd: "update i (m_state m) = Ok (out, nxt)"
    and reply: "reply = None \<or> reply = Some (WriteConflict (st_load ops st))"
    and run: "resolve_write ops permit env nxt (encode_state codec i nxt) (m_generation m) out reply st m = (ar, m')"
  shows "\<exists>res. ar = Done res \<and> fenced_result ops codec update i st m res m'"
proof -
  have changed: "\<not> runtime_generation_is_unchanged (st_load ops st) (m_generation m)"
    using gen by (cases "m_generation m"; cases "st_load ops st") (auto simp: runtime_generation_is_unchanged_def stored_generation_def split: option.splits)
  have install: "fenced_result ops codec update i st m res m'"
    if "install_checkpointed_runtime_state permit f nxt (rso_generation obj) (encode_state codec i nxt) out m = (res, m')"
      "st_load ops st = Some obj" "rso_bytes obj = encode_state codec i nxt" for f obj res
    using that(1) by (cases rule: install_cases) (use upd that in \<open>auto simp: fenced_result_def\<close>)
  show ?thesis
    using reply run changed install write_allowed_cases [of permit "env_read_back env" m]
    by (auto simp: resolve_write_def Let_def apfst_Done_iff fenced_result_def split: if_splits option.splits)
qed

lemma foreign_attempt:
  assumes gen: "stored_generation ops st \<noteq> m_generation m"
    and run: "commit_attempt ops codec permit update i env st m = (ar, m', st')"
  shows "st' = st \<and> (\<exists>res. ar = Done res \<and> fenced_result ops codec update i st m res m')"
proof -
  let ?pre = "bind_outcome (ensure_authoritative_write_allowed permit (env_start env) m) (\<lambda>_.
           bind_outcome (update i (m_state m)) (\<lambda>(out, next).
           bind_outcome (validate_runtime_state (m_environment m) next) (\<lambda>_. Ok (out, next))))"
  show ?thesis
  proof (cases ?pre)
    case pre: (Ok x)
    then obtain out nxt where x: "x = (out, nxt)" and upd: "update i (m_state m) = Ok (out, nxt)" by (auto simp: ok_iff)
    obtain reply st1 st2 where tr: "transport_write ops (env_fault env) (encode_state codec i nxt) (m_generation m) st = (reply, st1, st2)"
      using prod_cases3 by blast
    note fo = foreign_transport [OF gen tr]
    obtain ar1 m1 where rw: "resolve_write ops permit env nxt (encode_state codec i nxt) (m_generation m) out reply st m = (ar1, m1)"
      by fastforce
    from foreign_resolve [where update = update and i = i, OF gen upd _ rw] fo
    have fr: "\<exists>res. ar1 = Done res \<and> fenced_result ops codec update i st m res m1" by blast
    consider "nxt = m_state m" "ar = Done (Ok out)" "m' = m" "st' = st"
      | e where "ar = Done (Err e)" "m' = set_coherence Recoverable m" "st' = st"
      | "ar = ar1" "m' = m1" "st' = st"
      using run pre x tr fo rw write_allowed_cases [of permit "env_written env" m]
      by (auto simp: commit_attempt_def Let_def split: if_splits)
    then show ?thesis using fr upd by cases (auto simp: fenced_result_def)
  qed (use run in \<open>auto simp: commit_attempt_def fenced_result_def\<close>)
qed

lemma foreign_mutate:
  assumes gen: "stored_generation ops st \<noteq> m_generation m" and coh: "m_coherence m = Coherent"
    and run: "mutate_authoritative ops codec permit env update st m = (res, m', st')"
  shows "st' = st \<and> (fenced_result ops codec update 1 st m res m' \<or> (m' = m \<and> (\<forall>out. res \<noteq> Ok out)))"
proof -
  obtain ar m1 st1 where att: "commit_attempt ops codec permit update 1 (ce_attempts env 1) st m = (ar, m1, st1)"
    using prod_cases3 by blast
  from foreign_attempt [OF gen att] obtain r where r: "st1 = st" "ar = Done r" "fenced_result ops codec update 1 st m r m1" by blast
  then have "commit_attempts ops codec permit update 1 (map (ce_attempts env) [1..<Suc MAX_ATTEMPTS]) st m = (r, m1, st)"
    using att by (simp add: MAX_ATTEMPTS_def upt_rec)
  then show ?thesis
    using run r(3) coh
    by (auto simp: mutate_authoritative_def reload_checkpoint_state_if_needed_def split: outcome.splits)
qed

text \<open>In a quiet environment, a commit is refused only if every one of its writes is lost.\<close>

lemma attempt_progress:
  assumes gen: "stored_generation ops st = m_generation m" and coh: "m_coherence m = Coherent"
    and quiet: "quiet_attempt env"
    and upd: "update i (m_state m) = Ok (out, nxt)" "validate_runtime_state (m_environment m) nxt = Ok ()"
  shows "(\<exists>m' st'. commit_attempt ops codec permit update i env st m = (Done (Ok out), m', st'))
    \<or> env_fault env = RequestLost \<and> commit_attempt ops codec permit update i env st m = (Retry, m, st)"
proof -
  let ?bs = "encode_state codec i nxt"
  obtain g st' where acc: "st_store ops ?bs (m_generation m) st = (Stored (Some g), st')"
    "st_load ops st' = Some \<lparr>rso_bytes = ?bs, rso_generation = Some g\<rparr>"
    using store_accept [OF gen] by blast
  have unch: "runtime_generation_is_unchanged (st_load ops st) (m_generation m)"
    using gen by (cases "st_load ops st") (auto simp: runtime_generation_is_unchanged_def stored_generation_def)
  have allowed: "ensure_authoritative_write_allowed permit f m = Ok ()" if "lifecycle_open f" for f
    using that coh by (rule open_write_allowed)
  have "env_fault env = Delivered \<or> env_fault env = ReplyLost \<or> env_fault env = RequestLost"
    using quiet by (cases "env_fault env") (auto simp: quiet_attempt_def)
  then show ?thesis
    using quiet upd acc unch allowed
    by (cases "st_load ops st")
      (auto simp: quiet_attempt_def commit_attempt_def resolve_write_def install_checkpointed_runtime_state_def Let_def)
qed

lemma attempts_progress:
  assumes "stored_generation ops st = m_generation m" "m_coherence m = Coherent"
    "list_all quiet_attempt envs" "list_ex (\<lambda>env. env_fault env \<noteq> RequestLost) envs"
    "\<forall>j. \<exists>out nxt. update j (m_state m) = Ok (out, nxt) \<and> validate_runtime_state (m_environment m) nxt = Ok ()"
  shows "\<exists>out m' st'. commit_attempts ops codec permit update i envs st m = (Ok out, m', st')"
  using assms(3,4)
proof (induction envs arbitrary: i)
  case (Cons env envs)
  obtain out nxt where upd: "update i (m_state m) = Ok (out, nxt)" "validate_runtime_state (m_environment m) nxt = Ok ()"
    using assms(5) by blast
  from Cons.prems have "quiet_attempt env" by simp
  from attempt_progress [where update = update and i = i and codec = codec and permit = permit, OF assms(1,2) this upd]
  show ?case
  proof (elim disjE exE conjE)
    assume "env_fault env = RequestLost" "commit_attempt ops codec permit update i env st m = (Retry, m, st)"
    then show ?thesis using Cons by simp
  qed simp
qed simp

lemma mutate_progress:
  assumes "manager_ok ops codec st m" "m_coherence m = Coherent" "quiet_env env"
    and some: "k \<in> {1..MAX_ATTEMPTS}" "env_fault (ce_attempts env k) \<noteq> RequestLost"
    and upd: "\<forall>j. \<exists>out nxt. update j (m_state m) = Ok (out, nxt) \<and> validate_runtime_state (m_environment m) nxt = Ok ()"
  shows "\<exists>out m' st'. mutate_authoritative ops codec permit env update st m = (Ok out, m', st')"
proof -
  let ?envs = "map (ce_attempts env) [1..<Suc MAX_ATTEMPTS]"
  have gen: "stored_generation ops st = m_generation m" using assms(1,2) by (simp add: manager_ok_def agrees_def)
  have "list_all quiet_attempt ?envs" using assms(3) by (simp add: quiet_env_def list_all_iff)
  moreover have "list_ex (\<lambda>env. env_fault env \<noteq> RequestLost) ?envs"
    unfolding list_ex_iff using some by (intro bexI [of _ "ce_attempts env k"]) (auto simp del: upt_Suc)
  ultimately have "\<exists>out m' st'. commit_attempts ops codec permit update 1 ?envs st m = (Ok out, m', st')"
    using attempts_progress gen assms(2) upd by blast
  moreover have "ensure_authoritative_write_allowed permit (ce_enter env) m = Ok ()"
    "ensure_authoritative_write_allowed permit (ce_fenced env) m = Ok ()"
    using assms(2,3) by (simp_all add: quiet_env_def open_write_allowed)
  ultimately show ?thesis
    using assms(2,3)
    by (simp add: mutate_authoritative_def reload_checkpoint_state_if_needed_def quiet_env_def ensure_def)
qed

end

interpretation mem: cas_store memory_state_store
  by unfold_locales
    (auto simp: memory_state_store_def stored_generation_def load_runtime_state_def store_runtime_state_def
      next_generation_def Let_def)

section \<open>Commits against the in-memory store\<close>

definition ex_flags :: lifecycle_flags where
  "ex_flags = \<lparr>lf_active = True, lf_draining = False, lf_permit_valid = True\<rparr>"

text \<open>The first request is lost, and then the reply to the second one.\<close>

definition ex_env :: commit_env where
  "ex_env = \<lparr>ce_enter = ex_flags, ce_fence_free = True, ce_fenced = ex_flags, ce_reload_fails = False,
     ce_reload = ex_flags,
     ce_attempts = \<lambda>i. \<lparr>env_start = ex_flags, env_fault = (if i = 1 then RequestLost else ReplyLost),
       env_written = ex_flags, env_read_fails = False, env_read_back = ex_flags, env_install = ex_flags\<rparr>\<rparr>"

definition ex_registration :: task_registration where
  "ex_registration = \<lparr>g_task_id = ''task'', g_pipeline_key = ShastaSp1, g_route = ex_route, g_task_kind = ''proposal'',
     g_network_pair = ''net'', g_artifact_refs = [''ref''], g_metadata = ''{}'', g_fingerprint = ''fp''\<rparr>"

definition ex_register :: "nat \<Rightarrow> registration_outcome mutation" where
  "ex_register i = register_task_if_absent 7 (\<lambda>_. int i) ex_registration []"

definition ex_manager :: "int option \<Rightarrow> manager" where
  "ex_manager g = \<lparr>m_environment = ''dev'', m_state = default_state, m_generation = g, m_serialized_bytes = 0,
     m_coherence = Coherent\<rparr>"

definition ex_store :: "nat memory_store" where
  "ex_store = new_memory_store ''dev'' ''ns''"

definition ex_registered :: "nat \<Rightarrow> runtime_task" where
  "ex_registered i = ex_task\<lparr>t_status := RAllocated, t_updated_at := int i\<rparr>"

lemma ex_register_runs:
  "ex_register i default_state = Ok (TaskCreated (ex_registered i), put_task (ex_registered i) default_state)"
  by (simp add: ex_register_def register_task_if_absent_def build_task_record_def ex_registration_def ensure_def
      default_state_def fm_values_def sorted_list_of_fset.rep_eq ensure_artifact_preconditions_def
      supports_route_def ex_route_def ex_registered_def ex_task_def)

lemma ex_register_valid: "validate_runtime_state ''dev'' (put_task (ex_registered i) default_state) = Ok ()"
  unfolding validate_runtime_state_iff
  by (simp add: runtime_state_ok_def put_task_def default_state_def task_ok_def unique_by_def ex_registered_def
      ex_task_def ex_route_ok)

lemma ex_fields [simp]:
  "env_fault (ce_attempts ex_env i) = (if i = 1 then RequestLost else ReplyLost)"
  "m_environment (ex_manager g) = ''dev''" "m_state (ex_manager g) = default_state"
  "m_generation (ex_manager g) = g" "m_coherence (ex_manager g) = Coherent"
  by (simp_all add: ex_env_def ex_manager_def)

lemma ex_edits:
  "\<forall>j. \<exists>out nxt. ex_register j (m_state (ex_manager g)) = Ok (out, nxt)
     \<and> validate_runtime_state (m_environment (ex_manager g)) nxt = Ok ()"
  using ex_register_runs ex_register_valid by simp

lemma ex_quiet: "quiet_env ex_env"
  by (simp add: quiet_env_def quiet_attempt_def lifecycle_open_def ex_env_def ex_flags_def)

lemma default_state_valid: "validate_runtime_state environment default_state = Ok ()"
  unfolding validate_runtime_state_iff by (simp add: runtime_state_ok_def default_state_def unique_by_def)

lemma ex_manager_ok: "manager_ok memory_state_store codec ex_store (ex_manager None)"
  by (simp add: manager_ok_def agrees_def ex_manager_def ex_store_def stored_state_def stored_generation_def
      memory_state_store_def load_runtime_state_def new_memory_store_def default_state_valid)

lemma ex_commit_runs:
  "\<exists>out m' st'. mutate_authoritative memory_state_store numbering_codec permit ex_env ex_register ex_store (ex_manager None)
     = (Ok out, m', st')"
  by (rule mem.mutate_progress [where k = 2 and update = ex_register, OF ex_manager_ok _ ex_quiet _ _ ex_edits])
    (simp_all add: MAX_ATTEMPTS_def)

text \<open>
  C7: A commit is an atomic update of the stored state. Whatever is lost on the way (requests, replies,
  reads) and whenever the lifecycle closes, as long as no write arrives after its read-back: if the
  commit returns a value, then the store and the manager both hold the result of one run of the edit on the
  state that was stored before. If it does not, the stored state is as before, unless the manager has marked
  itself recoverable, and then the store may also hold the result of one run of the edit. The manager
  keeps a valid state, which agrees with the store unless it is marked, and never takes its own write for a foreign one.
\<close>

theorem commit_refines_atomic_update:
  assumes "codec_ok codec" "manager_ok memory_state_store codec st m"
    and "\<forall>i. env_fault (ce_attempts env i) \<noteq> DeliveredLate"
    and "mutate_authoritative memory_state_store codec permit env update st m = (res, m', st')"
  shows "manager_ok memory_state_store codec st' m' \<and> (m_coherence m' = Violated \<longrightarrow> m_coherence m = Violated)
    \<and> (case res of
         Ok out \<Rightarrow> \<exists>s i. stored_state memory_state_store codec st = Some (durable_view s)
            \<and> (m_coherence m = Coherent \<longrightarrow> s = m_state m)
            \<and> update i s = Ok (out, m_state m') \<and> m_coherence m' = Coherent
            \<and> stored_state memory_state_store codec st' = Some (durable_view (m_state m'))
       | _ \<Rightarrow> stored_state memory_state_store codec st' = stored_state memory_state_store codec st
            \<or> m_coherence m' = Recoverable
              \<and> (\<exists>s i out nxt. stored_state memory_state_store codec st = Some (durable_view s)
                   \<and> (m_coherence m = Coherent \<longrightarrow> s = m_state m)
                   \<and> update i s = Ok (out, nxt) \<and> stored_state memory_state_store codec st' = Some (durable_view nxt)))"
  using assms by (rule mem.mutate_result)

theorem commit_refines_atomic_update_witness:
  "\<exists>out m' st'. mutate_authoritative memory_state_store numbering_codec False ex_env ex_register ex_store (ex_manager None)
       = (Ok out, m', st')
     \<and> (\<exists>i. stored_state memory_state_store numbering_codec st' = Some (put_task (ex_registered i) default_state))"
proof -
  obtain out m' st' where run: "mutate_authoritative memory_state_store numbering_codec False ex_env ex_register ex_store
      (ex_manager None) = (Ok out, m', st')"
    using ex_commit_runs by blast
  have view: "durable_view (put_task (ex_registered i) default_state) = put_task (ex_registered i) default_state" for i
    by (simp add: durable_view_def put_task_def default_state_def ex_registered_def ex_task_def fmmap_fmupd)
  have "\<forall>i. env_fault (ce_attempts ex_env i) \<noteq> DeliveredLate" by simp
  from commit_refines_atomic_update [OF numbering_codec_ok ex_manager_ok this run]
  obtain i where "m_state m' = put_task (ex_registered i) default_state"
    "stored_state memory_state_store numbering_codec st' = Some (durable_view (m_state m'))"
    by (auto simp: ex_register_runs eq_commute [of "put_task _ _"])
  then show ?thesis using run view by auto
qed

text \<open>
  C15: A commit gets through if one of its three requests does. While the lifecycle stays open and reads work,
  a coherent manager that runs an edit which returns a valid state commits it, if at most two of the writes
  are lost on their way to the store; the replies of all the writes may be lost.
\<close>

theorem commit_survives_lost_writes:
  assumes "codec_ok codec" "manager_ok memory_state_store codec st m" "m_coherence m = Coherent" "quiet_env env"
    and "k \<in> {1..MAX_ATTEMPTS}" "env_fault (ce_attempts env k) \<noteq> RequestLost"
    and "\<forall>j. \<exists>out nxt. update j (m_state m) = Ok (out, nxt) \<and> validate_runtime_state (m_environment m) nxt = Ok ()"
  shows "\<exists>i out m' st'. mutate_authoritative memory_state_store codec permit env update st m = (Ok out, m', st')
     \<and> update i (m_state m) = Ok (out, m_state m') \<and> m_coherence m' = Coherent
     \<and> stored_state memory_state_store codec st' = Some (durable_view (m_state m'))"
proof -
  obtain out m' st' where run: "mutate_authoritative memory_state_store codec permit env update st m = (Ok out, m', st')"
    using mem.mutate_progress assms(2-7) by blast
  moreover have "\<forall>i. env_fault (ce_attempts env i) \<noteq> DeliveredLate"
    using assms(4) by (simp add: quiet_env_def quiet_attempt_def)
  ultimately show ?thesis using mem.mutate_result [OF assms(1,2) _ run] assms(3) by auto
qed

theorem commit_survives_lost_writes_witness:
  "\<exists>i out m' st'. mutate_authoritative memory_state_store numbering_codec True ex_env ex_register ex_store (ex_manager None)
       = (Ok out, m', st') \<and> m_state m' = put_task (ex_registered i) default_state"
  using commit_survives_lost_writes [where permit = True and k = 2 and update = ex_register,
      OF numbering_codec_ok ex_manager_ok _ ex_quiet _ _ ex_edits]
  by (auto simp: MAX_ATTEMPTS_def ex_register_runs eq_commute [of "put_task _ _"])

text \<open>
  C14: A manager never overwrites a state it has not seen. If the generation in the store is not the one the
  manager expects, a commit leaves the store as it is, whatever the transport does to its writes. The commit returns a
  value only if the edit changes nothing or the store already holds exactly the bytes of its
  result, and otherwise the local state is as before. Nothing is assumed of the codec.
\<close>

theorem foreign_state_never_overwritten:
  assumes "stored_generation memory_state_store st \<noteq> m_generation m" "m_coherence m = Coherent"
    and "mutate_authoritative memory_state_store codec permit env update st m = (res, m', st')"
  shows "st' = st \<and>
    (case res of
       Ok out \<Rightarrow> m' = m \<and> update 1 (m_state m) = Ok (out, m_state m)
          \<or> (\<exists>obj. load_runtime_state st = Some obj \<and> update 1 (m_state m) = Ok (out, m_state m')
               \<and> rso_bytes obj = encode_state codec 1 (m_state m') \<and> m_generation m' = rso_generation obj)
     | _ \<Rightarrow> m_state m' = m_state m)"
  using mem.foreign_mutate [OF assms]
  by (cases res) (auto simp: fenced_result_def memory_state_store_def)

theorem foreign_state_never_overwritten_witness:
  "\<exists>res m'. mutate_authoritative memory_state_store numbering_codec False ex_env ex_register
       (snd (store_runtime_state [1] None ex_store)) (ex_manager None)
     = (res, m', snd (store_runtime_state [1] None ex_store))"
proof -
  let ?st = "snd (store_runtime_state [1] None ex_store)"
  obtain res m' st' where run: "mutate_authoritative memory_state_store numbering_codec False ex_env ex_register ?st
      (ex_manager None) = (res, m', st')"
    using prod_cases3 by blast
  have "stored_generation memory_state_store ?st \<noteq> m_generation (ex_manager None)"
    by (simp add: stored_generation_def memory_state_store_def load_runtime_state_def store_runtime_state_def
        ex_store_def new_memory_store_def next_generation_def Let_def)
  from foreign_state_never_overwritten [OF this _ run] run show ?thesis by simp
qed

end
