(* ===== verification/Artifact_Props.thy ===== *)
theory Artifact_Props
  imports Artifact_Store
begin

text \<open>
  Histories of the in-memory artifact store: every operation of \<open>MemoryProofArtifactStore\<close> that changes
  it as a step, the invariant of the reachable stores, and what it gives. Recorded artifacts can
  be read and have the recorded hash, and a descriptor whose manifest is gone never
  matches a later manifest.
\<close>

section \<open>Histories\<close>

datatype 'k artifact_op =
    SPut proof_artifact_key bytes
  | SDelete proof_artifact_key proof_artifact_descriptor
  | SStoreState bytes "int option"
  | SCleanup cleanup_mask
  | SReset
  | SPutPreflight 'k bytes
  | SDeletePreflight 'k preflight_descriptor

text \<open>An operation that fails leaves the store as it is.\<close>

definition kept :: "'s \<Rightarrow> ('e, 'a \<times> 's) outcome \<Rightarrow> 's" where
  "kept s r = (case r of Ok (_, s') \<Rightarrow> s' | _ \<Rightarrow> s)"

fun store_step ::
  "('k \<Rightarrow> bool) \<Rightarrow> ('k \<Rightarrow> (string, b256) outcome) \<Rightarrow> (bytes \<Rightarrow> bytes) \<Rightarrow> 'k artifact_op \<Rightarrow> 'k memory_store \<Rightarrow> 'k memory_store" where
  "store_step supported digest sha256 (SPut key bs) s = snd (put_if_absent sha256 key bs s)"
| "store_step supported digest sha256 (SDelete key d) s = snd (delete_exact key d s)"
| "store_step supported digest sha256 (SStoreState bs g) s = snd (store_runtime_state bs g s)"
| "store_step supported digest sha256 (SCleanup scopes) s = snd (cleanup_before_start scopes s)"
| "store_step supported digest sha256 SReset s = snd (reset_namespace s)"
| "store_step supported digest sha256 (SPutPreflight k bs) s =
     kept s (put_canonical_preflight_if_absent supported digest sha256 k bs s)"
| "store_step supported digest sha256 (SDeletePreflight k d) s =
     kept s (delete_canonical_preflight_exact supported digest k d s)"

definition store_run ::
  "('k \<Rightarrow> bool) \<Rightarrow> ('k \<Rightarrow> (string, b256) outcome) \<Rightarrow> (bytes \<Rightarrow> bytes) \<Rightarrow> 'k artifact_op list \<Rightarrow> 'k memory_store \<Rightarrow> 'k memory_store" where
  "store_run supported digest sha256 ops s = fold (store_step supported digest sha256) ops s"

section \<open>How a step changes the manifests\<close>

text \<open>
  The counter of generations never falls. A step keeps the manifest of a key, removes it, or records
  a new one under a generation that has just been drawn.
\<close>

definition manifest_step :: "'k memory_store \<Rightarrow> 'k memory_store \<Rightarrow> bool" where
  "manifest_step s s' \<longleftrightarrow>
     ms_environment s' = ms_environment s \<and> ms_namespace s' = ms_namespace s
     \<and> ms_next_generation s \<le> ms_next_generation s' \<and> ms_next_generation s' \<le> i64_max
     \<and> (\<forall>key m. fmlookup (ms_manifests s') key = Some m \<longrightarrow>
          fmlookup (ms_manifests s) key = Some m
          \<or> fmlookup (ms_manifests s) key = None \<and> mm_generation m = ms_next_generation s'
             \<and> mm_generation m = min (ms_next_generation s + 1) i64_max)"

lemmas store_defs = put_if_absent_def delete_exact_def store_runtime_state_def cleanup_before_start_def
  reset_namespace_def new_memory_store_def put_canonical_preflight_if_absent_def
  delete_canonical_preflight_exact_def next_generation_def kept_def

lemma store_step_manifests:
  "ms_next_generation s \<le> i64_max \<Longrightarrow> manifest_step s (store_step supported digest sha256 op s)"
proof (cases op)
  case (SPutPreflight k bs)
  then show "ms_next_generation s \<le> i64_max \<Longrightarrow> ?thesis"
    by (cases "preflight_digest supported digest k")
      (auto simp: manifest_step_def store_defs Let_def ensure_def split: option.splits)
next
  case (SDeletePreflight k d)
  then show "ms_next_generation s \<le> i64_max \<Longrightarrow> ?thesis"
    by (cases "preflight_digest supported digest k")
      (auto simp: manifest_step_def store_defs Let_def split: option.splits)
qed (auto simp: manifest_step_def store_defs Let_def split: option.splits if_splits)

definition readable :: "(bytes \<Rightarrow> bytes) \<Rightarrow> 'k memory_store \<Rightarrow> bool" where
  "readable sha256 s \<longleftrightarrow>
     (\<forall>key m. fmlookup (ms_manifests s) key = Some m \<longrightarrow> fmlookup (ms_contents s) (key, mm_content_hash m) \<noteq> None)
     \<and> (\<forall>key h bs. fmlookup (ms_contents s) (key, h) = Some bs \<longrightarrow> content_hash sha256 bs = h)"

lemma store_step_readable:
  "readable sha256 s \<Longrightarrow> readable sha256 (store_step supported digest sha256 op s)"
proof (cases op)
  case (SPutPreflight k bs)
  then show "readable sha256 s \<Longrightarrow> ?thesis"
    by (cases "preflight_digest supported digest k")
      (auto simp: readable_def store_defs Let_def ensure_def split: option.splits)
next
  case (SDeletePreflight k d)
  then show "readable sha256 s \<Longrightarrow> ?thesis"
    by (cases "preflight_digest supported digest k")
      (auto simp: readable_def store_defs Let_def split: option.splits)
next
  case (SPut key bs)
  then show "readable sha256 s \<Longrightarrow> ?thesis"
    by (fastforce simp: readable_def store_defs Let_def split: option.splits if_splits)
qed (auto simp: readable_def store_defs Let_def split: option.splits if_splits)

lemma store_run_readable:
  "readable sha256 s \<Longrightarrow> readable sha256 (store_run supported digest sha256 ops s)"
  unfolding store_run_def by (induction ops arbitrary: s) (simp_all add: store_step_readable)

text \<open>The two checks of white space of the constructor exclude only the empty string.\<close>

lemma plain_not_white:
  assumes "is_plain_char c"
  shows "\<not> white_space1 (of_char c)" "\<not> white_space2 (of_char c) b" "\<not> white_space3 (of_char c) b d"
  using assms by (auto simp: is_plain_char_def is_ascii_alphanumeric_def Let_def white_space1_def white_space2_def
      white_space3_def)

lemma validate_scope_component_Ok_iff:
  "validate_scope_component name v = Ok () \<longleftrightarrow> v \<noteq> [] \<and> list_all is_plain_char v"
proof -
  have "\<not> starts_white v \<and> \<not> ends_white v" if "list_all is_plain_char v"
  proof
    show "\<not> starts_white v" using that by (cases v) (auto simp: starts_white_def plain_not_white)
    show "\<not> ends_white v" using that by (auto simp: ends_white_def Let_def list_all_length plain_not_white)
  qed
  then show ?thesis
    using trim_is_empty_starts [of v] by (auto simp: validate_scope_component_def)
qed

lemma memory_store_new_Ok_iff:
  "memory_store_new environment namespace = Ok s \<longleftrightarrow>
     s = new_memory_store environment namespace
     \<and> environment \<noteq> [] \<and> list_all is_plain_char environment \<and> namespace \<noteq> [] \<and> list_all is_plain_char namespace"
  by (auto simp: memory_store_new_def bind_outcome_Ok_iff validate_scope_component_Ok_iff)

lemma new_store_readable: "readable sha256 (new_memory_store environment namespace)"
  by (simp add: readable_def new_memory_store_def)

lemma readable_get:
  "readable sha256 s \<Longrightarrow> fmlookup (ms_manifests s) key = Some m \<Longrightarrow>
     \<exists>bs. get_object key s = Ok (Some (manifest_object s key m bs)) \<and> content_hash sha256 bs = mm_content_hash m"
  by (fastforce simp: readable_def get_object_def ok_or_def)

lemma content_hash_eq_iff: "content_hash sha256 a = content_hash sha256 b \<longleftrightarrow> sha256 a = sha256 b"
proof
  assume eq: "content_hash sha256 a = content_hash sha256 b"
  then have "sort_prefix_hex (sha256 a) = sort_prefix_hex (sha256 b)" by (simp add: content_hash_def sort_prefix_hex_def)
  then show "sha256 a = sha256 b" by (metis length_sort_prefix_hex mult_cancel_left sort_prefix_hex_inject zero_neq_numeral)
qed (simp add: content_hash_def)

section \<open>A published artifact is served\<close>

text \<open>The operations that can remove the manifest of a key: the deletion of exactly that object, and the two cleanups.\<close>

fun removes_artifact :: "proof_artifact_key \<Rightarrow> proof_artifact_descriptor \<Rightarrow> 'k artifact_op \<Rightarrow> bool" where
  "removes_artifact key d (SDelete key' d') \<longleftrightarrow> key' = key \<and> d' = d"
| "removes_artifact key d (SCleanup scopes) \<longleftrightarrow> mask_contains scopes (scope_mask ProofScope)"
| "removes_artifact key d SReset \<longleftrightarrow> True"
| "removes_artifact key d _ \<longleftrightarrow> False"

definition has_manifest :: "proof_artifact_key \<Rightarrow> proof_artifact_descriptor \<Rightarrow> 'k memory_store \<Rightarrow> bool" where
  "has_manifest key d s \<longleftrightarrow> get_descriptor key s = Some d"

lemma store_step_keeps_manifest:
  assumes "has_manifest key d s" "\<not> removes_artifact key d op"
  shows "has_manifest key d (store_step supported digest sha256 op s)"
proof -
  obtain m where m: "fmlookup (ms_manifests s) key = Some m" "d = manifest_descriptor s key m"
    using assms(1) by (auto simp: has_manifest_def get_descriptor_def)
  show ?thesis
  proof (cases op)
    case (SPutPreflight k bs)
    then show ?thesis
      using assms m by (cases "preflight_digest supported digest k")
        (auto simp: has_manifest_def get_descriptor_def manifest_descriptor_def store_defs Let_def ensure_def split: option.splits)
  next
    case (SDeletePreflight k d')
    then show ?thesis
      using assms m by (cases "preflight_digest supported digest k")
        (auto simp: has_manifest_def get_descriptor_def manifest_descriptor_def store_defs Let_def split: option.splits)
  next
    case (SDelete key' d')
    then show ?thesis
      using assms m by (cases d')
        (auto simp: has_manifest_def get_descriptor_def manifest_descriptor_def store_defs split: option.splits)
  qed (use assms m in \<open>auto simp: has_manifest_def get_descriptor_def manifest_descriptor_def store_defs Let_def
      split: option.splits\<close>)
qed

lemma store_run_keeps_manifest:
  "has_manifest key d s \<Longrightarrow> \<forall>op \<in> set ops. \<not> removes_artifact key d op \<Longrightarrow>
     has_manifest key d (store_run supported digest sha256 ops s)"
  unfolding store_run_def by (induction ops arbitrary: s) (simp_all add: store_step_keeps_manifest)

lemma has_manifest_get:
  assumes "readable sha256 s" "has_manifest key d s"
  shows "\<exists>obj. get_object key s = Ok (Some obj) \<and> object_descriptor obj = d
    \<and> content_hash sha256 (o_bytes obj) = d_content_hash d"
  using assms readable_get [of sha256 s key]
  by (fastforce simp: has_manifest_def get_descriptor_def object_descriptor_def manifest_object_def manifest_descriptor_def)

lemma put_has_manifest:
  "put_if_absent sha256 key bs s = (r, s') \<Longrightarrow> r = PutCreated obj \<or> r = PutAlreadyExists obj \<Longrightarrow>
     has_manifest key (object_descriptor obj) s' \<and> o_bytes obj = bs \<and> o_content_hash obj = content_hash sha256 bs"
  by (auto simp: store_defs has_manifest_def get_descriptor_def object_descriptor_def manifest_object_def
      manifest_descriptor_def Let_def split: option.splits if_splits)

text \<open>
  C18: A published artifact is served until it is removed. If a publication reports the object as
  created or already there, then after any further operations, other than the deletion of exactly that object,
  the cleanup of proofs and the reset of the namespace, reading the key succeeds and gives an object with the same
  descriptor, whose bytes have the hash of the published bytes.
\<close>

theorem published_artifact_served:
  assumes "put_if_absent sha256 key bs (store_run supported digest sha256 ops (new_memory_store environment namespace)) = (r, s)"
    and "r = PutCreated obj \<or> r = PutAlreadyExists obj"
    and "\<forall>op \<in> set ops'. \<not> removes_artifact key (object_descriptor obj) op"
  shows "\<exists>obj'. get_object key (store_run supported digest sha256 ops' s) = Ok (Some obj')
     \<and> object_descriptor obj' = object_descriptor obj \<and> sha256 (o_bytes obj') = sha256 bs"
proof -
  let ?s = "store_run supported digest sha256 ops (new_memory_store environment namespace)"
  let ?d = "object_descriptor obj"
  have "readable sha256 ?s" by (rule store_run_readable) (rule new_store_readable)
  then have "readable sha256 s"
    using store_step_readable [of sha256 ?s supported digest "SPut key bs"] assms(1) by simp
  then have "readable sha256 (store_run supported digest sha256 ops' s)" by (rule store_run_readable)
  moreover have put: "has_manifest key ?d s" "d_content_hash ?d = content_hash sha256 bs"
    using put_has_manifest [OF assms(1,2)] by (auto simp: object_descriptor_def)
  then have "has_manifest key ?d (store_run supported digest sha256 ops' s)"
    using store_run_keeps_manifest assms(3) by blast
  ultimately show ?thesis using has_manifest_get put(2) by (metis content_hash_eq_iff)
qed

definition ex_artifact_key :: proof_artifact_key where
  "ex_artifact_key = \<lparr>ak_network_pair = ''net'', ak_pipeline_key = ShastaSp1,
     ak_route = \<lparr>route_guest = GuestSp1, route_runner = LocalRunner\<rparr>, ak_proof_ref = ''ref''\<rparr>"

definition ex_run :: "nat artifact_op list \<Rightarrow> nat memory_store \<Rightarrow> nat memory_store" where
  "ex_run = store_run (\<lambda>_. True) (\<lambda>_. Ok 0) (take 32)"

text \<open>An example: the artifact is published, a stale deletion and another publication follow.\<close>

definition ex_object :: proof_artifact_object where
  "ex_object = manifest_object (new_memory_store ''dev'' ''ns'' :: nat memory_store) ex_artifact_key
     \<lparr>mm_content_hash = content_hash (take 32) [1], mm_generation = 1\<rparr> [1]"

lemma ex_put:
  "put_if_absent (take 32) ex_artifact_key [1] (ex_run [] (new_memory_store ''dev'' ''ns''))
     = (PutCreated ex_object, snd (put_if_absent (take 32) ex_artifact_key [1] (ex_run [] (new_memory_store ''dev'' ''ns''))))"
  by (simp add: ex_run_def store_run_def put_if_absent_def new_memory_store_def Let_def next_generation_def i64_max_def
      ex_object_def manifest_object_def)

theorem published_artifact_served_witness:
  "\<exists>obj. get_object ex_artifact_key
       (ex_run [SDelete ex_artifact_key ((object_descriptor ex_object)\<lparr>d_generation := Some 0\<rparr>), SPut ex_artifact_key [2]]
         (snd (put_if_absent (take 32) ex_artifact_key [1] (ex_run [] (new_memory_store ''dev'' ''ns'')))))
     = Ok (Some obj) \<and> object_descriptor obj = object_descriptor ex_object \<and> take 32 (o_bytes obj) = [1]"
proof -
  have "\<forall>op \<in> set [SDelete ex_artifact_key ((object_descriptor ex_object)\<lparr>d_generation := Some 0\<rparr>), SPut ex_artifact_key [2]].
      \<not> removes_artifact ex_artifact_key (object_descriptor ex_object) op"
    by (simp add: object_descriptor_def ex_object_def manifest_object_def)
  from published_artifact_served [OF ex_put [unfolded ex_run_def] _ this]
  show ?thesis by (simp add: ex_run_def)
qed

section \<open>A deleted artifact stays deleted\<close>

text \<open>The generation of \<open>d\<close> has been drawn and is not the one recorded for the key.\<close>

definition spent :: "proof_artifact_key \<Rightarrow> proof_artifact_descriptor \<Rightarrow> 'k memory_store \<Rightarrow> bool" where
  "spent key d s \<longleftrightarrow>
     (\<exists>g. d_generation d = Some g \<and> g \<le> ms_next_generation s
        \<and> (\<forall>m. fmlookup (ms_manifests s) key = Some m \<longrightarrow> mm_generation m \<noteq> g))"

definition drawn :: "'k memory_store \<Rightarrow> bool" where
  "drawn s \<longleftrightarrow> ms_next_generation s \<le> i64_max
     \<and> (\<forall>key m. fmlookup (ms_manifests s) key = Some m \<longrightarrow> mm_generation m \<le> ms_next_generation s)"

lemma store_step_drawn: "drawn s \<Longrightarrow> drawn (store_step supported digest sha256 op s)"
  using store_step_manifests [of s supported digest sha256 op]
  by (fastforce simp: drawn_def manifest_step_def)

lemma store_run_drawn: "drawn s \<Longrightarrow> drawn (store_run supported digest sha256 ops s)"
  unfolding store_run_def by (induction ops arbitrary: s) (simp_all add: store_step_drawn)

lemma store_run_mono:
  "drawn s \<Longrightarrow> ms_next_generation s \<le> ms_next_generation (store_run supported digest sha256 ops s)"
  unfolding store_run_def
proof (induction ops arbitrary: s)
  case (Cons op ops)
  have "ms_next_generation s \<le> ms_next_generation (store_step supported digest sha256 op s)"
    using store_step_manifests [of s supported digest sha256 op] Cons.prems by (simp add: drawn_def manifest_step_def)
  also have "\<dots> \<le> ms_next_generation (fold (store_step supported digest sha256) ops (store_step supported digest sha256 op s))"
    using Cons store_step_drawn by blast
  finally show ?case by simp
qed simp

lemma store_step_spent:
  "drawn s \<Longrightarrow> spent key d s \<Longrightarrow> ms_next_generation (store_step supported digest sha256 op s) < i64_max \<Longrightarrow>
     spent key d (store_step supported digest sha256 op s)"
  using store_step_manifests [of s supported digest sha256 op]
  by (fastforce simp: drawn_def spent_def manifest_step_def)

lemma store_run_spent:
  "drawn s \<Longrightarrow> spent key d s \<Longrightarrow> ms_next_generation (store_run supported digest sha256 ops s) < i64_max \<Longrightarrow>
     spent key d (store_run supported digest sha256 ops s)"
proof (induction ops arbitrary: s)
  case (Cons op ops)
  let ?s = "store_step supported digest sha256 op s"
  have run: "store_run supported digest sha256 (op # ops) s = store_run supported digest sha256 ops ?s"
    by (simp add: store_run_def)
  have "ms_next_generation ?s < i64_max"
    using store_run_mono [of ?s supported digest sha256 ops] store_step_drawn [OF Cons.prems(1)] Cons.prems(3)
    by (simp add: run le_less_trans)
  then have "spent key d ?s" using Cons.prems by (intro store_step_spent)
  then show ?case using Cons.IH [of ?s] Cons.prems(1,3) store_step_drawn [of s] by (simp add: run)
qed (simp add: store_run_def)

lemma delete_spends:
  "drawn s \<Longrightarrow> delete_exact key d s = (DeleteRemoved, s') \<Longrightarrow> drawn s' \<and> spent key d s'"
  by (cases "d_generation d") (auto simp: delete_exact_def drawn_def spent_def split: option.splits if_splits)

lemma spent_no_effect:
  "spent key d s \<Longrightarrow> get_descriptor key s \<noteq> Some d
     \<and> (delete_exact key d s = (DeleteStale, s) \<or> delete_exact key d s = (DeleteMissing, s))"
  by (auto simp: spent_def get_descriptor_def manifest_descriptor_def delete_exact_def split: option.splits)

lemma new_store_drawn: "drawn (new_memory_store environment namespace)"
  by (simp add: drawn_def new_memory_store_def i64_max_def)

text \<open>
  C17: A deletion cannot hit a later publication. Once the object of a descriptor has been deleted, no
  later state of the store has an object with this descriptor, even if the same bytes are published again
  under the same key, and deleting by the descriptor again changes nothing. The counter of generations saturates, so
  this needs that it has not reached the largest 64-bit integer.
\<close>

theorem deleted_artifact_stays_deleted:
  assumes "delete_exact key d (store_run supported digest sha256 ops (new_memory_store environment namespace))
      = (DeleteRemoved, s)"
    and "ms_next_generation (store_run supported digest sha256 ops' s) < i64_max"
  shows "get_descriptor key (store_run supported digest sha256 ops' s) \<noteq> Some d
     \<and> snd (delete_exact key d (store_run supported digest sha256 ops' s)) = store_run supported digest sha256 ops' s
     \<and> fst (delete_exact key d (store_run supported digest sha256 ops' s)) \<noteq> DeleteRemoved"
proof -
  have "drawn (store_run supported digest sha256 ops (new_memory_store environment namespace))"
    by (rule store_run_drawn) (rule new_store_drawn)
  from spent_no_effect [OF store_run_spent [OF _ _ assms(2)]] delete_spends [OF this assms(1)]
  show ?thesis by fastforce
qed

theorem deleted_artifact_stays_deleted_witness:
  "get_descriptor ex_artifact_key
     (ex_run [SPut ex_artifact_key [1]]
       (snd (delete_exact ex_artifact_key (object_descriptor ex_object)
               (ex_run [SPut ex_artifact_key [1]] (new_memory_store ''dev'' ''ns'')))))
   \<noteq> Some (object_descriptor ex_object)"
proof -
  let ?s = "ex_run [SPut ex_artifact_key [1]] (new_memory_store ''dev'' ''ns'')"
  let ?t = "snd (delete_exact ex_artifact_key (object_descriptor ex_object) ?s)"
  have del: "delete_exact ex_artifact_key (object_descriptor ex_object) ?s = (DeleteRemoved, ?t)"
    by (simp add: ex_run_def store_run_def store_defs Let_def i64_max_def ex_object_def object_descriptor_def manifest_object_def)
  have "ms_next_generation (ex_run [SPut ex_artifact_key [1]] ?t) < i64_max"
    by (simp add: ex_run_def store_run_def store_defs Let_def i64_max_def ex_object_def object_descriptor_def manifest_object_def)
  from deleted_artifact_stays_deleted [OF del [unfolded ex_run_def] this [unfolded ex_run_def]]
  show ?thesis by (simp add: ex_run_def)
qed

end
