(* ===== verification/Spec2Isabelle.thy ===== *)
theory Spec2Isabelle
  imports Scheduler_Wake Guest_Example Guest_Input_Facts Runtime_Atomic Artifact_Props
begin

text \<open>
  \<^bold>\<open>A verification development for raiko2.\<close>

  raiko2 proves blocks of the Taiko L2 chain. A server accepts proof requests, turns a request
  into a graph of tasks, and puts the graph into a queue; workers lease tasks from the queue and
  run a pipeline that collects the data of a proposal and hands it to a prover. What the prover
  runs is the guest program: it recomputes the blocks of a proposal from their L1 data, executes
  them on a witness of the parent state, and returns one hash that the L1 contract compares. A
  second guest program aggregates the proofs of consecutive proposals. The server keeps a record of every task and of
  every finished proof, in one object of a store that writes under a generation number. Three parts
  of the program are modelled here: the queue with its scheduler, on which all work depends, the runtime
  repository with its store, on which depends that no proof is lost or served after it was withdrawn, and everything the
  guest programs compute, on which the meaning of a proof depends.

  \<^bold>\<open>Shared vocabulary.\<close> \<open>Prelude\<close>: machine words with saturating and checked arithmetic, durations,
  and the three ways a call ends (\<open>Ok\<close>, \<open>Err\<close>, \<open>Panic\<close>), so that an early return by \<open>?\<close>, an error
  and a panic of the source are all values of the model. \<open>Shasta_Base\<close> and \<open>Bytes\<close>: bytes, hashes and
  addresses as words, iteration that stops at the first error, fixed-width byte encodings.

  \<^bold>\<open>The queue\<close> (\<open>src/crates/queue\<close>).
  \<^item> \<open>Queue_Types\<close> (\<open>types.rs\<close>, \<open>scheduler/types.rs\<close>, \<open>scheduler/config.rs\<close>, \<open>scheduler/retry.rs\<close>): owners,
    states, nodes, leases, policies and the retry delay, which is shown to be the exact
    power-of-two back-off over the naturals in spite of saturation.
  \<^item> \<open>Ready_Sort\<close> (\<open>ready_sort.rs\<close>, and the task keys of \<open>src/crates/engine/src/tasks.rs\<close> and
    \<open>src/crates/pipeline/src/lib.rs\<close>): the order of the ready queues, as a locale with one
    interpretation for each key type.
  \<^item> \<open>Exec_Graph\<close> (\<open>store.rs\<close>): normalisation and validation of task graphs, cycle search and
    topological order; which graphs are accepted is characterised exactly.
  \<^item> \<open>Store\<close> (\<open>store.rs\<close>): the state \<open>Inner\<close> as the record \<open>inner\<close> and every operation of the memory
    store. One mutex is held for a whole operation, so an operation is one step; time, fresh
    tokens and the iteration order of hash maps are arguments. The model is that of a release build; the one debug
    assertion of the file has a variant of its own, \<open>retry_now_if_running_debug\<close>. \<open>Store_Facts\<close> says how the operations
    act on single fields; \<open>Store_Inv\<close>, \<open>Store_Owners\<close> and \<open>Store_Deps\<close> give the invariants that hold
    after any sequence of operations; \<open>Store_Detach\<close> and \<open>Store_Lease\<close> say how far a failure spreads,
    what detaching an owner does, that a worker that lost its lease can never change
    anything, and that a worker with a lease never trips the debug assertion; \<open>Store_Example\<close> holds a concrete run.
  \<^item> \<open>Scheduler\<close> (\<open>scheduler/mod.rs\<close>): the calls of the engine and its workers over the store, with the
    notifications they send. \<open>Scheduler_Facts\<close>: which task a worker gets and what happens to a
    completed lease. \<open>Scheduler_Wake\<close>: no lost wake-ups.

  \<^bold>\<open>The runtime repository\<close> (\<open>src/crates/runtime\<close>).
  \<^item> \<open>Artifact_Store\<close> (\<open>artifact_store.rs\<close>, routes of \<open>src/crates/pipeline/src/lib.rs\<close>): object names and the in-memory
    store \<open>MemoryProofArtifactStore\<close> with all its operations. \<open>Artifact_Props\<close>: histories of the store; a published
    artifact is served until exactly it is deleted, and a deletion never hits a later publication.
  \<^item> \<open>Runtime_State\<close> (\<open>lib.rs\<close>): tasks, proof artifacts and pending publications as the record
    \<open>runtime_state\<close>, and the validation of a state. \<open>Runtime_Ops\<close>: every edit of the state, as a function from a state to
    a result and the edited state; the name of an operation is the name of the method whose closure it is.
    \<open>Runtime_Valid\<close> turns the validation into a predicate; \<open>Runtime_Inv\<close> collects the edits in the datatype
    \<open>runtime_op\<close> and shows that each keeps a state valid; \<open>Runtime_Sound\<close> follows lifetimes and artifacts through
    histories of edits; \<open>Runtime_Props\<close> states what comes out: ended lifetimes stay ended, invalidated artifacts are never served, artifacts
    become visible by activation only, and retention removes exactly what it is told to.
  \<^item> \<open>Runtime_Commit\<close> (\<open>lib.rs\<close>): \<open>mutate_authoritative\<close> with its guards, its three attempts, the resolution of unknown
    outcomes and the installation of the new state. What the transport does to a write, and what the lifecycle flags are at each
    point where the source reads them, are arguments. \<open>Runtime_Codec\<close> states the assumption on the JSON codec and meets it
    with a concrete codec. \<open>Runtime_Atomic\<close>: the contract of the store as a locale, interpreted for the in-memory store; a commit
    is an atomic update of the stored state, gets through if one request does, and never overwrites
    a state the manager has not seen.

  \<^bold>\<open>Derivation\<close> (\<open>src/crates/protocol-shasta\<close>, \<open>src/crates/primitives-shasta\<close>).
  \<^item> \<open>Anchor\<close> (\<open>anchor.rs\<close>): the rules for the L1 blocks that L2 blocks refer to.
  \<^item> \<open>Derivation\<close>, \<open>Derivation_Facts\<close> (\<open>shasta/derivation.rs\<close>): from a payload to block manifests; the
    metadata rules as a checker and as a specification over the naturals; the errors; that
    what is derived passes the anchor rules.
  \<^item> \<open>Proposal\<close> (\<open>shasta/mod.rs\<close>): proposals and carry data with their binary forms.
  \<^item> \<open>Libhash\<close> (\<open>libhash\<close>): the messages behind every protocol hash, and that equal hashes of
    sub-proof inputs mean equal inputs.
  \<^item> \<open>Carry\<close> (\<open>instance.rs\<close>): checks on the carry data of consecutive proposals, commitments and
    the public input of an aggregation.

  \<^bold>\<open>The guest programs\<close> (\<open>src/crates/guest-common/src/lib.rs\<close>).
  \<^item> \<open>Witness\<close> (\<open>stateless.rs\<close> of \<open>src/crates/primitives\<close>): headers, trie nodes and witnesses with their
    two wire forms, one for human-readable formats (JSON) and one for binary ones, and their readers, which recompute every hash that can be recomputed. \<open>Guest_Input\<close> and \<open>Guest_Input_Facts\<close> (\<open>input.rs\<close> of \<open>primitives-shasta\<close>): the input
    of the guest, the sharing of headers and nodes between blocks, its readers and writers, and that neither sharing nor
    the wire form loses anything the guest uses.
  \<^item> \<open>Predeploy\<close> (\<open>chain_spec.rs\<close>): contract addresses and storage slots.
  \<^item> \<open>Guest\<close> and \<open>Guest_Prove\<close>: every check of the proof program in the order of the source, its entry
    points, the blob check, and the aggregation.
  \<^item> \<open>Guest_Facts\<close>, \<open>Guest_Sound\<close>, \<open>Guest_Checks\<close>: what acceptance means. The specification is a
    transition relation on L2 headers; an accepted proof refines a run of it from the carried
    parent to the carried checkpoint, anchors lie on the hash chain of L1 headers, the blocks are
    the derived ones, an aggregation is one chain, and the program never panics. \<open>Guest_Example\<close>
    runs both programs on a complete concrete input, so the hypotheses of these theorems can
    hold together.

  \<^bold>\<open>What is assumed.\<close> Code of other packages is an argument: Keccak-256 and SHA-256, the steps of the KZG library, the EVM
  (as the block verifier that the source takes as an argument too), the trie reader, RLP, zlib
  and the transaction codec. Such an argument returns a value or an error; a panic inside another package is not
  represented, except for the block verifier and the reader of the parent state, where its absence is a hypothesis. Theorems that need something from such code name it as a hypothesis; the
  collision-freedom of a hash is always assumed for the finite set of messages in question
  only, never for all messages. Numbers of type \<open>usize\<close> are naturals; where the source adds to them with a
  check, the check is kept.

  Of the JSON codec of the runtime state it is assumed that reading gives back what was written, but for the
  retention mark of tasks, which the source does not write; the bytes may differ from one encoding to the
  next. A closure that is passed to a runtime edit is assumed to keep the
  identity of the tasks it updates and not to revive a task marked for removal; a fresh incarnation is assumed
  to be new, and names and hashes not to be empty. \<open>op_args_ok\<close> spells this out.

  \<^bold>\<open>Bounds.\<close> The two recursive graph searches take a fuel argument. It is one more than the number of
  nodes; a path without repetition is never longer. For every graph whose dependencies are nodes of it this is shown to be
  enough for the cycle search, with the same answer for every larger bound, and enough for the
  topological order of every validated graph. The commit of a runtime edit has the three attempts of the source. All other loops of the source are structural recursions here. Integers keep
  their width, so the wrapping and saturating cases are part of the statements.

  \<^bold>\<open>Not modelled.\<close> RPC, beacon and HTTP clients, the adapters to zkVM provers, proof networks and
  enclaves, the cloud object storage, configuration, telemetry and command-line tools are input and output
  around the modelled parts, and what they compute is computed by packages outside the
  repository. Of the runtime, the publication of proof bytes (\<open>publication.rs\<close>), which orders object writes and commits, the
  registry of artifact locks, the reconciliation loops and the draining of the runtime are not modelled. The asynchronous engine and the HTTP handlers call the modelled operations from
  concurrent tasks; their effect on the queue is covered by the theorems about all sequences of
  operations, their own control flow is not modelled.
\<close>

end
